(* ===== verification/Ramp_Prelude.thy ===== *)
theory Ramp_Prelude
  imports Main "HOL-Library.AList" "HOL-Library.Sublist" "HOL-Library.Word" Complex_Main
begin

text \<open>
  Shared vocabulary of the development.

  \<^item> results of fallible Go functions are values of the sum type (\<open>Inl\<close> the error);
  \<^item> Go maps that the code iterates over are association lists with distinct keys
    (\<open>AList.update\<close>, \<open>AList.delete\<close>), maps that are only looked up are HOL maps;
  \<^item> signed 64-bit arithmetic is integer arithmetic followed by \<open>wrap64\<close>, unsigned
    64-bit counters are naturals modulo \<open>2 ^ 64\<close>;
  \<^item> the decimal verbs of \<open>fmt.Sprintf\<close> (\<open>%d\<close>, \<open>%06d\<close>), \<open>strings.Join\<close> and
    \<open>strings.TrimRight\<close> of the Go standard library.
\<close>

named_theorems res_simps \<open>unfolding rules for results of fallible operations\<close>
named_theorems inv_intros \<open>preservation of component invariants\<close>

type_synonym ('e, 'a) res = "'e + 'a"

section \<open>Fixed-width integers\<close>

definition max_int64 :: int where
  "max_int64 = 2 ^ 63 - 1"

definition min_int64 :: int where
  "min_int64 = - (2 ^ 63)"

definition int64 :: "int \<Rightarrow> bool" where
  "int64 x \<longleftrightarrow> min_int64 \<le> x \<and> x \<le> max_int64"

definition wrap64 :: "int \<Rightarrow> int" where
  "wrap64 x = (x + 2 ^ 63) mod 2 ^ 64 - 2 ^ 63"

definition wrapu64 :: "nat \<Rightarrow> nat" where
  "wrapu64 n = n mod 2 ^ 64"

section \<open>Decimal printing\<close>

definition digit_char :: "nat \<Rightarrow> char" where
  "digit_char n = char_of (48 + n)"

definition char_digit :: "char \<Rightarrow> nat" where
  "char_digit c = of_char c - 48"

fun decimal :: "nat \<Rightarrow> string" where
  "decimal n = (if n < 10 then [digit_char n]
                else decimal (n div 10) @ [digit_char (n mod 10)])"

declare decimal.simps [simp del]

definition decimal_int :: "int \<Rightarrow> string" where
  "decimal_int i = (if i < 0 then CHR ''-'' # decimal (nat (- i)) else decimal (nat i))"

definition undecimal :: "string \<Rightarrow> nat" where
  "undecimal = foldl (\<lambda>a c. 10 * a + char_digit c) 0"

definition pad_left :: "nat \<Rightarrow> char \<Rightarrow> string \<Rightarrow> string" where
  "pad_left w c s = replicate (w - length s) c @ s"

definition decimal06 :: "nat \<Rightarrow> string" where
  "decimal06 n = pad_left 6 (CHR ''0'') (decimal n)"

section \<open>Strings\<close>

definition NUL :: char where
  "NUL = CHR 0x00"

fun join :: "string \<Rightarrow> string list \<Rightarrow> string" where
  "join sep [] = []"
| "join sep [x] = x"
| "join sep (x # y # xs) = x @ sep @ join sep (y # xs)"

definition trim_right :: "char \<Rightarrow> string \<Rightarrow> string" where
  "trim_right c s = rev (dropWhile (\<lambda>d. d = c) (rev s))"

section \<open>Sums over association lists\<close>

definition sum_alist :: "('k \<Rightarrow> 'v \<Rightarrow> rat) \<Rightarrow> ('k \<times> 'v) list \<Rightarrow> rat" where
  "sum_alist f m = sum_list (map (\<lambda>(k, v). f k v) m)"

section \<open>Fixed-width integers: lemmas\<close>

lemma wrap64_sint: "wrap64 x = sint (word_of_int x :: 64 word)"
  by (simp add: wrap64_def int_word_sint)

lemma wrap64_id [simp]: "int64 x \<Longrightarrow> wrap64 x = x"
  by (simp add: wrap64_def int64_def min_int64_def max_int64_def)

lemma wrap64_range: "int64 (wrap64 x)"
  unfolding wrap64_def int64_def min_int64_def max_int64_def
  using pos_mod_bound [of "2 ^ 64" "x + 2 ^ 63"] pos_mod_sign [of "2 ^ 64" "x + 2 ^ 63"]
  by simp

lemma wrapu64_id [simp]: "n < 2 ^ 64 \<Longrightarrow> wrapu64 n = n"
  by (simp add: wrapu64_def)

section \<open>Decimal printing: lemmas\<close>

lemma char_digit_digit_char [simp]: "n < 10 \<Longrightarrow> char_digit (digit_char n) = n"
  by (simp add: char_digit_def digit_char_def)

lemma undecimal_append: "undecimal (s @ [c]) = 10 * undecimal s + char_digit c"
  by (simp add: undecimal_def)

lemma undecimal_decimal [simp]: "undecimal (decimal n) = n"
proof (induction n rule: decimal.induct)
  case (1 n)
  then show ?case
    by (subst decimal.simps) (simp add: undecimal_append, simp add: undecimal_def)
qed

lemma decimal_inj: "decimal m = decimal n \<Longrightarrow> m = n"
  by (metis undecimal_decimal)

lemma undecimal_zero: "undecimal (CHR ''0'' # s) = undecimal s"
  by (simp add: undecimal_def char_digit_def)

lemma undecimal_pad [simp]: "undecimal (pad_left w (CHR ''0'') s) = undecimal s"
proof -
  have "undecimal (replicate k (CHR ''0'') @ s) = undecimal s" for k
    by (induction k) (simp_all add: undecimal_zero)
  then show ?thesis by (simp add: pad_left_def)
qed

lemma undecimal_decimal06 [simp]: "undecimal (decimal06 n) = n"
  by (simp add: decimal06_def)

lemma decimal06_inj: "decimal06 m = decimal06 n \<longleftrightarrow> m = n"
  by (metis undecimal_decimal06)

lemma decimal_chars: "c \<in> set (decimal n) \<Longrightarrow> 48 \<le> (of_char c :: nat) \<and> of_char c \<le> (57 :: nat)"
proof (induction n rule: decimal.induct)
  case (1 n)
  then show ?case
    by (cases "n < 10") (auto simp: decimal.simps [of n] digit_char_def)
qed

lemma decimal06_chars: "c \<in> set (decimal06 n) \<Longrightarrow> 48 \<le> (of_char c :: nat) \<and> of_char c \<le> (57 :: nat)"
  using decimal_chars [of c n] by (auto simp: decimal06_def pad_left_def)

lemma decimal_nonempty [simp]: "decimal n \<noteq> []"
  by (subst decimal.simps) simp

lemma decimal_nodelim [simp]:
  "NUL \<notin> set (decimal n)" "NUL \<notin> set (decimal06 n)" "CHR '':'' \<notin> set (decimal n)"
  using decimal_chars [of _ n] decimal06_chars [of _ n] by (force simp: NUL_def)+

section \<open>Strings: lemmas\<close>

lemma split_at_delim:
  assumes "xs @ d # ys = xs' @ d # ys'" "d \<notin> set xs" "d \<notin> set xs'"
  shows "xs = xs' \<and> ys = ys'"
  using assms
proof (induction xs arbitrary: xs')
  case Nil
  then show ?case by (cases xs') auto
next
  case (Cons x xs)
  then show ?case by (cases xs') auto
qed

lemma trim_right_idem [simp]: "trim_right c (trim_right c s) = trim_right c s"
  by (simp add: trim_right_def)

section \<open>Association lists: lemmas\<close>

lemma sum_alist_Nil [simp]: "sum_alist f [] = 0"
  by (simp add: sum_alist_def)

lemma sum_alist_Cons [simp]: "sum_alist f ((k, v) # m) = f k v + sum_alist f m"
  by (simp add: sum_alist_def)

lemma sum_alist_update_new:
  "map_of m k = None \<Longrightarrow> sum_alist f (AList.update k v m) = sum_alist f m + f k v"
  by (induction m) (auto split: if_splits)

lemma sum_alist_delete_absent:
  "k \<notin> fst ` set m \<Longrightarrow> AList.delete k m = m"
  by (induction m) auto

lemma sum_alist_delete:
  "distinct (map fst m) \<Longrightarrow> map_of m k = Some v
   \<Longrightarrow> sum_alist f (AList.delete k m) = sum_alist f m - f k v"
  by (induction m) (auto simp: sum_alist_delete_absent split: if_splits)

lemma sum_alist_nonneg:
  "(\<And>k v. (k, v) \<in> set m \<Longrightarrow> 0 \<le> f k v) \<Longrightarrow> 0 \<le> sum_alist f m"
  by (induction m) (auto intro: add_nonneg_nonneg)

lemma sum_alist_cong:
  "(\<And>k v. (k, v) \<in> set m \<Longrightarrow> f k v = g k v) \<Longrightarrow> sum_alist f m = sum_alist g m"
  unfolding sum_alist_def by (rule arg_cong [where f = sum_list]) auto

lemma map_of_AList_update [simp]:
  "map_of (AList.update k v m) = (map_of m)(k \<mapsto> v)"
  by (rule update_conv')

lemma map_of_AList_delete [simp]:
  "map_of (AList.delete k m) = (map_of m)(k := None)"
  by (rule delete_conv')

lemma distinct_AList_update [simp]:
  "distinct (map fst m) \<Longrightarrow> distinct (map fst (AList.update k v m))"
  by (rule distinct_update)

lemma distinct_AList_delete [simp]:
  "distinct (map fst m) \<Longrightarrow> distinct (map fst (AList.delete k m))"
  by (rule distinct_delete)

lemma set_AList_delete: "(k, v) \<in> set (AList.delete k' m) \<longleftrightarrow> k \<noteq> k' \<and> (k, v) \<in> set m"
  by (auto simp: AList.delete_eq)

end
