(* ===== verification/Billing_Adapter.thy ===== *)
theory Billing_Adapter
  imports Ramp_Prelude
begin

text \<open>
  The billing contract of the Exchange (\<open>src/exchange/internal/billing/adapter.go\<close>,
  \<open>welcome.go\<close>): amounts, the Authorize request and result, the sentinel errors,
  the argument gate every adapter's \<open>Credit\<close> opens with, and the interface locale
  \<open>billing_adapter\<close> with the laws the transaction pipeline relies on.

  A \<open>*big.Rat\<close> is a \<open>rat option\<close>: \<open>None\<close> is the nil pointer. Dereferencing nil
  panics in Go; the model makes that the error value \<open>Panic\<close>. \<open>ErrPlain\<close> is an error no
  caller branches on, \<open>ErrTb\<close> an error of the ledger client wrapped with \<open>%w\<close>.
\<close>

section \<open>Data\<close>

record Amount =
  Value :: "rat option"
  Currency :: string

text \<open>The sentinels of the ledger client package (\<open>tigerbeetle/errors.go\<close>); \<open>TbOther\<close> is
  any other error of the client library.\<close>

datatype tb_error =
    ErrEmptyID
  | ErrReservedID
  | ErrAccountConflict
  | ErrCreateAccount
  | ErrCreateTransfer
  | ErrBadID
  | ErrUnavailable
  | TbOther string

datatype billing_error =
    ErrUnknownBillingID
  | ErrInsufficientBalance
  | ErrInvalidAmount
  | ErrAmountNotRepresentable
  | ErrRefundBeforeRecord
  | ErrRefundExceedsRecord
  | ErrRefundUnsupported
  | ErrBackendUnavailable
  | ErrUnknownPayee
  | ErrEmptyBillingRef
  | ErrEmptyCreditKey
  | ErrReservedCreditKey
  | ErrBadCreditAmount
  | ErrPlain string
  | ErrTb tb_error
  | Panic

record AuthorizeRequest =
  TenantID :: string
  BillingRef :: string
  UnitCost :: Amount
  Quantity :: int
  Unit :: string
  IdempotencyKey :: string
  ResourceOwnerID :: string
  FeeRateBps :: int

record AuthorizeResult =
  BillingID :: string
  Approved :: bool
  Reason :: string

section \<open>Operations\<close>

definition DemoCurrency :: string where
  "DemoCurrency = ''USD''"

definition approved :: "string \<Rightarrow> AuthorizeResult" where
  "approved bid = \<lparr>BillingID = bid, Approved = True, Reason = []\<rparr>"

definition denied :: "string \<Rightarrow> AuthorizeResult" where
  "denied why = \<lparr>BillingID = [], Approved = False, Reason = why\<rparr>"

definition totalCharge :: "Amount \<Rightarrow> int \<Rightarrow> (billing_error, Amount) res" where
  "totalCharge unitCost quantity =
     (case Value unitCost of
        None \<Rightarrow> Inl Panic
      | Some v \<Rightarrow> Inr \<lparr>Value = Some (v * of_int quantity), Currency = Currency unitCost\<rparr>)"

definition TransferPendingPrefix :: string where "TransferPendingPrefix = ''pending:''"
definition TransferPostPrefix :: string where "TransferPostPrefix = ''post:''"
definition TransferVoidPrefix :: string where "TransferVoidPrefix = ''void:''"
definition TransferFeePrefix :: string where "TransferFeePrefix = ''fee:''"
definition TransferRefundPrefix :: string where "TransferRefundPrefix = ''refund:''"

definition reservedCreditKeyPrefixes :: "string list" where
  "reservedCreditKeyPrefixes =
     [TransferPendingPrefix, TransferPostPrefix, TransferVoidPrefix,
      TransferFeePrefix, TransferRefundPrefix]"

text \<open>\<open>None\<close> is the nil error.\<close>

definition validateCreditArgs ::
  "string \<Rightarrow> Amount \<Rightarrow> string \<Rightarrow> string \<Rightarrow> billing_error option" where
  "validateCreditArgs billingRef amount idempotencyKey expectedCurrency =
     (if billingRef = [] then Some ErrEmptyBillingRef
      else if idempotencyKey = [] then Some ErrEmptyCreditKey
      else if list_ex (\<lambda>p. prefix p idempotencyKey) reservedCreditKeyPrefixes
        then Some ErrReservedCreditKey
      else case Value amount of
        None \<Rightarrow> Some ErrBadCreditAmount
      | Some v \<Rightarrow>
          if v \<le> 0 \<or> Currency amount = [] then Some ErrBadCreditAmount
          else if Currency amount \<noteq> expectedCurrency then Some ErrInvalidAmount
          else None)"

definition WelcomeCreditKey :: "string \<Rightarrow> string" where
  "WelcomeCreditKey billingRef = ''service-welcome:'' @ billingRef"

section \<open>Lemmas\<close>

lemma approved_sel [simp]:
  "BillingID (approved b) = b" "Approved (approved b)" "Reason (approved b) = []"
  by (simp_all add: approved_def)

lemma denied_sel [simp]:
  "\<not> Approved (denied w)" "BillingID (denied w) = []" "Reason (denied w) = w"
  by (simp_all add: denied_def)

lemma validateCreditArgs_None:
  "validateCreditArgs ref amt k cur = None \<longleftrightarrow>
     ref \<noteq> [] \<and> k \<noteq> [] \<and> (\<forall>p \<in> set reservedCreditKeyPrefixes. \<not> prefix p k) \<and>
     (\<exists>v. Value amt = Some v \<and> 0 < v) \<and> Currency amt = cur \<and> cur \<noteq> []"
  by (auto simp: validateCreditArgs_def list_ex_iff split: option.splits)

lemma WelcomeCreditKey_not_reserved:
  "p \<in> set reservedCreditKeyPrefixes \<Longrightarrow> \<not> prefix p (WelcomeCreditKey ref)"
  by (auto simp: reservedCreditKeyPrefixes_def WelcomeCreditKey_def TransferPendingPrefix_def
      TransferPostPrefix_def TransferVoidPrefix_def TransferFeePrefix_def TransferRefundPrefix_def)

lemma WelcomeCreditKey_inj: "WelcomeCreditKey a = WelcomeCreditKey b \<longleftrightarrow> a = b"
  by (simp add: WelcomeCreditKey_def)

section \<open>The interface the transaction pipeline relies on\<close>

text \<open>
  \<open>live s\<close> is the set of billing ids that hold funds in state \<open>s\<close>; \<open>ok\<close> is the
  condition under which a request may be put to the adapter. The laws say what
  each call may do to the holds: only an approval adds one, a resolve removes the
  hold it names and no other, and every call keeps the adapter's invariant.
\<close>

locale billing_adapter =
  fixes inv :: "'s \<Rightarrow> bool"
    and ok :: "'s \<Rightarrow> AuthorizeRequest \<Rightarrow> bool"
    and live :: "'s \<Rightarrow> string set"
    and authorize :: "'s \<Rightarrow> AuthorizeRequest \<Rightarrow> 's \<times> (billing_error, AuthorizeResult) res"
    and record_hold :: "'s \<Rightarrow> string \<Rightarrow> int \<Rightarrow> string \<Rightarrow> 's \<times> billing_error option"
    and release :: "'s \<Rightarrow> string \<Rightarrow> string \<Rightarrow> 's \<times> billing_error option"
  assumes authorize_inv: "inv s \<Longrightarrow> ok s rq \<Longrightarrow> inv (fst (authorize s rq))"
    and record_inv: "inv s \<Longrightarrow> inv (fst (record_hold s b q k))"
    and release_inv: "inv s \<Longrightarrow> inv (fst (release s b k))"
    and authorize_approved:
      "inv s \<Longrightarrow> ok s rq \<Longrightarrow> authorize s rq = (s', Inr r) \<Longrightarrow> Approved r
       \<Longrightarrow> live s \<subseteq> live s' \<and> live s' \<subseteq> insert (BillingID r) (live s)"
    and authorize_refused:
      "inv s \<Longrightarrow> authorize s rq = (s', x) \<Longrightarrow> (\<forall>r. x = Inr r \<longrightarrow> \<not> Approved r) \<Longrightarrow> s' = s"
    and record_live: "inv s \<Longrightarrow> live (fst (record_hold s b q k)) = live s - {b}"
    and release_live: "inv s \<Longrightarrow> live (fst (release s b k)) = live s - {b}"
begin

lemma hold_then_release:
  assumes "inv s" "ok s rq" "authorize s rq = (s', Inr r)" "Approved r"
  shows "live (fst (release s' (BillingID r) k)) \<subseteq> live s"
    and "inv (fst (release s' (BillingID r) k))"
proof -
  have "inv s'" using authorize_inv [OF assms(1,2)] assms(3) by simp
  then show "inv (fst (release s' (BillingID r) k))"
    and "live (fst (release s' (BillingID r) k)) \<subseteq> live s"
    using release_inv release_live authorize_approved [OF assms] by blast+
qed

lemma hold_then_record:
  assumes "inv s" "ok s rq" "authorize s rq = (s', Inr r)" "Approved r"
  shows "live (fst (record_hold s' (BillingID r) q k)) \<subseteq> live s"
    and "inv (fst (record_hold s' (BillingID r) q k))"
proof -
  have "inv s'" using authorize_inv [OF assms(1,2)] assms(3) by simp
  then show "inv (fst (record_hold s' (BillingID r) q k))"
    and "live (fst (record_hold s' (BillingID r) q k)) \<subseteq> live s"
    using record_inv record_live authorize_approved [OF assms] by blast+
qed

end

end
