(* ===== verification/Sha256.thy ===== *)
theory Sha256
  imports Ramp_Prelude
begin

text \<open>
  The two standard-library encoders the sources use to derive identifiers:
  \<open>crypto/sha256.Sum256\<close> (FIPS 180-4) and \<open>encoding/hex\<close>. Byte strings are
  HOL strings; a digest is a list of 32 bytes. The lemmas give the facts the
  components rest on: the digest has 32 bytes, hex encoding doubles the length
  and is undone by decoding.
\<close>

unbundle bit_operations_syntax

section \<open>SHA-256\<close>

text \<open>The round constants are the first 32 bits of the fractional parts of the cube roots of
  the first 64 primes, the initial state those of the square roots of the first eight.\<close>

definition is_prime :: "nat \<Rightarrow> bool" where
  "is_prime n \<longleftrightarrow> 2 \<le> n \<and> list_all (\<lambda>d. n mod d \<noteq> 0) [2..<n]"

fun root_from :: "nat \<Rightarrow> nat \<Rightarrow> nat \<Rightarrow> nat \<Rightarrow> nat" where
  "root_from k n 0 acc = acc"
| "root_from k n (Suc b) acc =
     root_from k n b (if (acc + 2 ^ b) ^ k \<le> n then acc + 2 ^ b else acc)"

definition root_frac32 :: "nat \<Rightarrow> nat \<Rightarrow> 32 word" where
  "root_frac32 k p = word_of_nat (root_from k (p * 2 ^ (32 * k)) 37 0)"

definition sha_k :: "32 word list" where
  "sha_k = map (root_frac32 3) (filter is_prime [2..<312])"

datatype sha_state = Sha (sa: "32 word") (sb: "32 word") (sc: "32 word") (sd: "32 word")
  (se: "32 word") (sf: "32 word") (sg: "32 word") (sh: "32 word")

definition sha_init :: sha_state where
  "sha_init = Sha (root_frac32 2 2) (root_frac32 2 3) (root_frac32 2 5) (root_frac32 2 7)
                  (root_frac32 2 11) (root_frac32 2 13) (root_frac32 2 17) (root_frac32 2 19)"

definition bsig0 :: "32 word \<Rightarrow> 32 word" where
  "bsig0 x = word_rotr 2 x XOR word_rotr 13 x XOR word_rotr 22 x"

definition bsig1 :: "32 word \<Rightarrow> 32 word" where
  "bsig1 x = word_rotr 6 x XOR word_rotr 11 x XOR word_rotr 25 x"

definition ssig0 :: "32 word \<Rightarrow> 32 word" where
  "ssig0 x = word_rotr 7 x XOR word_rotr 18 x XOR drop_bit 3 x"

definition ssig1 :: "32 word \<Rightarrow> 32 word" where
  "ssig1 x = word_rotr 17 x XOR word_rotr 19 x XOR drop_bit 10 x"

definition sha_ch :: "32 word \<Rightarrow> 32 word \<Rightarrow> 32 word \<Rightarrow> 32 word" where
  "sha_ch x y z = (x AND y) XOR (NOT x AND z)"

definition sha_maj :: "32 word \<Rightarrow> 32 word \<Rightarrow> 32 word \<Rightarrow> 32 word" where
  "sha_maj x y z = (x AND y) XOR (x AND z) XOR (y AND z)"

text \<open>The message schedule, kept newest word first.\<close>

fun sha_extend :: "nat \<Rightarrow> 32 word list \<Rightarrow> 32 word list" where
  "sha_extend 0 w = w"
| "sha_extend (Suc n) w =
     sha_extend n ((ssig1 (w ! 1) + w ! 6 + ssig0 (w ! 14) + w ! 15) # w)"

fun sha_round :: "sha_state \<Rightarrow> 32 word \<times> 32 word \<Rightarrow> sha_state" where
  "sha_round (Sha a b c d e f g h) (k, w) =
     (let t1 = h + bsig1 e + sha_ch e f g + k + w;
          t2 = bsig0 a + sha_maj a b c
      in Sha (t1 + t2) a b c (d + t1) e f g)"

fun sha_add :: "sha_state \<Rightarrow> sha_state \<Rightarrow> sha_state" where
  "sha_add (Sha a b c d e f g h) (Sha a' b' c' d' e' f' g' h') =
     Sha (a + a') (b + b') (c + c') (d + d') (e + e') (f + f') (g + g') (h + h')"

definition sha_block :: "sha_state \<Rightarrow> 32 word list \<Rightarrow> sha_state" where
  "sha_block st w = sha_add st (foldl sha_round st (zip sha_k (rev (sha_extend 48 (rev w)))))"

definition be_bytes :: "nat \<Rightarrow> nat \<Rightarrow> nat list" where
  "be_bytes w n = map (\<lambda>i. (n div 256 ^ (w - 1 - i)) mod 256) [0..<w]"

definition sha_pad :: "nat list \<Rightarrow> nat list" where
  "sha_pad m = m @ [0x80] @ replicate ((119 - length m mod 64) mod 64) 0 @ be_bytes 8 (8 * length m)"

fun words32 :: "nat list \<Rightarrow> 32 word list" where
  "words32 (a # b # c # d # r) =
     word_of_nat (((a * 256 + b) * 256 + c) * 256 + d) # words32 r"
| "words32 _ = []"

function sha_blocks :: "sha_state \<Rightarrow> 32 word list \<Rightarrow> sha_state" where
  "sha_blocks st w = (if w = [] then st else sha_blocks (sha_block st (take 16 w)) (drop 16 w))"
  by pat_completeness auto
termination
  by (relation "measure (\<lambda>(st, w). length w)") auto

declare sha_blocks.simps [simp del]

fun sha_words :: "sha_state \<Rightarrow> 32 word list" where
  "sha_words (Sha a b c d e f g h) = [a, b, c, d, e, f, g, h]"

definition sha256 :: "string \<Rightarrow> nat list" where
  "sha256 s = concat (map (\<lambda>w. be_bytes 4 (unat w))
                 (sha_words (sha_blocks sha_init (words32 (sha_pad (map of_char s))))))"

section \<open>Hexadecimal\<close>

definition hex_char :: "nat \<Rightarrow> char" where
  "hex_char n = (if n < 10 then char_of (48 + n) else char_of (87 + n))"

definition hex_encode :: "nat list \<Rightarrow> string" where
  "hex_encode bs = concat (map (\<lambda>b. [hex_char (b div 16), hex_char (b mod 16)]) bs)"

text \<open>\<open>hex.DecodeString\<close> also accepts upper-case digits.\<close>

definition unhex_char :: "char \<Rightarrow> nat option" where
  "unhex_char c = (let n = of_char c :: nat in
     if 48 \<le> n \<and> n \<le> 57 then Some (n - 48)
     else if 97 \<le> n \<and> n \<le> 102 then Some (n - 87)
     else if 65 \<le> n \<and> n \<le> 70 then Some (n - 55)
     else None)"

fun hex_decode :: "string \<Rightarrow> nat list option" where
  "hex_decode [] = Some []"
| "hex_decode [c] = None"
| "hex_decode (c # d # r) =
     (case (unhex_char c, unhex_char d, hex_decode r) of
        (Some x, Some y, Some bs) \<Rightarrow> Some ((16 * x + y) # bs)
      | _ \<Rightarrow> None)"

definition sha256_hex :: "string \<Rightarrow> string" where
  "sha256_hex s = hex_encode (sha256 s)"

section \<open>Lemmas\<close>

lemma length_be_bytes [simp]: "length (be_bytes w n) = w"
  by (simp add: be_bytes_def)

lemma be_bytes_range: "b \<in> set (be_bytes w n) \<Longrightarrow> b < 256"
  by (auto simp: be_bytes_def)

lemma sha_words_length [simp]: "length (sha_words st) = 8"
  by (cases st) simp

lemma length_concat_const:
  "(\<And>x. x \<in> set xs \<Longrightarrow> length (f x) = n) \<Longrightarrow> length (concat (map f xs)) = n * length xs"
  by (induction xs) auto

lemma length_sha256 [simp]: "length (sha256 s) = 32"
  by (simp add: sha256_def length_concat_const [where n = 4])

lemma sha256_range: "b \<in> set (sha256 s) \<Longrightarrow> b < 256"
  by (auto simp: sha256_def dest: be_bytes_range)

lemma length_hex_encode [simp]: "length (hex_encode bs) = 2 * length bs"
  by (induction bs) (auto simp: hex_encode_def)

lemma unhex_hex_char: "n < 16 \<Longrightarrow> unhex_char (hex_char n) = Some n"
  by (auto simp: unhex_char_def hex_char_def Let_def)

lemma hex_decode_encode:
  "(\<And>b. b \<in> set bs \<Longrightarrow> b < 256) \<Longrightarrow> hex_decode (hex_encode bs) = Some bs"
proof (induction bs)
  case Nil
  then show ?case by (simp add: hex_encode_def)
next
  case (Cons b bs)
  then have "b < 256" by simp
  then have "b div 16 < 16" by simp
  then show ?case using Cons by (simp add: hex_encode_def unhex_hex_char)
qed

lemma length_sha256_hex [simp]: "length (sha256_hex s) = 64"
  by (simp add: sha256_hex_def)

lemma hex_char_nodelim: "n < 16 \<Longrightarrow> hex_char n \<noteq> CHR '':''"
  using unhex_hex_char [of n] by (auto simp: unhex_char_def)

lemma hex_encode_nodelim:
  "(\<And>b. b \<in> set bs \<Longrightarrow> b < 256) \<Longrightarrow> CHR '':'' \<notin> set (hex_encode bs)"
proof (induction bs)
  case Nil
  then show ?case by (simp add: hex_encode_def)
next
  case (Cons b bs)
  then have "b < 256" by simp
  then have "b div 16 < 16" "b mod 16 < 16" by simp_all
  then have "hex_char (b div 16) \<noteq> CHR '':''" "hex_char (b mod 16) \<noteq> CHR '':''"
    by (simp_all add: hex_char_nodelim)
  moreover have "CHR '':'' \<notin> set (hex_encode bs)"
    using Cons by simp
  ultimately show ?case by (simp add: hex_encode_def)
qed

end
