(* ===== verification/InMemory_Adapter.thy ===== *)
theory InMemory_Adapter
  imports Billing_Adapter Sha256
begin

text \<open>
  The prepaid-balance ledger of \<open>billing/inmemory_adapter.go\<close>. The struct
  \<open>InMemoryAdapter\<close> is the record \<open>ledger\<close>; every method takes the mutex for its
  whole body, so one call is one atomic step on the record. \<open>reserved\<close> (which the
  code iterates over) and \<open>recorded\<close> are association lists, the other Go maps are HOL maps.
  An error of type \<open>Panic\<close> stands for the panic of a nil \<open>*big.Rat\<close>; the state
  is then returned unchanged, as no write precedes the dereference.
\<close>

section \<open>State\<close>

definition opRecord :: string where "opRecord = ''record''"
definition opRelease :: string where "opRelease = ''release''"
definition opRefund :: string where "opRefund = ''refund''"

definition maxRawKeyLen :: nat where "maxRawKeyLen = 256"

record reservation =
  res_BillingRef :: string
  EstAmt :: Amount
  EstQty :: int
  AuthKey :: string

record recordedTx =
  tx_BillingRef :: string
  Amt :: Amount

record RefundEntry =
  re_Amt :: Amount
  re_Reason :: string
  re_Key :: string

record ledger =
  balances :: "string \<rightharpoonup> Amount"
  quotas :: "string \<rightharpoonup> int"
  reserved :: "(string \<times> reservation) list"
  recorded :: "(string \<times> recordedTx) list"
  refunded :: "string \<rightharpoonup> rat"
  refundLog :: "string \<rightharpoonup> RefundEntry list"
  authSeen :: "string \<rightharpoonup> string"
  opSeen :: "string set"
  creditSeen :: "string set"
  nextIdx :: nat
  idPrefix :: string

record InMemoryOptions =
  opt_Balances :: "(string \<times> Amount) list"
  opt_Quotas :: "(string \<times> int) list"
  opt_IDPrefix :: string

section \<open>Operations\<close>

definition NewInMemoryAdapter :: "InMemoryOptions \<Rightarrow> (billing_error, ledger) res" where
  "NewInMemoryAdapter opts =
     (if list_ex (\<lambda>(k, v). Value v = None) (opt_Balances opts) then Inl Panic
      else Inr \<lparr>balances = map_of (opt_Balances opts), quotas = map_of (opt_Quotas opts),
                reserved = [], recorded = [], refunded = Map.empty, refundLog = Map.empty,
                authSeen = Map.empty, opSeen = {}, creditSeen = {}, nextIdx = 0,
                idPrefix = (if opt_IDPrefix opts = [] then ''bill-'' else opt_IDPrefix opts)\<rparr>)"

definition seenKey :: "string list \<Rightarrow> string" where
  "seenKey parts = join [NUL] parts"

definition boundKey :: "string \<Rightarrow> string" where
  "boundKey key = (if length key \<le> maxRawKeyLen then key else ''h:'' @ sha256_hex key)"

definition authMapKey :: "string \<Rightarrow> string \<Rightarrow> string" where
  "authMapKey billingRef rawKey = seenKey [billingRef, boundKey rawKey]"

definition opAlreadyDone :: "ledger \<Rightarrow> string \<Rightarrow> string \<Rightarrow> string \<Rightarrow> bool" where
  "opAlreadyDone a billingID oper key =
     (if key = [] then False else seenKey [billingID, oper, boundKey key] \<in> opSeen a)"

definition markOpDone :: "string \<Rightarrow> string \<Rightarrow> string \<Rightarrow> ledger \<Rightarrow> ledger" where
  "markOpDone billingID oper key a =
     (if key = [] then a
      else a\<lparr>opSeen := insert (seenKey [billingID, oper, boundKey key]) (opSeen a)\<rparr>)"

definition im_EnsureAgentAccount :: "ledger \<Rightarrow> string \<Rightarrow> ledger \<times> billing_error option" where
  "im_EnsureAgentAccount a billingRef =
     (if billingRef = [] then (a, Some ErrEmptyBillingRef)
      else case balances a billingRef of
        Some _ \<Rightarrow> (a, None)
      | None \<Rightarrow> (a\<lparr>balances := (balances a)(billingRef \<mapsto>
                    \<lparr>Value = Some 0, Currency = DemoCurrency\<rparr>)\<rparr>, None))"

definition im_Credit :: "ledger \<Rightarrow> string \<Rightarrow> Amount \<Rightarrow> string \<Rightarrow> ledger \<times> billing_error option" where
  "im_Credit a billingRef amount idempotencyKey =
     (case validateCreditArgs billingRef amount idempotencyKey DemoCurrency of
        Some e \<Rightarrow> (a, Some e)
      | None \<Rightarrow>
          if boundKey idempotencyKey \<in> creditSeen a then (a, None)
          else
            let bal = (case balances a billingRef of
                         Some b \<Rightarrow> b
                       | None \<Rightarrow> \<lparr>Value = Some 0, Currency = Currency amount\<rparr>)
            in if Currency bal \<noteq> Currency amount then (a, Some (ErrPlain ''account currency''))
               else case (Value bal, Value amount) of
                 (Some b, Some v) \<Rightarrow>
                   (a\<lparr>balances := (balances a)(billingRef \<mapsto> bal\<lparr>Value := Some (b + v)\<rparr>),
                      creditSeen := insert (boundKey idempotencyKey) (creditSeen a)\<rparr>, None)
               | _ \<Rightarrow> (a, Some Panic))"

definition amt_val :: "Amount \<Rightarrow> rat" where
  "amt_val m = (case Value m of Some v \<Rightarrow> v | None \<Rightarrow> 0)"

definition holdsFor :: "string \<Rightarrow> string \<Rightarrow> reservation \<Rightarrow> bool" where
  "holdsFor ref cur r \<longleftrightarrow> res_BillingRef r = ref \<and> Currency (EstAmt r) = cur"

definition totalReserved :: "ledger \<Rightarrow> string \<Rightarrow> string \<Rightarrow> rat" where
  "totalReserved a ref cur =
     sum_alist (\<lambda>_ r. if holdsFor ref cur r then amt_val (EstAmt r) else 0) (reserved a)"

text \<open>\<open>Inr None\<close> is the pass, \<open>Inr (Some d)\<close> the denial \<open>d\<close>.\<close>

definition checkCurrencyAndBalance ::
  "ledger \<Rightarrow> AuthorizeRequest \<Rightarrow> Amount \<Rightarrow> rat \<Rightarrow> (billing_error, AuthorizeResult option) res" where
  "checkCurrencyAndBalance a req bal charge =
     (if Currency bal \<noteq> Currency (UnitCost req) then Inr (Some (denied ''currency mismatch''))
      else if list_ex (\<lambda>(_, r). holdsFor (BillingRef req) (Currency bal) r
                                 \<and> Value (EstAmt r) = None) (reserved a)
        then Inl Panic
      else case Value bal of
        None \<Rightarrow> Inl Panic
      | Some b \<Rightarrow>
          if b - totalReserved a (BillingRef req) (Currency bal) < charge
          then Inr (Some (denied ''insufficient balance''))
          else Inr None)"

definition consumeQuota :: "ledger \<Rightarrow> AuthorizeRequest \<Rightarrow> ledger \<times> AuthorizeResult option" where
  "consumeQuota a req =
     (case quotas a (BillingRef req) of
        None \<Rightarrow> (a, None)
      | Some q \<Rightarrow>
          if q < Quantity req then (a, Some (denied ''quota exhausted''))
          else (a\<lparr>quotas := (quotas a)(BillingRef req \<mapsto> wrap64 (q - Quantity req))\<rparr>, None))"

definition reserve :: "ledger \<Rightarrow> AuthorizeRequest \<Rightarrow> rat \<Rightarrow> ledger \<times> AuthorizeResult" where
  "reserve a req charge =
     (let n = wrapu64 (nextIdx a + 1);
          bid = idPrefix a @ decimal06 n;
          r = \<lparr>res_BillingRef = BillingRef req,
               EstAmt = \<lparr>Value = Some charge, Currency = Currency (UnitCost req)\<rparr>,
               EstQty = Quantity req, AuthKey = IdempotencyKey req\<rparr>;
          a1 = a\<lparr>nextIdx := n, reserved := AList.update bid r (reserved a)\<rparr>;
          a2 = (if IdempotencyKey req \<noteq> []
                then a1\<lparr>authSeen := (authSeen a)(authMapKey (BillingRef req) (IdempotencyKey req) \<mapsto> bid)\<rparr>
                else a1)
      in (a2, approved bid))"

definition im_Authorize ::
  "ledger \<Rightarrow> AuthorizeRequest \<Rightarrow> ledger \<times> (billing_error, AuthorizeResult) res" where
  "im_Authorize a req =
     (case (if IdempotencyKey req \<noteq> []
            then authSeen a (authMapKey (BillingRef req) (IdempotencyKey req)) else None) of
        Some bid \<Rightarrow> (a, Inr (approved bid))
      | None \<Rightarrow>
     (case balances a (BillingRef req) of
        None \<Rightarrow> (a, Inr (denied ''unknown account''))
      | Some bal \<Rightarrow>
          if Quantity req \<le> 0 then (a, Inr (denied ''non-positive quantity''))
          else
     (case totalCharge (UnitCost req) (Quantity req) of
        Inl e \<Rightarrow> (a, Inl e)
      | Inr gross \<Rightarrow>
          let charge = amt_val gross in
     (case (if charge \<noteq> 0 then checkCurrencyAndBalance a req bal charge else Inr None) of
        Inl e \<Rightarrow> (a, Inl e)
      | Inr (Some denial) \<Rightarrow> (a, Inr denial)
      | Inr None \<Rightarrow>
     (case consumeQuota a req of
        (a', Some denial) \<Rightarrow> (a', Inr denial)
      | (a', None) \<Rightarrow>
          let (a'', res) = reserve a' req charge in (a'', Inr res))))))"

definition freeAuth :: "reservation \<Rightarrow> ledger \<Rightarrow> ledger" where
  "freeAuth res a =
     (if AuthKey res \<noteq> []
      then a\<lparr>authSeen := (authSeen a)(authMapKey (res_BillingRef res) (AuthKey res) := None)\<rparr>
      else a)"

definition im_Record :: "ledger \<Rightarrow> string \<Rightarrow> int \<Rightarrow> string \<Rightarrow> ledger \<times> billing_error option" where
  "im_Record a billingID quantity idempotencyKey =
     (if opAlreadyDone a billingID opRecord idempotencyKey then (a, None)
      else case map_of (reserved a) billingID of
        None \<Rightarrow> (a, Some ErrUnknownBillingID)
      | Some res \<Rightarrow>
     (case (balances a (res_BillingRef res), Value (EstAmt res)) of
        (Some bal, Some v) \<Rightarrow>
          (case Value bal of
             None \<Rightarrow> (a, Some Panic)
           | Some b \<Rightarrow>
               (markOpDone billingID opRecord idempotencyKey
                 (freeAuth res
                   (a\<lparr>balances := (balances a)(res_BillingRef res \<mapsto> bal\<lparr>Value := Some (b - v)\<rparr>),
                      recorded := AList.update billingID
                        \<lparr>tx_BillingRef = res_BillingRef res,
                         Amt = \<lparr>Value = Some v, Currency = Currency (EstAmt res)\<rparr>\<rparr> (recorded a),
                      reserved := AList.delete billingID (reserved a)\<rparr>)), None))
      | _ \<Rightarrow> (a, Some Panic)))"

definition im_Release :: "ledger \<Rightarrow> string \<Rightarrow> string \<Rightarrow> ledger \<times> billing_error option" where
  "im_Release a billingID idempotencyKey =
     (if opAlreadyDone a billingID opRelease idempotencyKey then (a, None)
      else case map_of (reserved a) billingID of
        None \<Rightarrow> (a, Some ErrUnknownBillingID)
      | Some res \<Rightarrow>
          let a1 = (case quotas a (res_BillingRef res) of
                      None \<Rightarrow> a
                    | Some q \<Rightarrow> a\<lparr>quotas := (quotas a)(res_BillingRef res \<mapsto> wrap64 (q + EstQty res))\<rparr>)
          in (markOpDone billingID opRelease idempotencyKey
                (freeAuth res (a1\<lparr>reserved := AList.delete billingID (reserved a)\<rparr>)), None))"

definition refundedSoFar :: "ledger \<Rightarrow> string \<Rightarrow> rat" where
  "refundedSoFar a billingID = (case refunded a billingID of Some p \<Rightarrow> p | None \<Rightarrow> 0)"

definition validateRefund ::
  "ledger \<Rightarrow> string \<Rightarrow> Amount \<Rightarrow> (billing_error, recordedTx \<times> rat) res" where
  "validateRefund a billingID amount =
     (case map_of (recorded a) billingID of
        None \<Rightarrow> (case map_of (reserved a) billingID of
                   Some _ \<Rightarrow> Inl ErrRefundBeforeRecord
                 | None \<Rightarrow> Inl ErrUnknownBillingID)
      | Some rec \<Rightarrow>
     (case Value amount of
        None \<Rightarrow> Inl ErrInvalidAmount
      | Some v \<Rightarrow>
          if v \<le> 0 \<or> Currency amount \<noteq> Currency (Amt rec) then Inl ErrInvalidAmount
          else case Value (Amt rec) of
            None \<Rightarrow> Inl Panic
          | Some c \<Rightarrow>
              if refundedSoFar a billingID + v > c then Inl ErrRefundExceedsRecord
              else Inr (rec, v)))"

definition im_Refund ::
  "ledger \<Rightarrow> string \<Rightarrow> Amount \<Rightarrow> string \<Rightarrow> string \<Rightarrow> ledger \<times> billing_error option" where
  "im_Refund a billingID amount reason idempotencyKey =
     (if opAlreadyDone a billingID opRefund idempotencyKey then (a, None)
      else case validateRefund a billingID amount of
        Inl e \<Rightarrow> (a, Some e)
      | Inr (rec, v) \<Rightarrow>
     (case balances a (tx_BillingRef rec) of
        None \<Rightarrow> (a, Some Panic)
      | Some bal \<Rightarrow>
     (case Value bal of
        None \<Rightarrow> (a, Some Panic)
      | Some b \<Rightarrow>
          (markOpDone billingID opRefund idempotencyKey
            (a\<lparr>balances := (balances a)(tx_BillingRef rec \<mapsto> bal\<lparr>Value := Some (b + v)\<rparr>),
               refunded := (refunded a)(billingID \<mapsto> refundedSoFar a billingID + v),
               refundLog := (refundLog a)(billingID \<mapsto>
                 (case refundLog a billingID of Some l \<Rightarrow> l | None \<Rightarrow> []) @
                 [\<lparr>re_Amt = \<lparr>Value = Some v, Currency = Currency amount\<rparr>,
                   re_Reason = reason, re_Key = idempotencyKey\<rparr>])\<rparr>), None))))"

definition im_RefundLog :: "ledger \<Rightarrow> string \<Rightarrow> RefundEntry list" where
  "im_RefundLog a billingID = (case refundLog a billingID of Some l \<Rightarrow> l | None \<Rightarrow> [])"

definition im_GetBalance :: "ledger \<Rightarrow> string \<Rightarrow> (billing_error, Amount) res" where
  "im_GetBalance a billingRef =
     (case balances a billingRef of
        None \<Rightarrow> Inl (ErrPlain ''unknown account'')
      | Some bal \<Rightarrow> (case Value bal of None \<Rightarrow> Inl Panic | Some _ \<Rightarrow> Inr bal))"

definition im_GetQuota :: "ledger \<Rightarrow> string \<Rightarrow> int" where
  "im_GetQuota a billingRef = (case quotas a billingRef of Some q \<Rightarrow> q | None \<Rightarrow> 0)"

end
