(* ===== verification/InMemory_Laws.thy ===== *)
theory InMemory_Laws
  imports InMemory_Adapter
begin

text \<open>
  The invariant of the in-memory ledger and its preservation by every operation.
  Each operation is first characterised by an elimination rule
  (\<open>im_Authorize_cases\<close> and the like) that lists its outcomes and the exact next
  state; the preservation lemmas, collected in \<open>inv_intros\<close>, rest on those rules.
  The second half discharges the \<open>billing_adapter\<close> contract and proves conservation of
  money over arbitrary sequences of operations.
\<close>

section \<open>Invariant\<close>

definition issuedID :: "ledger \<Rightarrow> string \<Rightarrow> bool" where
  "issuedID a bid \<longleftrightarrow> (\<exists>n. 1 \<le> n \<and> n \<le> nextIdx a \<and> bid = idPrefix a @ decimal06 n)"

definition acctCur :: "ledger \<Rightarrow> string \<Rightarrow> string option" where
  "acctCur a ref = map_option Currency (balances a ref)"

definition heldQty :: "ledger \<Rightarrow> string \<Rightarrow> rat" where
  "heldQty a ref = sum_alist (\<lambda>_ r. if res_BillingRef r = ref then of_int (EstQty r) else 0) (reserved a)"

text \<open>Ids: pending and settled ids are disjoint, were issued, and the counter has not wrapped.\<close>

definition inv_ids :: "ledger \<Rightarrow> bool" where
  "inv_ids a \<longleftrightarrow> distinct (map fst (reserved a)) \<and> distinct (map fst (recorded a)) \<and>
     (\<forall>b. b \<in> dom (map_of (reserved a)) \<union> dom (map_of (recorded a)) \<longrightarrow> issuedID a b) \<and>
     dom (map_of (reserved a)) \<inter> dom (map_of (recorded a)) = {} \<and> nextIdx a < 2 ^ 64"

definition charge_ok :: "ledger \<Rightarrow> string \<Rightarrow> Amount \<Rightarrow> bool" where
  "charge_ok a ref m \<longleftrightarrow>
     (\<exists>v c. Value m = Some v \<and> 0 \<le> v \<and> acctCur a ref = Some c \<and> (v = 0 \<or> Currency m = c))"

text \<open>Money: every balance is covered, pending and settled charges are non-negative and
  in the currency of the account, refunds stay within the settled charge.\<close>

definition inv_money :: "ledger \<Rightarrow> bool" where
  "inv_money a \<longleftrightarrow>
     (\<forall>ref bal. balances a ref = Some bal \<longrightarrow>
        (\<exists>v. Value bal = Some v \<and> totalReserved a ref (Currency bal) \<le> v)) \<and>
     (\<forall>b r. map_of (reserved a) b = Some r \<longrightarrow> charge_ok a (res_BillingRef r) (EstAmt r)) \<and>
     (\<forall>b t. map_of (recorded a) b = Some t \<longrightarrow>
        charge_ok a (tx_BillingRef t) (Amt t) \<and> refundedSoFar a b \<le> amt_val (Amt t))"

text \<open>Refunds: only settled charges are refunded, and the memo trail adds up.\<close>

definition inv_refunds :: "ledger \<Rightarrow> bool" where
  "inv_refunds a \<longleftrightarrow>
     (\<forall>b p. refunded a b = Some p \<longrightarrow> 0 \<le> p \<and> b \<in> dom (map_of (recorded a))) \<and>
     (\<forall>b. refundedSoFar a b = sum_list (map (\<lambda>e. amt_val (re_Amt e)) (im_RefundLog a b)))"

text \<open>Dedup: the live-hold index is exactly the keyed reservations, and a processed
  record, release or refund names an issued id that is no longer pending.\<close>

definition inv_auth :: "ledger \<Rightarrow> bool" where
  "inv_auth a \<longleftrightarrow>
     (\<forall>k b. authSeen a k = Some b \<longleftrightarrow>
        (\<exists>r. map_of (reserved a) b = Some r \<and> AuthKey r \<noteq> [] \<and>
             k = authMapKey (res_BillingRef r) (AuthKey r)))"

definition inv_ops :: "ledger \<Rightarrow> bool" where
  "inv_ops a \<longleftrightarrow>
     (\<forall>k \<in> opSeen a. \<exists>b oper bk. issuedID a b \<and> oper \<in> {opRecord, opRelease, opRefund} \<and>
        k = seenKey [b, oper, bk] \<and> map_of (reserved a) b = None)"

definition inv_quota :: "ledger \<Rightarrow> bool" where
  "inv_quota a \<longleftrightarrow>
     (\<forall>b r. map_of (reserved a) b = Some r \<longrightarrow> 0 < EstQty r) \<and>
     (\<forall>ref q. quotas a ref = Some q \<longrightarrow>
        int64 q \<and> of_int q + heldQty a ref \<le> of_int max_int64)"

definition im_inv :: "ledger \<Rightarrow> bool" where
  "im_inv a \<longleftrightarrow> inv_ids a \<and> inv_money a \<and> inv_refunds a \<and> inv_auth a \<and> inv_ops a \<and> inv_quota a"

definition im_ok :: "ledger \<Rightarrow> AuthorizeRequest \<Rightarrow> bool" where
  "im_ok a req \<longleftrightarrow> nextIdx a + 1 < 2 ^ 64 \<and>
     (\<forall>v. Value (UnitCost req) = Some v \<longrightarrow> 0 \<le> v)"

definition im_live :: "ledger \<Rightarrow> string set" where
  "im_live a = fst ` set (reserved a)"

section \<open>The shape of each operation's effect\<close>

definition freshID :: "ledger \<Rightarrow> string" where
  "freshID a = idPrefix a @ decimal06 (wrapu64 (nextIdx a + 1))"

definition held :: "ledger \<Rightarrow> AuthorizeRequest \<Rightarrow> rat \<Rightarrow> ledger" where
  "held a req charge =
     a\<lparr>quotas := (case quotas a (BillingRef req) of None \<Rightarrow> quotas a
                  | Some q \<Rightarrow> (quotas a)(BillingRef req \<mapsto> wrap64 (q - Quantity req))),
       nextIdx := wrapu64 (nextIdx a + 1),
       reserved := AList.update (freshID a)
         \<lparr>res_BillingRef = BillingRef req,
          EstAmt = \<lparr>Value = Some charge, Currency = Currency (UnitCost req)\<rparr>,
          EstQty = Quantity req, AuthKey = IdempotencyKey req\<rparr> (reserved a),
       authSeen := (if IdempotencyKey req = [] then authSeen a
         else (authSeen a)(authMapKey (BillingRef req) (IdempotencyKey req) \<mapsto> freshID a))\<rparr>"

lemma consumeQuota_reserve:
  "consumeQuota a req = (a1, None) \<Longrightarrow> reserve a1 req c = (held a req c, approved (freshID a))"
  by (auto simp: consumeQuota_def reserve_def held_def freshID_def Let_def
      split: option.splits if_splits)

lemma consumeQuota_denied:
  "consumeQuota a req = (a1, Some d) \<Longrightarrow> a1 = a \<and> (\<exists>w. d = denied w)"
  by (auto simp: consumeQuota_def split: option.splits if_splits)

lemma consumeQuota_pass:
  "consumeQuota a req = (a1, None) \<Longrightarrow> quotas a (BillingRef req) = Some q \<Longrightarrow> Quantity req \<le> q"
  by (auto simp: consumeQuota_def split: option.splits if_splits)

lemma checkCurrencyAndBalance_cases:
  "checkCurrencyAndBalance a req bal c = Inl e \<Longrightarrow> e = Panic"
  "checkCurrencyAndBalance a req bal c = Inr (Some d) \<Longrightarrow> \<exists>w. d = denied w"
  "checkCurrencyAndBalance a req bal c = Inr None \<Longrightarrow> Currency bal = Currency (UnitCost req) \<and>
     (\<exists>b. Value bal = Some b \<and> totalReserved a (BillingRef req) (Currency bal) + c \<le> b)"
  by (auto simp: checkCurrencyAndBalance_def split: option.splits if_splits)

lemma im_Authorize_cases:
  assumes "im_Authorize a req = (a', x)"
  obtains
    (replay) b where "a' = a" "x = Inr (approved b)" "IdempotencyKey req \<noteq> []"
      "authSeen a (authMapKey (BillingRef req) (IdempotencyKey req)) = Some b"
  | (denial) w where "a' = a" "x = Inr (denied w)"
  | (panic) "a' = a" "x = Inl Panic"
      "\<forall>v. Value (UnitCost req) = Some v \<longrightarrow> (\<exists>bal c. balances a (BillingRef req) = Some bal \<and>
         checkCurrencyAndBalance a req bal c = Inl Panic)"
  | (hold) bal v where "balances a (BillingRef req) = Some bal" "0 < Quantity req"
      "Value (UnitCost req) = Some v"
      "IdempotencyKey req = [] \<or> authSeen a (authMapKey (BillingRef req) (IdempotencyKey req)) = None"
      "v * of_int (Quantity req) = 0 \<or>
        (Currency bal = Currency (UnitCost req) \<and>
         (\<exists>c. Value bal = Some c \<and>
           totalReserved a (BillingRef req) (Currency bal) + v * of_int (Quantity req) \<le> c))"
      "\<forall>q. quotas a (BillingRef req) = Some q \<longrightarrow> Quantity req \<le> q"
      "a' = held a req (v * of_int (Quantity req))"
      "x = Inr (approved (freshID a))"
proof (cases "if IdempotencyKey req \<noteq> [] then authSeen a (authMapKey (BillingRef req) (IdempotencyKey req)) else None")
  case (Some b)
  then show thesis using assms replay by (auto simp: im_Authorize_def split: if_splits)
next
  case seen: None
  show thesis
  proof (cases "balances a (BillingRef req)")
    case None
    then show thesis using assms seen denial by (auto simp: im_Authorize_def)
  next
    case bal: (Some bal)
    show thesis
    proof (cases "0 < Quantity req")
      case False
      then show thesis using assms seen bal denial by (auto simp: im_Authorize_def)
    next
      case qty: True
      show thesis
      proof (cases "Value (UnitCost req)")
        case None
        then show thesis using assms seen bal qty panic
          by (auto simp: im_Authorize_def totalCharge_def)
      next
        case v: (Some v)
        let ?c = "v * of_int (Quantity req)"
        let ?gate = "if ?c \<noteq> 0 then checkCurrencyAndBalance a req bal ?c else Inr None"
        have eq: "im_Authorize a req =
          (case ?gate of Inl e \<Rightarrow> (a, Inl e) | Inr (Some d) \<Rightarrow> (a, Inr d)
           | Inr None \<Rightarrow> (case consumeQuota a req of (a', Some d) \<Rightarrow> (a', Inr d)
               | (a', None) \<Rightarrow> let (a'', res) = reserve a' req ?c in (a'', Inr res)))"
          using seen bal qty v by (simp add: im_Authorize_def totalCharge_def amt_val_def Let_def)
        show thesis
        proof (cases ?gate)
          case (Inl e)
          then have "e = Panic"
            by (auto split: if_splits dest: checkCurrencyAndBalance_cases)
          then have "(a', x) = (a, Inl Panic)" "checkCurrencyAndBalance a req bal ?c = Inl Panic"
            using assms eq Inl by (simp_all split: if_splits)
          then show thesis using panic bal by blast
        next
          case gate: (Inr g)
          show thesis
          proof (cases g)
            case (Some d)
            then obtain w where "d = denied w"
              using gate by (auto split: if_splits dest: checkCurrencyAndBalance_cases)
            then have "(a', x) = (a, Inr (denied w))"
              using assms eq gate Some by simp
            then show thesis using denial by simp
          next
            case pass: None
            obtain a1 d where cq: "consumeQuota a req = (a1, d)" by fastforce
            show thesis
            proof (cases d)
              case (Some w)
              then obtain y where "w = denied y" "a1 = a" using cq consumeQuota_denied by blast
              then have "(a', x) = (a, Inr (denied y))"
                using assms eq gate pass cq Some by simp
              then show thesis using denial by simp
            next
              case None
              have "?c = 0 \<or> (Currency bal = Currency (UnitCost req) \<and>
                (\<exists>c. Value bal = Some c \<and> totalReserved a (BillingRef req) (Currency bal) + ?c \<le> c))"
                using gate pass checkCurrencyAndBalance_cases(3) [of a req bal ?c] by metis
              moreover have "(a', x) = (held a req ?c, Inr (approved (freshID a)))"
                using assms eq gate pass cq None consumeQuota_reserve by simp
              moreover have "\<forall>q. quotas a (BillingRef req) = Some q \<longrightarrow> Quantity req \<le> q"
                using cq None consumeQuota_pass by blast
              moreover have "IdempotencyKey req = [] \<or>
                authSeen a (authMapKey (BillingRef req) (IdempotencyKey req)) = None"
                using seen by (simp split: if_splits)
              ultimately show thesis using hold [OF bal qty v] by blast
            qed
          qed
        qed
      qed
    qed
  qed
qed

definition settled :: "ledger \<Rightarrow> string \<Rightarrow> reservation \<Rightarrow> Amount \<Rightarrow> ledger" where
  "settled a b r bal =
     freeAuth r (a\<lparr>balances := (balances a)(res_BillingRef r \<mapsto>
           bal\<lparr>Value := Some (amt_val bal - amt_val (EstAmt r))\<rparr>),
         recorded := AList.update b \<lparr>tx_BillingRef = res_BillingRef r,
           Amt = \<lparr>Value = Some (amt_val (EstAmt r)), Currency = Currency (EstAmt r)\<rparr>\<rparr> (recorded a),
         reserved := AList.delete b (reserved a)\<rparr>)"

lemma im_Record_cases:
  assumes "im_Record a b q k = (a', e)"
  obtains (replay) "a' = a" "e = None" "opAlreadyDone a b opRecord k"
  | (unknown) "a' = a" "e = Some ErrUnknownBillingID" "map_of (reserved a) b = None"
  | (panic) r where "a' = a" "e = Some Panic" "map_of (reserved a) b = Some r"
      "balances a (res_BillingRef r) = None \<or> Value (EstAmt r) = None \<or>
       (\<exists>bal. balances a (res_BillingRef r) = Some bal \<and> Value bal = None)"
  | (settle) r bal where "map_of (reserved a) b = Some r" "balances a (res_BillingRef r) = Some bal"
      "Value bal \<noteq> None" "Value (EstAmt r) \<noteq> None" "\<not> opAlreadyDone a b opRecord k"
      "a' = markOpDone b opRecord k (settled a b r bal)" "e = None"
proof (cases "opAlreadyDone a b opRecord k \<or> map_of (reserved a) b = None")
  case True
  then show thesis using assms replay unknown
    by (cases "opAlreadyDone a b opRecord k") (auto simp: im_Record_def)
next
  case False
  then obtain r where r: "map_of (reserved a) b = Some r" "\<not> opAlreadyDone a b opRecord k" by blast
  show thesis
  proof (cases "\<exists>bal bv v. balances a (res_BillingRef r) = Some bal \<and> Value bal = Some bv \<and> Value (EstAmt r) = Some v")
    case True
    then obtain bal bv v where bal: "balances a (res_BillingRef r) = Some bal" "Value bal = Some bv"
      "Value (EstAmt r) = Some v" by blast
    have "(a', e) = (markOpDone b opRecord k (settled a b r bal), None)"
      using assms r bal by (simp add: im_Record_def settled_def amt_val_def)
    then show thesis using settle [OF r(1) bal(1)] bal r by simp
  next
    case False
    then have "(a', e) = (a, Some Panic)"
      using assms r by (auto simp: im_Record_def split: option.splits)
    then show thesis using panic [OF _ _ r(1)] False by (metis option.exhaust prod.inject)
  qed
qed

definition released :: "ledger \<Rightarrow> string \<Rightarrow> reservation \<Rightarrow> ledger" where
  "released a b r =
     freeAuth r (a\<lparr>quotas := (case quotas a (res_BillingRef r) of None \<Rightarrow> quotas a
           | Some q \<Rightarrow> (quotas a)(res_BillingRef r \<mapsto> wrap64 (q + EstQty r))),
         reserved := AList.delete b (reserved a)\<rparr>)"

lemma im_Release_cases:
  assumes "im_Release a b k = (a', e)"
  obtains (replay) "a' = a" "e = None" "opAlreadyDone a b opRelease k"
  | (unknown) "a' = a" "e = Some ErrUnknownBillingID" "map_of (reserved a) b = None"
  | (free) r where "map_of (reserved a) b = Some r" "\<not> opAlreadyDone a b opRelease k"
      "a' = markOpDone b opRelease k (released a b r)" "e = None"
proof (cases "opAlreadyDone a b opRelease k \<or> map_of (reserved a) b = None")
  case True
  then show thesis using assms replay unknown
    by (cases "opAlreadyDone a b opRelease k") (auto simp: im_Release_def)
next
  case False
  then obtain r where r: "map_of (reserved a) b = Some r" "\<not> opAlreadyDone a b opRelease k" by blast
  then have "(a', e) = (markOpDone b opRelease k (released a b r), None)"
    using assms by (simp add: im_Release_def released_def split: option.splits)
  then show thesis using free [OF r] by simp
qed

definition refundedTx :: "ledger \<Rightarrow> string \<Rightarrow> recordedTx \<Rightarrow> Amount \<Rightarrow> Amount \<Rightarrow> string \<Rightarrow> string \<Rightarrow> ledger" where
  "refundedTx a b t bal m reason k =
     a\<lparr>balances := (balances a)(tx_BillingRef t \<mapsto> bal\<lparr>Value := Some (amt_val bal + amt_val m)\<rparr>),
       refunded := (refunded a)(b \<mapsto> refundedSoFar a b + amt_val m),
       refundLog := (refundLog a)(b \<mapsto> im_RefundLog a b @
         [\<lparr>re_Amt = \<lparr>Value = Some (amt_val m), Currency = Currency m\<rparr>, re_Reason = reason, re_Key = k\<rparr>])\<rparr>"

lemma validateRefund_Inr:
  assumes "validateRefund a b m = Inr (t, v)"
  obtains c where "map_of (recorded a) b = Some t" "Value m = Some v" "0 < v"
    "Currency m = Currency (Amt t)" "Value (Amt t) = Some c" "refundedSoFar a b + v \<le> c"
  using assms unfolding validateRefund_def by (auto split: if_splits option.splits)

lemma im_Refund_cases:
  assumes "im_Refund a b m reason k = (a', e)"
  obtains (replay) "a' = a" "e = None" "opAlreadyDone a b opRefund k"
  | (reject) err where "a' = a" "e = Some err" "\<not> opAlreadyDone a b opRefund k"
  | (refund) t bal c where "map_of (recorded a) b = Some t" "balances a (tx_BillingRef t) = Some bal"
      "Value bal \<noteq> None" "Value m \<noteq> None" "0 < amt_val m" "Currency m = Currency (Amt t)"
      "Value (Amt t) = Some c" "refundedSoFar a b + amt_val m \<le> c" "\<not> opAlreadyDone a b opRefund k"
      "a' = markOpDone b opRefund k (refundedTx a b t bal m reason k)" "e = None"
proof (cases "opAlreadyDone a b opRefund k")
  case True
  then show thesis using assms replay by (simp add: im_Refund_def)
next
  case new: False
  show thesis
  proof (cases "validateRefund a b m")
    case (Inl err)
    then have "(a', e) = (a, Some err)" using assms new by (simp add: im_Refund_def)
    then show thesis using reject new by simp
  next
    case (Inr tv)
    obtain t v where tv: "tv = (t, v)" by fastforce
    obtain c where c: "map_of (recorded a) b = Some t" "Value m = Some v" "0 < v"
      "Currency m = Currency (Amt t)" "Value (Amt t) = Some c" "refundedSoFar a b + v \<le> c"
      using Inr tv by (auto elim: validateRefund_Inr)
    show thesis
    proof (cases "\<exists>bal bv. balances a (tx_BillingRef t) = Some bal \<and> Value bal = Some bv")
      case False
      then have "(a', e) = (a, Some Panic)"
        using assms new Inr tv by (auto simp: im_Refund_def split: option.splits)
      then show thesis using reject new by simp
    next
      case True
      then obtain bal bv where bal: "balances a (tx_BillingRef t) = Some bal" "Value bal = Some bv" by blast
      have "(a', e) = (markOpDone b opRefund k (refundedTx a b t bal m reason k), None)"
        using assms new Inr tv bal c
        by (simp add: im_Refund_def refundedTx_def im_RefundLog_def amt_val_def)
      then show thesis using refund [OF c(1) bal(1)] bal c new by (simp add: amt_val_def)
    qed
  qed
qed

section \<open>Preservation\<close>

lemma freeAuth_sel [simp]:
  "balances (freeAuth r a) = balances a" "quotas (freeAuth r a) = quotas a"
  "reserved (freeAuth r a) = reserved a" "recorded (freeAuth r a) = recorded a"
  "refunded (freeAuth r a) = refunded a" "refundLog (freeAuth r a) = refundLog a"
  "opSeen (freeAuth r a) = opSeen a" "creditSeen (freeAuth r a) = creditSeen a"
  "nextIdx (freeAuth r a) = nextIdx a" "idPrefix (freeAuth r a) = idPrefix a"
  by (simp_all add: freeAuth_def)

lemma markOpDone_sel [simp]:
  "balances (markOpDone b oper k a) = balances a" "quotas (markOpDone b oper k a) = quotas a"
  "reserved (markOpDone b oper k a) = reserved a" "recorded (markOpDone b oper k a) = recorded a"
  "refunded (markOpDone b oper k a) = refunded a" "refundLog (markOpDone b oper k a) = refundLog a"
  "authSeen (markOpDone b oper k a) = authSeen a" "creditSeen (markOpDone b oper k a) = creditSeen a"
  "nextIdx (markOpDone b oper k a) = nextIdx a" "idPrefix (markOpDone b oper k a) = idPrefix a"
  by (simp_all add: markOpDone_def)

lemmas ledger_sel = settled_def released_def refundedTx_def held_def

text \<open>The invariant parts depend only on these fields.\<close>

lemma issuedID_cong: "nextIdx a' = nextIdx a \<Longrightarrow> idPrefix a' = idPrefix a \<Longrightarrow> issuedID a' = issuedID a"
  by (simp add: issuedID_def fun_eq_iff)

lemma inv_refunds_cong:
  "refunded a' = refunded a \<Longrightarrow> refundLog a' = refundLog a \<Longrightarrow>
   dom (map_of (recorded a)) \<subseteq> dom (map_of (recorded a')) \<Longrightarrow> inv_refunds a \<Longrightarrow> inv_refunds a'"
  by (auto simp: inv_refunds_def refundedSoFar_def im_RefundLog_def subset_iff)

lemma charge_ok_cong:
  "(\<And>c. acctCur a ref = Some c \<Longrightarrow> acctCur a' ref = Some c) \<Longrightarrow> charge_ok a ref m \<Longrightarrow> charge_ok a' ref m"
  by (auto simp: charge_ok_def)

lemma inv_auth_cong:
  "authSeen a' = authSeen a \<Longrightarrow> reserved a' = reserved a \<Longrightarrow> inv_auth a' = inv_auth a"
  by (simp add: inv_auth_def)

lemma inv_ops_mark:
  assumes "inv_ops a" "issuedID a b" "map_of (reserved a) b = None"
    "oper \<in> {opRecord, opRelease, opRefund}"
  shows "inv_ops (markOpDone b oper k a)"
proof -
  have "issuedID (markOpDone b oper k a) = issuedID a" by (rule issuedID_cong) simp_all
  then show ?thesis using assms by (auto simp: inv_ops_def markOpDone_def)
qed

lemma inv_ops_shrink:
  assumes "inv_ops a" "opSeen a' = opSeen a" "nextIdx a' = nextIdx a" "idPrefix a' = idPrefix a"
    "\<And>b. map_of (reserved a) b = None \<Longrightarrow> map_of (reserved a') b = None"
  shows "inv_ops a'"
  using assms issuedID_cong [OF assms(3,4)] unfolding inv_ops_def by metis

lemma inv_auth_free:
  assumes "inv_auth a" "map_of (reserved a) b = Some r"
    "authSeen a' = authSeen a" "map_of (reserved a') = (map_of (reserved a))(b := None)"
  shows "inv_auth (freeAuth r a')"
proof -
  have iff: "\<And>k b. authSeen a k = Some b \<longleftrightarrow> (\<exists>r. map_of (reserved a) b = Some r \<and> AuthKey r \<noteq> [] \<and>
      k = authMapKey (res_BillingRef r) (AuthKey r))"
    using assms(1) by (simp add: inv_auth_def)
  have "authSeen (freeAuth r a') k = Some c \<longleftrightarrow>
      (\<exists>r'. map_of (reserved a') c = Some r' \<and> AuthKey r' \<noteq> [] \<and>
            k = authMapKey (res_BillingRef r') (AuthKey r'))" for k c
  proof (cases "AuthKey r \<noteq> [] \<and> k = authMapKey (res_BillingRef r) (AuthKey r)")
    case True
    then have "authSeen a k = Some b" using iff assms(2) by blast
    then have "c \<noteq> b \<Longrightarrow> \<not> (\<exists>r'. map_of (reserved a) c = Some r' \<and> AuthKey r' \<noteq> [] \<and>
            k = authMapKey (res_BillingRef r') (AuthKey r'))"
      using iff by (metis option.inject)
    then show ?thesis using True assms by (auto simp: freeAuth_def)
  next
    case False
    then have "authSeen (freeAuth r a') k = authSeen a k" using assms(3) by (auto simp: freeAuth_def)
    then show ?thesis using False iff assms(2,4) by auto
  qed
  then show ?thesis by (simp add: inv_auth_def)
qed

lemma totalReserved_delete:
  assumes "distinct (map fst (reserved a))" "map_of (reserved a) b = Some r"
    "reserved a' = AList.delete b (reserved a)"
  shows "totalReserved a' ref cur =
    totalReserved a ref cur - (if holdsFor ref cur r then amt_val (EstAmt r) else 0)"
  using assms by (simp add: totalReserved_def sum_alist_delete)

lemma heldQty_delete:
  assumes "distinct (map fst (reserved a))" "map_of (reserved a) b = Some r"
    "reserved a' = AList.delete b (reserved a)"
  shows "heldQty a' ref = heldQty a ref - (if res_BillingRef r = ref then of_int (EstQty r) else 0)"
  using assms by (simp add: heldQty_def sum_alist_delete)

lemma freshID_fresh:
  assumes "inv_ids a" "nextIdx a + 1 < 2 ^ 64"
  shows "\<not> issuedID a (freshID a)" "map_of (reserved a) (freshID a) = None"
    "map_of (recorded a) (freshID a) = None"
proof -
  show *: "\<not> issuedID a (freshID a)"
    using assms(2) by (auto simp: issuedID_def freshID_def decimal06_inj)
  then show "map_of (reserved a) (freshID a) = None" "map_of (recorded a) (freshID a) = None"
    using assms(1) unfolding inv_ids_def by blast+
qed

lemma inv_ids_issued: "inv_ids a \<Longrightarrow> map_of (reserved a) b = Some r \<Longrightarrow> issuedID a b"
  unfolding inv_ids_def by blast

subsection \<open>Authorize\<close>

lemma held_ids:
  assumes "inv_ids a" "nextIdx a + 1 < 2 ^ 64"
  shows "inv_ids (held a req c)" "issuedID a b \<Longrightarrow> issuedID (held a req c) b"
proof -
  have mono: "issuedID a b \<Longrightarrow> issuedID (held a req c) b" for b
    using assms(2) by (auto simp: issuedID_def held_def)
  then show "issuedID a b \<Longrightarrow> issuedID (held a req c) b" .
  have new: "issuedID (held a req c) (freshID a)"
    using assms(2) by (auto simp: issuedID_def held_def freshID_def)
  show "inv_ids (held a req c)"
    using assms freshID_fresh [OF assms] mono new by (auto simp: inv_ids_def held_def)
qed

lemma held_totalReserved:
  assumes "inv_ids a" "nextIdx a + 1 < 2 ^ 64"
  shows "totalReserved (held a req c) ref cur = totalReserved a ref cur +
    (if BillingRef req = ref \<and> Currency (UnitCost req) = cur then c else 0)"
  using freshID_fresh [OF assms]
  by (simp add: totalReserved_def held_def sum_alist_update_new holdsFor_def amt_val_def)

lemma held_heldQty:
  assumes "inv_ids a" "nextIdx a + 1 < 2 ^ 64"
  shows "heldQty (held a req c) ref = heldQty a ref +
    (if BillingRef req = ref then of_int (Quantity req) else 0)"
  using freshID_fresh [OF assms] by (simp add: heldQty_def held_def sum_alist_update_new)

lemma held_money:
  assumes "inv_ids a" "nextIdx a + 1 < 2 ^ 64" "inv_money a" "0 \<le> c"
    "balances a (BillingRef req) = Some bal"
    "c = 0 \<or> (Currency bal = Currency (UnitCost req) \<and>
       (\<exists>v. Value bal = Some v \<and> totalReserved a (BillingRef req) (Currency bal) + c \<le> v))"
  shows "inv_money (held a req c)"
proof -
  have cur: "acctCur (held a req c) = acctCur a" by (simp add: acctCur_def held_def fun_eq_iff)
  then have ok: "charge_ok (held a req c) = charge_ok a" by (simp add: charge_ok_def fun_eq_iff)
  have new: "charge_ok a (BillingRef req) \<lparr>Value = Some c, Currency = Currency (UnitCost req)\<rparr>"
    using assms(4-6) by (auto simp: charge_ok_def acctCur_def)
  have "\<exists>v. Value bal' = Some v \<and> totalReserved (held a req c) ref (Currency bal') \<le> v"
    if bal': "balances a ref = Some bal'" for ref bal'
  proof -
    obtain v where v: "Value bal' = Some v" "totalReserved a ref (Currency bal') \<le> v"
      using bal' assms(3) unfolding inv_money_def by blast
    then show ?thesis
      using bal' assms(5,6) held_totalReserved [OF assms(1,2), of req c ref] by auto
  qed
  then show ?thesis using assms(3) new ok
    by (simp add: inv_money_def held_def refundedSoFar_def)
qed

lemma held_auth:
  assumes "inv_ids a" "nextIdx a + 1 < 2 ^ 64" "inv_auth a"
    "IdempotencyKey req = [] \<or> authSeen a (authMapKey (BillingRef req) (IdempotencyKey req)) = None"
  shows "inv_auth (held a req c)"
proof -
  have iff: "\<And>k b. authSeen a k = Some b \<longleftrightarrow> (\<exists>r. map_of (reserved a) b = Some r \<and> AuthKey r \<noteq> [] \<and>
      k = authMapKey (res_BillingRef r) (AuthKey r))"
    using assms(3) by (simp add: inv_auth_def)
  let ?K = "authMapKey (BillingRef req) (IdempotencyKey req)"
  have "authSeen (held a req c) k = Some b \<longleftrightarrow>
      (\<exists>r. map_of (reserved (held a req c)) b = Some r \<and> AuthKey r \<noteq> [] \<and>
           k = authMapKey (res_BillingRef r) (AuthKey r))" for k b
  proof (cases "IdempotencyKey req \<noteq> [] \<and> k = ?K")
    case True
    then show ?thesis using iff [of ?K b] assms(4) by (auto simp: held_def)
  next
    case False
    then show ?thesis using iff [of k b] freshID_fresh(2) [OF assms(1,2)] by (auto simp: held_def)
  qed
  then show ?thesis by (simp add: inv_auth_def)
qed

lemma held_ops:
  assumes "inv_ids a" "nextIdx a + 1 < 2 ^ 64" "inv_ops a"
  shows "inv_ops (held a req c)"
proof -
  have "map_of (reserved (held a req c)) b = None"
    if "issuedID a b" "map_of (reserved a) b = None" for b
    using that freshID_fresh(1) [OF assms(1,2)] by (auto simp: held_def)
  moreover have "opSeen (held a req c) = opSeen a" by (simp add: held_def)
  ultimately show ?thesis using assms(3) held_ids(2) [OF assms(1,2)]
    unfolding inv_ops_def by metis
qed

lemma held_quota:
  assumes "inv_ids a" "nextIdx a + 1 < 2 ^ 64" "inv_quota a" "0 < Quantity req"
    "\<forall>q. quotas a (BillingRef req) = Some q \<longrightarrow> Quantity req \<le> q"
  shows "inv_quota (held a req c)"
proof -
  have "int64 q' \<and> of_int q' + heldQty (held a req c) ref \<le> of_int max_int64"
    if q': "quotas (held a req c) ref = Some q'" for ref q'
  proof (cases "ref = BillingRef req")
    case False
    then show ?thesis
      using q' assms(3) held_heldQty [OF assms(1,2)]
      by (auto simp: inv_quota_def held_def split: option.splits)
  next
    case True
    then obtain q where q: "quotas a ref = Some q" "q' = wrap64 (q - Quantity req)"
      using q' by (cases "quotas a (BillingRef req)") (auto simp: held_def)
    then have "int64 q" "of_int q + heldQty a ref \<le> of_int max_int64" "Quantity req \<le> q"
      using assms(3,5) True by (auto simp: inv_quota_def)
    then have "int64 (q - Quantity req)" using assms(4) by (auto simp: int64_def min_int64_def)
    then show ?thesis
      using q True \<open>of_int q + heldQty a ref \<le> of_int max_int64\<close> held_heldQty [OF assms(1,2)] by simp
  qed
  then show ?thesis using assms(3,4) by (auto simp: inv_quota_def held_def split: if_splits)
qed

lemma im_Authorize_inv [inv_intros]:
  assumes "im_inv a" "im_ok a req"
  shows "im_inv (fst (im_Authorize a req))"
proof -
  obtain a' x where eq: "im_Authorize a req = (a', x)" by fastforce
  then show ?thesis
  proof (cases rule: im_Authorize_cases)
    case (hold bal v)
    have n: "nextIdx a + 1 < 2 ^ 64" and v: "0 \<le> v" using assms(2) hold by (auto simp: im_ok_def)
    then have "0 \<le> v * of_int (Quantity req)" using hold by simp
    moreover have "inv_refunds (held a req (v * of_int (Quantity req)))"
      by (rule inv_refunds_cong [of _ a]) (use assms(1) in \<open>simp_all add: im_inv_def held_def\<close>)
    ultimately have "im_inv (held a req (v * of_int (Quantity req)))"
      using assms(1) n hold
      by (simp add: im_inv_def held_ids(1) held_money held_auth held_ops held_quota)
    then show ?thesis using hold eq by simp
  qed (use assms eq in simp_all)
qed

subsection \<open>Record and Release\<close>

lemma acctCur_upd:
  "balances a ref = Some bal \<Longrightarrow> balances a' = (balances a)(ref \<mapsto> bal\<lparr>Value := x\<rparr>)
   \<Longrightarrow> acctCur a' = acctCur a"
  by (auto simp: acctCur_def fun_eq_iff)

lemma settled_ids:
  assumes "inv_ids a" "map_of (reserved a) b = Some r"
  shows "inv_ids (settled a b r bal)"
proof -
  have "issuedID (settled a b r bal) = issuedID a" by (rule issuedID_cong) (simp_all add: settled_def)
  moreover have "issuedID a b" using assms unfolding inv_ids_def by blast
  ultimately show ?thesis using assms by (auto simp: inv_ids_def settled_def)
qed

lemma settled_money:
  assumes ids: "inv_ids a" and money: "inv_money a" and ref: "inv_refunds a"
    and r: "map_of (reserved a) b = Some r" and bal: "balances a (res_BillingRef r) = Some bal"
  shows "inv_money (settled a b r bal)"
proof -
  let ?s = "settled a b r bal"
  have cur: "acctCur ?s = acctCur a" by (rule acctCur_upd [OF bal]) (simp add: settled_def)
  then have ok: "charge_ok ?s = charge_ok a" by (simp add: charge_ok_def fun_eq_iff)
  have r_ok: "charge_ok a (res_BillingRef r) (EstAmt r)" using money r by (auto simp: inv_money_def)
  obtain v where v: "Value bal = Some v" "totalReserved a (res_BillingRef r) (Currency bal) \<le> v"
    using money bal unfolding inv_money_def by blast
  have dist: "distinct (map fst (reserved a))" using ids by (simp add: inv_ids_def)
  note tot = totalReserved_delete [OF dist r, of ?s]
  have nonneg: "0 \<le> amt_val (EstAmt r)" using r_ok by (auto simp: charge_ok_def amt_val_def)
  have "\<exists>w. Value bal' = Some w \<and> totalReserved ?s ref (Currency bal') \<le> w"
    if "balances ?s ref = Some bal'" for ref bal'
  proof (cases "ref = res_BillingRef r")
    case True
    then have "bal' = bal\<lparr>Value := Some (amt_val bal - amt_val (EstAmt r))\<rparr>"
      using that by (simp add: settled_def)
    moreover have "amt_val (EstAmt r) = 0 \<or> holdsFor ref (Currency bal) r"
      using r_ok bal True by (auto simp: charge_ok_def acctCur_def holdsFor_def amt_val_def)
    ultimately show ?thesis using v tot True nonneg
      by (auto simp: settled_def amt_val_def split: option.splits)
  next
    case False
    then have "\<exists>w. Value bal' = Some w \<and> totalReserved a ref (Currency bal') \<le> w"
      using that money by (simp add: settled_def inv_money_def)
    then show ?thesis using tot nonneg by (auto simp: settled_def)
  qed
  moreover have "charge_ok a (tx_BillingRef t) (Amt t) \<and> refundedSoFar a c \<le> amt_val (Amt t)"
    if "map_of (recorded ?s) c = Some t" for c t
  proof (cases "c = b")
    case True
    have "refunded a b = None"
      using ids ref r unfolding inv_ids_def inv_refunds_def by (metis disjoint_iff domIff not_None_eq)
    then show ?thesis
      using True that r_ok nonneg by (auto simp: settled_def charge_ok_def amt_val_def refundedSoFar_def)
  next
    case False
    then show ?thesis using that money by (auto simp: settled_def inv_money_def)
  qed
  ultimately show ?thesis using money ok
    by (auto simp: inv_money_def settled_def refundedSoFar_def split: if_splits)
qed

lemma inv_quota_delete:
  assumes "inv_quota a" "inv_ids a" "map_of (reserved a) b = Some r"
    "reserved a' = AList.delete b (reserved a)"
    "quotas a' = quotas a \<or>
     (\<exists>q. quotas a (res_BillingRef r) = Some q \<and>
       quotas a' = (quotas a)(res_BillingRef r \<mapsto> wrap64 (q + EstQty r)))"
  shows "inv_quota a'"
proof -
  have dist: "distinct (map fst (reserved a))" using assms(2) by (simp add: inv_ids_def)
  have pos: "0 < EstQty r" using assms(1,3) unfolding inv_quota_def by blast
  have le: "int64 q" "of_int q + heldQty a ref \<le> of_int max_int64" if "quotas a ref = Some q" for ref q
    using assms(1) that unfolding inv_quota_def by blast+
  have "0 \<le> heldQty a ref - (if res_BillingRef r = ref then of_int (EstQty r) else 0)" for ref
  proof -
    have "0 \<le> heldQty a' ref" unfolding heldQty_def
      using assms(1,4) dist
      by (intro sum_alist_nonneg) (auto simp: inv_quota_def set_AList_delete intro: less_imp_le)
    then show ?thesis using heldQty_delete [OF dist assms(3,4)] by simp
  qed note nonneg = this
  have "int64 q' \<and> of_int q' + heldQty a' ref \<le> of_int max_int64" if q': "quotas a' ref = Some q'" for ref q'
  proof (cases "quotas a' = quotas a")
    case True
    then show ?thesis using q' le [of ref q'] pos heldQty_delete [OF dist assms(3,4), of ref] by auto
  next
    case False
    then obtain q where q: "quotas a (res_BillingRef r) = Some q"
        "quotas a' = (quotas a)(res_BillingRef r \<mapsto> wrap64 (q + EstQty r))"
      using assms(5) by blast
    have "of_int (q + EstQty r) \<le> (of_int max_int64 :: rat)"
      using le [OF q(1)] nonneg [of "res_BillingRef r"] by simp
    then have "q + EstQty r \<le> max_int64" by (simp only: of_int_le_iff)
    then have "int64 (q + EstQty r)" using le(1) [OF q(1)] pos by (auto simp: int64_def)
    then show ?thesis
      using q q' le [of ref] heldQty_delete [OF dist assms(3,4), of ref] by (auto split: if_splits)
  qed
  then show ?thesis using assms(1,4) by (auto simp: inv_quota_def)
qed

lemma im_Record_inv [inv_intros]:
  assumes "im_inv a"
  shows "im_inv (fst (im_Record a b q k))"
proof -
  obtain a' e where eq: "im_Record a b q k = (a', e)" by fastforce
  then show ?thesis
  proof (cases rule: im_Record_cases)
    case (settle r bal)
    let ?s = "settled a b r bal"
    have parts: "inv_ids a" "inv_money a" "inv_refunds a" "inv_auth a" "inv_ops a" "inv_quota a"
      using assms by (simp_all add: im_inv_def)
    have ids: "inv_ids ?s" by (rule settled_ids [OF parts(1) settle(1)])
    have iss: "issuedID ?s b"
      using ids by (auto simp: inv_ids_def settled_def)
    have ops: "inv_ops ?s"
      by (rule inv_ops_shrink [OF parts(5)]) (simp_all add: settled_def)
    have "inv_auth ?s" unfolding settled_def
      by (rule inv_auth_free [OF parts(4) settle(1)]) simp_all
    then have "inv_auth (markOpDone b opRecord k ?s)" by (simp add: inv_auth_def)
    moreover have "inv_ops (markOpDone b opRecord k ?s)"
      by (rule inv_ops_mark [OF ops iss]) (simp_all add: settled_def)
    moreover have "inv_quota (markOpDone b opRecord k ?s)"
      by (rule inv_quota_delete [OF parts(6,1) settle(1)]) (simp_all add: settled_def)
    moreover have "inv_refunds (markOpDone b opRecord k ?s)"
      by (rule inv_refunds_cong [OF _ _ _ parts(3)]) (auto simp: settled_def)
    moreover have "inv_ids (markOpDone b opRecord k ?s)"
      using ids by (simp add: inv_ids_def issuedID_def)
    moreover have "inv_money (markOpDone b opRecord k ?s)"
      using settled_money [OF parts(1-3) settle(1,2)]
      by (simp add: inv_money_def charge_ok_def acctCur_def totalReserved_def refundedSoFar_def)
    ultimately show ?thesis using eq settle by (simp add: im_inv_def)
  qed (use assms eq in simp_all)
qed

lemma released_money:
  assumes "inv_ids a" "inv_money a" "map_of (reserved a) b = Some r"
  shows "inv_money (released a b r)"
proof -
  let ?s = "released a b r"
  have ok: "charge_ok ?s = charge_ok a"
    by (simp add: charge_ok_def acctCur_def released_def fun_eq_iff)
  have "distinct (map fst (reserved a))" using assms(1) by (simp add: inv_ids_def)
  note tot = totalReserved_delete [OF this assms(3), of ?s]
  have "0 \<le> amt_val (EstAmt r)"
    using assms(2,3) unfolding inv_money_def charge_ok_def amt_val_def by fastforce
  then have "totalReserved ?s ref cur \<le> totalReserved a ref cur" for ref cur
    using tot by (simp add: released_def)
  then have "\<exists>v. Value bal = Some v \<and> totalReserved ?s ref (Currency bal) \<le> v"
    if "balances a ref = Some bal" for ref bal
    using assms(2) that unfolding inv_money_def by (meson order_trans)
  moreover have "balances ?s = balances a" by (simp add: released_def)
  ultimately show ?thesis using assms(2) ok
    by (auto simp: inv_money_def released_def refundedSoFar_def split: if_splits)
qed

lemma im_Release_inv [inv_intros]:
  assumes "im_inv a"
  shows "im_inv (fst (im_Release a b k))"
proof -
  obtain a' e where eq: "im_Release a b k = (a', e)" by fastforce
  then show ?thesis
  proof (cases rule: im_Release_cases)
    case (free r)
    let ?s = "released a b r"
    have parts: "inv_ids a" "inv_money a" "inv_refunds a" "inv_auth a" "inv_ops a" "inv_quota a"
      using assms by (simp_all add: im_inv_def)
    have eqi: "issuedID ?s = issuedID a" by (rule issuedID_cong) (simp_all add: released_def)
    then have iss: "issuedID ?s b" using inv_ids_issued [OF parts(1) free(1)] by simp
    have ids: "inv_ids ?s" using parts(1) eqi by (auto simp: inv_ids_def released_def)
    have ops: "inv_ops ?s"
      by (rule inv_ops_shrink [OF parts(5)]) (simp_all add: released_def)
    have "inv_auth ?s" unfolding released_def
      by (rule inv_auth_free [OF parts(4) free(1)]) simp_all
    then have "inv_auth (markOpDone b opRelease k ?s)" by (simp add: inv_auth_def)
    moreover have "inv_ops (markOpDone b opRelease k ?s)"
      by (rule inv_ops_mark [OF ops iss]) (simp_all add: released_def)
    moreover have "inv_quota (markOpDone b opRelease k ?s)"
      by (rule inv_quota_delete [OF parts(6,1) free(1)]) (simp_all add: released_def split: option.splits)
    moreover have "inv_refunds (markOpDone b opRelease k ?s)"
      by (rule inv_refunds_cong [OF _ _ _ parts(3)]) (auto simp: released_def)
    moreover have "inv_ids (markOpDone b opRelease k ?s)"
      using ids by (simp add: inv_ids_def issuedID_def)
    moreover have "inv_money (markOpDone b opRelease k ?s)"
      using released_money [OF parts(1,2) free(1)]
      by (simp add: inv_money_def charge_ok_def acctCur_def totalReserved_def refundedSoFar_def)
    ultimately show ?thesis using eq free by (simp add: im_inv_def)
  qed (use assms eq in simp_all)
qed

subsection \<open>Refund, Credit and EnsureAgentAccount\<close>

lemma inv_money_raise:
  assumes "inv_money a" "acctCur a' ref = Some (Currency bal)" "balances a' = (balances a)(ref \<mapsto> bal)"
    "\<exists>v. Value bal = Some v \<and> totalReserved a ref (Currency bal) \<le> v"
    "\<And>bal0. balances a ref = Some bal0 \<Longrightarrow> Currency bal0 = Currency bal"
    "reserved a' = reserved a" "recorded a' = recorded a"
    "\<And>b t. map_of (recorded a) b = Some t \<Longrightarrow> refundedSoFar a' b \<le> amt_val (Amt t)"
  shows "inv_money a'"
proof -
  have "acctCur a r = Some c \<Longrightarrow> acctCur a' r = Some c" for r c
    using assms(3,5) by (cases "r = ref") (auto simp: acctCur_def)
  then have ok: "charge_ok a r m \<Longrightarrow> charge_ok a' r m" for r m
    by (rule charge_ok_cong)
  have "totalReserved a' = totalReserved a"
    using assms(6) by (simp add: totalReserved_def fun_eq_iff)
  then show ?thesis using assms ok unfolding inv_money_def by auto
qed

lemma refundedSoFar_nonneg: "inv_refunds a \<Longrightarrow> 0 \<le> refundedSoFar a b"
  by (cases "refunded a b") (auto simp: inv_refunds_def refundedSoFar_def)

lemma refundedTx_refunds:
  assumes "inv_refunds a" "map_of (recorded a) b = Some t" "0 < amt_val m"
  shows "inv_refunds (refundedTx a b t bal m reason k)"
proof -
  let ?s = "refundedTx a b t bal m reason k"
  have "refundedSoFar ?s c = sum_list (map (\<lambda>e. amt_val (re_Amt e)) (im_RefundLog ?s c))" for c
  proof -
    have "refundedSoFar a c = sum_list (map (\<lambda>e. amt_val (re_Amt e)) (im_RefundLog a c))"
      using assms(1) unfolding inv_refunds_def by blast
    then show ?thesis
      by (cases "c = b")
        (auto simp: refundedTx_def refundedSoFar_def im_RefundLog_def amt_val_def)
  qed
  moreover have "0 \<le> p \<and> c \<in> dom (map_of (recorded ?s))" if "refunded ?s c = Some p" for c p
  proof (cases "c = b")
    case True
    then show ?thesis using that assms refundedSoFar_nonneg [OF assms(1), of b]
      by (auto simp: refundedTx_def)
  next
    case False
    then show ?thesis using that assms(1) by (simp add: refundedTx_def inv_refunds_def)
  qed
  ultimately show ?thesis unfolding inv_refunds_def by blast
qed

lemma im_Refund_inv [inv_intros]:
  assumes "im_inv a"
  shows "im_inv (fst (im_Refund a b m reason k))"
proof -
  obtain a' e where eq: "im_Refund a b m reason k = (a', e)" by fastforce
  then show ?thesis
  proof (cases rule: im_Refund_cases)
    case (refund t bal c)
    let ?s = "refundedTx a b t bal m reason k"
    have parts: "inv_ids a" "inv_money a" "inv_refunds a" "inv_auth a" "inv_ops a" "inv_quota a"
      using assms by (simp_all add: im_inv_def)
    have eqi: "issuedID ?s = issuedID a" by (rule issuedID_cong) (simp_all add: refundedTx_def)
    have b: "issuedID ?s b" "map_of (reserved ?s) b = None"
      using parts(1) refund(1) eqi unfolding inv_ids_def refundedTx_def by (auto simp: dom_def)
    have "inv_ops ?s" by (rule inv_ops_shrink [OF parts(5)]) (simp_all add: refundedTx_def)
    then have "inv_ops (markOpDone b opRefund k ?s)" by (rule inv_ops_mark) (use b in simp_all)
    moreover have "inv_ids (markOpDone b opRefund k ?s)"
      using parts(1) by (simp add: inv_ids_def issuedID_def refundedTx_def)
    moreover have "inv_auth (markOpDone b opRefund k ?s)"
      using parts(4) by (simp add: inv_auth_def refundedTx_def)
    moreover have "inv_quota (markOpDone b opRefund k ?s)"
      using parts(6) by (simp add: inv_quota_def heldQty_def refundedTx_def)
    moreover have "inv_refunds (markOpDone b opRefund k ?s)"
      using refundedTx_refunds [OF parts(3) refund(1,5)]
      by (simp add: inv_refunds_def refundedSoFar_def im_RefundLog_def)
    moreover have "inv_money (markOpDone b opRefund k ?s)"
    proof (rule inv_money_raise [OF parts(2), where ref = "tx_BillingRef t" and
          bal = "bal\<lparr>Value := Some (amt_val bal + amt_val m)\<rparr>"])
      obtain v where "Value bal = Some v" "totalReserved a (tx_BillingRef t) (Currency bal) \<le> v"
        using parts(2) refund(2) unfolding inv_money_def by blast
      then show "\<exists>v. Value (bal\<lparr>Value := Some (amt_val bal + amt_val m)\<rparr>) = Some v \<and>
          totalReserved a (tx_BillingRef t) (Currency (bal\<lparr>Value := Some (amt_val bal + amt_val m)\<rparr>)) \<le> v"
        using refund(5) by (simp add: amt_val_def)
      show "refundedSoFar (markOpDone b opRefund k ?s) b' \<le> amt_val (Amt t')"
        if "map_of (recorded a) b' = Some t'" for b' t'
      proof (cases "b' = b")
        case True
        then show ?thesis using that refund by (simp add: refundedTx_def refundedSoFar_def amt_val_def)
      next
        case False
        then have "refundedSoFar (markOpDone b opRefund k ?s) b' = refundedSoFar a b'"
          by (simp add: refundedTx_def refundedSoFar_def)
        then show ?thesis using that parts(2) unfolding inv_money_def by auto
      qed
    qed (use refund in \<open>simp_all add: refundedTx_def acctCur_def\<close>)
    ultimately show ?thesis using eq refund by (simp add: im_inv_def)
  qed (use assms eq in simp_all)
qed

lemma im_Credit_cases:
  assumes "im_Credit a ref m k = (a', e)"
  obtains (reject) err where "a' = a" "e = Some err"
  | (replay) "a' = a" "e = None" "validateCreditArgs ref m k DemoCurrency = None"
      "boundKey k \<in> creditSeen a"
  | (credit) bal where "validateCreditArgs ref m k DemoCurrency = None" "boundKey k \<notin> creditSeen a"
      "bal = (case balances a ref of Some b \<Rightarrow> b | None \<Rightarrow> \<lparr>Value = Some 0, Currency = Currency m\<rparr>)"
      "Currency bal = Currency m" "Value bal \<noteq> None"
      "a' = a\<lparr>balances := (balances a)(ref \<mapsto> bal\<lparr>Value := Some (amt_val bal + amt_val m)\<rparr>),
              creditSeen := insert (boundKey k) (creditSeen a)\<rparr>" "e = None"
proof (cases "validateCreditArgs ref m k DemoCurrency")
  case (Some err)
  then have "(a', e) = (a, Some err)" using assms by (simp add: im_Credit_def)
  then show thesis using reject by simp
next
  case valid: None
  show thesis
  proof (cases "boundKey k \<in> creditSeen a")
    case True
    then show thesis using assms valid replay by (simp add: im_Credit_def)
  next
    case new: False
    let ?bal = "case balances a ref of Some b \<Rightarrow> b | None \<Rightarrow> \<lparr>Value = Some 0, Currency = Currency m\<rparr>"
    show thesis
    proof (cases "Currency ?bal = Currency m \<and> Value ?bal \<noteq> None \<and> Value m \<noteq> None")
      case True
      then show thesis using credit [OF valid new refl] assms valid new
        by (auto simp: im_Credit_def Let_def amt_val_def split: if_splits)
    next
      case False
      then have "\<exists>err. (a', e) = (a, Some err)"
        using assms valid new
        by (cases "Currency ?bal = Currency m")
          (auto simp: im_Credit_def Let_def split: option.splits)
      then show thesis using reject by auto
    qed
  qed
qed

lemma totalReserved_unknown:
  assumes "inv_money a" "balances a ref = None" "distinct (map fst (reserved a))"
  shows "totalReserved a ref cur = 0"
proof -
  have "totalReserved a ref cur = sum_alist (\<lambda>_ _. 0) (reserved a)"
    unfolding totalReserved_def
  proof (rule sum_alist_cong)
    fix b r
    assume "(b, r) \<in> set (reserved a)"
    then have "charge_ok a (res_BillingRef r) (EstAmt r)"
      using assms(1,3) by (auto simp: inv_money_def)
    then show "(if holdsFor ref cur r then amt_val (EstAmt r) else 0) = 0"
      using assms(2) by (auto simp: charge_ok_def acctCur_def holdsFor_def)
  qed
  also have "\<dots> = 0" by (simp add: sum_alist_def case_prod_unfold)
  finally show ?thesis .
qed

lemma im_Credit_inv [inv_intros]:
  assumes "im_inv a"
  shows "im_inv (fst (im_Credit a ref m k))"
proof -
  obtain a' e where eq: "im_Credit a ref m k = (a', e)" by fastforce
  then show ?thesis
  proof (cases rule: im_Credit_cases)
    case (credit bal)
    have parts: "inv_ids a" "inv_money a" "inv_refunds a" "inv_auth a" "inv_ops a" "inv_quota a"
      using assms by (simp_all add: im_inv_def)
    have pos: "0 < amt_val m"
      using credit(1) by (auto simp: validateCreditArgs_None amt_val_def)
    have "\<exists>v. Value bal = Some v \<and> totalReserved a ref (Currency bal) \<le> v"
    proof (cases "balances a ref")
      case None
      then show ?thesis
        using credit(3) totalReserved_unknown [OF parts(2) None] parts(1) by (simp add: inv_ids_def)
    next
      case (Some b)
      then show ?thesis using credit(3) parts(2) unfolding inv_money_def by auto
    qed
    then have "inv_money a'"
      using pos credit(3)
      by (intro inv_money_raise [OF parts(2), where ref = ref and
            bal = "bal\<lparr>Value := Some (amt_val bal + amt_val m)\<rparr>"])
        (use parts(2) credit in \<open>auto simp: acctCur_def amt_val_def refundedSoFar_def inv_money_def\<close>)
    moreover have "inv_refunds a'"
      by (rule inv_refunds_cong [OF _ _ _ parts(3)]) (simp_all add: credit)
    moreover have "inv_ops a'" by (rule inv_ops_shrink [OF parts(5)]) (simp_all add: credit)
    ultimately show ?thesis using parts eq credit(6)
      by (simp add: im_inv_def inv_ids_def issuedID_def inv_auth_def inv_quota_def heldQty_def)
  qed (use assms eq in simp_all)
qed

lemma im_EnsureAgentAccount_inv [inv_intros]:
  assumes "im_inv a"
  shows "im_inv (fst (im_EnsureAgentAccount a ref))"
proof (cases "ref = [] \<or> balances a ref \<noteq> None")
  case True
  then show ?thesis using assms by (auto simp: im_EnsureAgentAccount_def)
next
  case False
  let ?bal = "\<lparr>Value = Some 0, Currency = DemoCurrency\<rparr>"
  let ?a = "a\<lparr>balances := (balances a)(ref \<mapsto> ?bal)\<rparr>"
  have parts: "inv_ids a" "inv_money a" "inv_refunds a" "inv_auth a" "inv_ops a" "inv_quota a"
    using assms by (simp_all add: im_inv_def)
  have "totalReserved a ref DemoCurrency = 0"
    using totalReserved_unknown parts False by (simp add: inv_ids_def)
  then have "inv_money ?a"
    by (intro inv_money_raise [OF parts(2), where ref = ref and bal = ?bal])
      (use parts(2) False in \<open>auto simp: acctCur_def refundedSoFar_def inv_money_def\<close>)
  moreover have "inv_refunds ?a" by (rule inv_refunds_cong [OF _ _ _ parts(3)]) simp_all
  moreover have "inv_ops ?a" by (rule inv_ops_shrink [OF parts(5)]) simp_all
  ultimately have "im_inv ?a" using parts
    by (simp add: im_inv_def inv_ids_def issuedID_def inv_auth_def inv_quota_def heldQty_def)
  then show ?thesis using False by (simp add: im_EnsureAgentAccount_def)
qed

lemma NewInMemoryAdapter_inv:
  assumes "NewInMemoryAdapter opts = Inr a"
    "\<forall>(ref, m) \<in> set (opt_Balances opts). 0 \<le> amt_val m"
    "\<forall>(ref, q) \<in> set (opt_Quotas opts). int64 q"
  shows "im_inv a"
proof -
  have a: "balances a = map_of (opt_Balances opts)" "quotas a = map_of (opt_Quotas opts)"
    "reserved a = []" "recorded a = []" "refunded a = Map.empty" "refundLog a = Map.empty"
    "authSeen a = Map.empty" "opSeen a = {}" "nextIdx a = 0"
    and some: "\<forall>(ref, m) \<in> set (opt_Balances opts). Value m \<noteq> None"
    using assms(1) by (auto simp: NewInMemoryAdapter_def list_ex_iff split: if_splits)
  have "\<exists>v. Value bal = Some v \<and> 0 \<le> v" if "map_of (opt_Balances opts) ref = Some bal" for ref bal
    using some assms(2) map_of_SomeD [OF that] by (fastforce simp: amt_val_def)
  moreover have "int64 q" if "map_of (opt_Quotas opts) ref = Some q" for ref q
    using assms(3) map_of_SomeD [OF that] by auto
  ultimately show ?thesis
    by (auto simp: im_inv_def inv_ids_def inv_money_def inv_refunds_def inv_auth_def inv_ops_def
        inv_quota_def a totalReserved_def heldQty_def refundedSoFar_def im_RefundLog_def int64_def)
qed

section \<open>Replays, holds and the adapter contract\<close>

lemma seenKey_issued:
  assumes "issuedID a b" "issuedID a b'" "seenKey [b, oper, k] = seenKey [b', oper', k']"
  shows "b = b'"
proof -
  obtain n n' where n: "b = idPrefix a @ decimal06 n" "b' = idPrefix a @ decimal06 n'"
    using assms(1,2) unfolding issuedID_def by blast
  then have "decimal06 n @ NUL # (oper @ NUL # k) = decimal06 n' @ NUL # (oper' @ NUL # k')"
    using assms(3) by (simp add: seenKey_def)
  then have "decimal06 n = decimal06 n'"
    using split_at_delim by (metis decimal_nodelim(2))
  then show ?thesis using n by simp
qed

lemma pending_not_done:
  assumes "im_inv a" "map_of (reserved a) b = Some r"
  shows "\<not> opAlreadyDone a b oper k"
proof
  assume "opAlreadyDone a b oper k"
  then have "seenKey [b, oper, boundKey k] \<in> opSeen a"
    by (simp add: opAlreadyDone_def split: if_splits)
  then obtain b' oper' bk where "issuedID a b'" "map_of (reserved a) b' = None"
    "seenKey [b, oper, boundKey k] = seenKey [b', oper', bk]"
    using assms(1) unfolding im_inv_def inv_ops_def by blast
  moreover have "issuedID a b" using assms inv_ids_issued by (auto simp: im_inv_def)
  ultimately show False using assms(2) seenKey_issued by (metis option.distinct(1))
qed

lemma im_live_iff: "b \<in> im_live a \<longleftrightarrow> map_of (reserved a) b \<noteq> None"
  by (simp add: im_live_def map_of_eq_None_iff)

lemma im_live_eq: "im_live a = dom (map_of (reserved a))"
  by (auto simp: im_live_iff)

lemma no_nil_hold:
  assumes "im_inv a" "map_of (reserved a) b = Some r"
  shows "\<exists>bal v w. balances a (res_BillingRef r) = Some bal \<and> Value bal = Some v \<and>
    Value (EstAmt r) = Some w"
proof -
  have "charge_ok a (res_BillingRef r) (EstAmt r)"
    using assms unfolding im_inv_def inv_money_def by blast
  then obtain w bal where "Value (EstAmt r) = Some w" "balances a (res_BillingRef r) = Some bal"
    by (auto simp: charge_ok_def acctCur_def)
  then show ?thesis using assms(1) unfolding im_inv_def inv_money_def by blast
qed

lemma im_Record_live:
  assumes "im_inv a"
  shows "im_live (fst (im_Record a b q k)) = im_live a - {b}"
proof -
  obtain a' e where eq: "im_Record a b q k = (a', e)" by fastforce
  then show ?thesis
  proof (cases rule: im_Record_cases)
    case replay
    then show ?thesis using eq pending_not_done [OF assms] by (auto simp: im_live_iff)
  next
    case (panic r)
    then show ?thesis using no_nil_hold [OF assms panic(3)] by (metis option.distinct(1) option.inject)
  next
    case settle
    then show ?thesis using eq by (auto simp: im_live_eq settled_def)
  qed (use eq in \<open>auto simp: im_live_iff\<close>)
qed

lemma im_Release_live:
  assumes "im_inv a"
  shows "im_live (fst (im_Release a b k)) = im_live a - {b}"
proof -
  obtain a' e where eq: "im_Release a b k = (a', e)" by fastforce
  then show ?thesis
  proof (cases rule: im_Release_cases)
    case replay
    then show ?thesis using eq pending_not_done [OF assms] by (auto simp: im_live_iff)
  next
    case free
    then show ?thesis using eq by (auto simp: im_live_eq released_def)
  qed (use eq in \<open>auto simp: im_live_iff\<close>)
qed

lemma im_Authorize_approved_live:
  assumes "im_inv a" "im_ok a req" "im_Authorize a req = (a', Inr r)" "Approved r"
  shows "im_live a \<subseteq> im_live a' \<and> im_live a' \<subseteq> insert (BillingID r) (im_live a)"
  using assms(3)
proof (cases rule: im_Authorize_cases)
  case (hold bal v)
  then show ?thesis by (auto simp: im_live_eq held_def)
qed (use assms(4) in auto)

lemma im_Authorize_refused:
  assumes "im_Authorize a req = (a', x)" "\<forall>r. x = Inr r \<longrightarrow> \<not> Approved r"
  shows "a' = a"
  using assms(1) by (cases rule: im_Authorize_cases) (use assms(2) in auto)

interpretation im: billing_adapter im_inv im_ok im_live im_Authorize im_Record im_Release
proof unfold_locales
  show "a' = a" if "im_Authorize a req = (a', x)" "\<forall>r. x = Inr r \<longrightarrow> \<not> Approved r" for a req a' x
    using im_Authorize_refused [OF that] .
qed (simp_all add: inv_intros im_Record_live im_Release_live im_Authorize_approved_live)

section \<open>Sequences of operations\<close>

datatype im_op =
    OpEnsure string
  | OpCredit string Amount string
  | OpAuthorize AuthorizeRequest
  | OpRecord string int string
  | OpRelease string string
  | OpRefund string Amount string string

fun im_exec :: "ledger \<Rightarrow> im_op \<Rightarrow> ledger" where
  "im_exec a (OpEnsure ref) = fst (im_EnsureAgentAccount a ref)"
| "im_exec a (OpCredit ref m k) = fst (im_Credit a ref m k)"
| "im_exec a (OpAuthorize req) = fst (im_Authorize a req)"
| "im_exec a (OpRecord b q k) = fst (im_Record a b q k)"
| "im_exec a (OpRelease b k) = fst (im_Release a b k)"
| "im_exec a (OpRefund b m why k) = fst (im_Refund a b m why k)"

fun op_ok :: "ledger \<Rightarrow> im_op \<Rightarrow> bool" where
  "op_ok a (OpAuthorize req) = im_ok a req"
| "op_ok a _ = True"

inductive im_reach :: "ledger \<Rightarrow> ledger \<Rightarrow> bool" where
  start: "im_reach a a"
| step: "im_reach a b \<Longrightarrow> op_ok b oper \<Longrightarrow> im_reach a (im_exec b oper)"

lemma im_exec_inv: "im_inv a \<Longrightarrow> op_ok a oper \<Longrightarrow> im_inv (im_exec a oper)"
  by (cases oper) (simp_all add: inv_intros)

lemma im_reach_inv: "im_reach a b \<Longrightarrow> im_inv a \<Longrightarrow> im_inv b"
  by (induction rule: im_reach.induct) (simp_all add: im_exec_inv)

section \<open>Conservation\<close>

text \<open>What an account owns or has paid and not been given back.\<close>

definition txNet :: "(string \<Rightarrow> rat) \<Rightarrow> string \<Rightarrow> string \<Rightarrow> recordedTx \<Rightarrow> rat" where
  "txNet back ref b t = (if tx_BillingRef t = ref then amt_val (Amt t) - back b else 0)"

definition settledNet :: "ledger \<Rightarrow> string \<Rightarrow> rat" where
  "settledNet a ref = sum_alist (txNet (refundedSoFar a) ref) (recorded a)"

definition balanceOf :: "ledger \<Rightarrow> string \<Rightarrow> rat" where
  "balanceOf a ref = (case balances a ref of Some bal \<Rightarrow> amt_val bal | None \<Rightarrow> 0)"

definition equity :: "ledger \<Rightarrow> string \<Rightarrow> rat" where
  "equity a ref = balanceOf a ref + settledNet a ref"

text \<open>The money an operation brings in from outside: a credit under a new key.\<close>

fun creditedBy :: "ledger \<Rightarrow> im_op \<Rightarrow> string \<Rightarrow> rat" where
  "creditedBy a (OpCredit r m k) ref =
     (if r = ref \<and> snd (im_Credit a r m k) = None \<and> boundKey k \<notin> creditSeen a then amt_val m else 0)"
| "creditedBy a _ ref = 0"

fun im_run :: "ledger \<Rightarrow> im_op list \<Rightarrow> ledger" where
  "im_run a [] = a"
| "im_run a (oper # opers) = im_run (im_exec a oper) opers"

fun run_ok :: "ledger \<Rightarrow> im_op list \<Rightarrow> bool" where
  "run_ok a [] = True"
| "run_ok a (oper # opers) = (op_ok a oper \<and> run_ok (im_exec a oper) opers)"

fun creditsOver :: "ledger \<Rightarrow> im_op list \<Rightarrow> string \<Rightarrow> rat" where
  "creditsOver a [] ref = 0"
| "creditsOver a (oper # opers) ref = creditedBy a oper ref + creditsOver (im_exec a oper) opers ref"

lemma refundedSoFar_cong: "refunded a' = refunded a \<Longrightarrow> refundedSoFar a' = refundedSoFar a"
  by (simp add: refundedSoFar_def fun_eq_iff)

lemma settledNet_cong:
  assumes "refunded a' = refunded a" "recorded a' = recorded a"
  shows "settledNet a' ref = settledNet a ref"
  using assms(2) by (simp add: settledNet_def refundedSoFar_cong [OF assms(1)])

lemma equity_cong:
  "balances a' = balances a \<Longrightarrow> recorded a' = recorded a \<Longrightarrow> refunded a' = refunded a
   \<Longrightarrow> equity a' ref = equity a ref"
  by (simp add: equity_def balanceOf_def settledNet_cong [of a' a])

lemma equity_Record:
  assumes "im_inv a"
  shows "equity (fst (im_Record a b q k)) ref = equity a ref"
proof -
  obtain a' e where eq: "im_Record a b q k = (a', e)" by fastforce
  then show ?thesis
  proof (cases rule: im_Record_cases)
    case (settle r bal)
    have ids: "inv_ids a" and rf: "inv_refunds a" using assms by (simp_all add: im_inv_def)
    have none: "map_of (recorded a) b = None" "refunded a b = None"
      using ids rf settle(1) unfolding inv_ids_def inv_refunds_def
      by (metis disjoint_iff domIff not_None_eq)+
    have "refundedSoFar a' = refundedSoFar a"
      by (rule refundedSoFar_cong) (use settle in \<open>simp add: settled_def\<close>)
    moreover have "refundedSoFar a b = 0" using none by (simp add: refundedSoFar_def)
    moreover have "recorded a' = AList.update b \<lparr>tx_BillingRef = res_BillingRef r,
        Amt = \<lparr>Value = Some (amt_val (EstAmt r)), Currency = Currency (EstAmt r)\<rparr>\<rparr> (recorded a)"
      using settle by (simp add: settled_def)
    ultimately have "settledNet a' ref = settledNet a ref +
        (if res_BillingRef r = ref then amt_val (EstAmt r) else 0)"
      using none(1)
      by (simp add: settledNet_def sum_alist_update_new txNet_def) (simp add: amt_val_def)
    moreover have "balanceOf a' ref = balanceOf a ref -
        (if res_BillingRef r = ref then amt_val (EstAmt r) else 0)"
      using settle by (auto simp: balanceOf_def settled_def amt_val_def)
    ultimately show ?thesis using eq by (simp add: equity_def)
  qed (use eq in simp_all)
qed

lemma sum_alist_point:
  "distinct (map fst m) \<Longrightarrow> map_of m k = Some v \<Longrightarrow> (\<And>k' v'. k' \<noteq> k \<Longrightarrow> g k' v' = f k' v')
   \<Longrightarrow> sum_alist g m = sum_alist f m + (g k v - f k v)"
proof (induction m)
  case (Cons p m)
  obtain k' v' where p: "p = (k', v')" by fastforce
  show ?case
  proof (cases "k' = k")
    case True
    then have "sum_alist g m = sum_alist f m"
      using Cons p by (intro sum_alist_cong) (force simp: image_iff)
    then show ?thesis using True Cons p by simp
  next
    case False
    then show ?thesis using Cons p by simp
  qed
qed simp

lemma equity_Refund:
  assumes "im_inv a"
  shows "equity (fst (im_Refund a b m why k)) ref = equity a ref"
proof -
  obtain a' e where eq: "im_Refund a b m why k = (a', e)" by fastforce
  then show ?thesis
  proof (cases rule: im_Refund_cases)
    case (refund t bal c)
    have dist: "distinct (map fst (recorded a))" using assms by (simp add: im_inv_def inv_ids_def)
    have "settledNet a' ref = settledNet a ref - (if tx_BillingRef t = ref then amt_val m else 0)"
      unfolding settledNet_def
      by (subst sum_alist_point [where f = "txNet (refundedSoFar a) ref" and k = b and v = t])
        (use refund dist in \<open>simp_all add: txNet_def refundedTx_def refundedSoFar_def\<close>)
    moreover have "balanceOf a' ref = balanceOf a ref + (if tx_BillingRef t = ref then amt_val m else 0)"
      using refund by (auto simp: balanceOf_def refundedTx_def amt_val_def)
    ultimately show ?thesis using eq by (simp add: equity_def)
  qed (use eq in simp_all)
qed

lemma equity_Credit:
  "equity (fst (im_Credit a r m k)) ref = equity a ref + creditedBy a (OpCredit r m k) ref"
proof -
  obtain a' e where eq: "im_Credit a r m k = (a', e)" by fastforce
  then show ?thesis
  proof (cases rule: im_Credit_cases)
    case (credit bal)
    have "settledNet a' ref = settledNet a ref"
      by (rule settledNet_cong) (use credit(6) in simp_all)
    moreover have "balanceOf a' ref = balanceOf a ref + (if r = ref then amt_val m else 0)"
      using credit(3,5,6) by (auto simp: balanceOf_def amt_val_def split: option.splits)
    ultimately show ?thesis using eq credit by (simp add: equity_def)
  qed (use eq in simp_all)
qed

lemma equity_exec:
  assumes "im_inv a" "op_ok a oper"
  shows "equity (im_exec a oper) ref = equity a ref + creditedBy a oper ref"
proof (cases oper)
  case (OpEnsure r)
  let ?a = "fst (im_EnsureAgentAccount a r)"
  have "settledNet ?a ref = settledNet a ref"
    by (rule settledNet_cong) (simp_all add: im_EnsureAgentAccount_def split: option.splits)
  moreover have "balanceOf ?a ref = balanceOf a ref"
    by (auto simp: im_EnsureAgentAccount_def balanceOf_def amt_val_def split: option.splits)
  ultimately show ?thesis using OpEnsure by (simp add: equity_def)
next
  case (OpAuthorize req)
  obtain a' x where eq: "im_Authorize a req = (a', x)" by fastforce
  then have "balances a' = balances a \<and> recorded a' = recorded a \<and> refunded a' = refunded a"
    by (cases rule: im_Authorize_cases) (auto simp: held_def)
  then show ?thesis using OpAuthorize eq equity_cong [of a' a ref] by simp
next
  case (OpRelease b k)
  obtain a' e where eq: "im_Release a b k = (a', e)" by fastforce
  then have "balances a' = balances a \<and> recorded a' = recorded a \<and> refunded a' = refunded a"
    by (cases rule: im_Release_cases) (auto simp: released_def)
  then show ?thesis using OpRelease eq equity_cong [of a' a ref] by simp
qed (use assms in \<open>simp_all add: equity_Record equity_Refund equity_Credit\<close>)

section \<open>Holds persist unchanged until they are resolved\<close>

text \<open>Every operation but a fresh hold leaves the counter alone, forgets no credit key and
  at most removes pending holds.\<close>

definition frame :: "ledger \<Rightarrow> ledger \<Rightarrow> bool" where
  "frame a a' \<longleftrightarrow> idPrefix a' = idPrefix a \<and> nextIdx a' = nextIdx a \<and> creditSeen a \<subseteq> creditSeen a' \<and>
     (\<forall>b. map_of (reserved a') b \<in> {None, map_of (reserved a) b})"

lemma im_Record_frame: "im_Record a b q k = (a', e) \<Longrightarrow> frame a a'"
  by (erule im_Record_cases) (simp_all add: frame_def settled_def)

lemma im_Release_frame: "im_Release a b k = (a', e) \<Longrightarrow> frame a a'"
  by (erule im_Release_cases) (simp_all add: frame_def released_def)

lemma im_Refund_frame: "im_Refund a b m w k = (a', e) \<Longrightarrow> frame a a'"
  by (erule im_Refund_cases) (simp_all add: frame_def refundedTx_def)

lemma im_Credit_frame: "im_Credit a r m k = (a', e) \<Longrightarrow> frame a a'"
  by (erule im_Credit_cases) (auto simp: frame_def)

lemma im_EnsureAgentAccount_frame: "im_EnsureAgentAccount a r = (a', e) \<Longrightarrow> frame a a'"
  by (auto simp: frame_def im_EnsureAgentAccount_def split: option.splits if_splits)

lemma im_Authorize_frame:
  "im_Authorize a req = (a', x) \<Longrightarrow> frame a a' \<or> (\<exists>c. a' = held a req c)"
  by (erule im_Authorize_cases) (auto simp: frame_def)

lemma im_exec_frame:
  "frame a (im_exec a oper) \<or> (\<exists>req c. oper = OpAuthorize req \<and> im_exec a oper = held a req c)"
proof (cases oper)
  case (OpAuthorize req)
  then show ?thesis using im_Authorize_frame [of a req] by (metis im_exec.simps(3) prod.collapse)
next
  case (OpEnsure r)
  then show ?thesis using im_EnsureAgentAccount_frame [of a r] by (metis im_exec.simps(1) prod.collapse)
next
  case (OpCredit r m k)
  then show ?thesis using im_Credit_frame [of a r m k] by (metis im_exec.simps(2) prod.collapse)
next
  case (OpRecord b q k)
  then show ?thesis using im_Record_frame [of a b q k] by (metis im_exec.simps(4) prod.collapse)
next
  case (OpRelease b k)
  then show ?thesis using im_Release_frame [of a b k] by (metis im_exec.simps(5) prod.collapse)
next
  case (OpRefund b m w k)
  then show ?thesis using im_Refund_frame [of a b m w k] by (metis im_exec.simps(6) prod.collapse)
qed

lemma im_exec_hold:
  assumes "inv_ids a" "issuedID a b" "op_ok a oper"
  shows "issuedID (im_exec a oper) b \<and> map_of (reserved (im_exec a oper)) b \<in> {None, map_of (reserved a) b}"
  using im_exec_frame [of a oper]
proof
  assume f: "frame a (im_exec a oper)"
  then have "issuedID (im_exec a oper) = issuedID a" by (intro issuedID_cong) (simp_all add: frame_def)
  then show ?thesis using assms f by (simp add: frame_def)
next
  assume "\<exists>req c. oper = OpAuthorize req \<and> im_exec a oper = held a req c"
  then obtain req c where eq: "oper = OpAuthorize req" "im_exec a oper = held a req c" by blast
  then have n: "nextIdx a + 1 < 2 ^ 64" using assms(3) by (simp add: im_ok_def)
  have "b \<noteq> freshID a" using assms(2) freshID_fresh(1) [OF assms(1) n] by blast
  then show ?thesis using held_ids(2) [OF assms(1) n assms(2)] eq(2) by (simp add: held_def)
qed

lemma im_reach_hold:
  assumes "im_reach a b" "im_inv a" "map_of (reserved a) c = Some r"
  shows "issuedID b c \<and> map_of (reserved b) c \<in> {None, Some r}"
  using assms
proof (induction rule: im_reach.induct)
  case (start a)
  then show ?case using inv_ids_issued by (auto simp: im_inv_def)
next
  case (step a b oper)
  then have "inv_ids b" using im_reach_inv [OF step(1)] by (simp add: im_inv_def)
  then show ?case using step im_exec_hold [of b c oper] by auto
qed

lemma im_exec_creditSeen: "k \<in> creditSeen a \<Longrightarrow> k \<in> creditSeen (im_exec a oper)"
  using im_exec_frame [of a oper] by (auto simp: frame_def held_def)

lemma im_reach_creditSeen: "im_reach a b \<Longrightarrow> k \<in> creditSeen a \<Longrightarrow> k \<in> creditSeen b"
  by (induction rule: im_reach.induct) (simp_all add: im_exec_creditSeen)

lemma totalReserved_nonneg: "im_inv a \<Longrightarrow> 0 \<le> totalReserved a ref cur"
proof -
  assume *: "im_inv a"
  then have "charge_ok a (res_BillingRef r) (EstAmt r)" if "(b, r) \<in> set (reserved a)" for b r
    using that by (auto simp: im_inv_def inv_ids_def inv_money_def)
  then show ?thesis unfolding totalReserved_def
    by (intro sum_alist_nonneg) (fastforce simp: charge_ok_def amt_val_def)
qed

lemma run_equity:
  "im_inv a \<Longrightarrow> run_ok a opers \<Longrightarrow> equity (im_run a opers) ref = equity a ref + creditsOver a opers ref"
  by (induction opers arbitrary: a) (simp_all add: equity_exec im_exec_inv)

lemma approved_inject: "approved a = approved b \<longleftrightarrow> a = b"
  by (metis approved_sel(1))

lemma approved_neq_denied: "approved a \<noteq> denied w" "denied w \<noteq> approved a"
  by (metis approved_sel(2) denied_sel(1))+

lemma boundKey_collides:
  assumes "maxRawKeyLen < length k"
  shows "boundKey (''h:'' @ sha256_hex k) = boundKey k" "''h:'' @ sha256_hex k \<noteq> k"
proof -
  show "boundKey (''h:'' @ sha256_hex k) = boundKey k"
    using assms by (simp add: boundKey_def maxRawKeyLen_def)
  show "''h:'' @ sha256_hex k \<noteq> k"
  proof
    assume "''h:'' @ sha256_hex k = k"
    then have "length k = length (''h:'' @ sha256_hex k)" by simp
    then show False using assms by (simp add: maxRawKeyLen_def)
  qed
qed

lemma im_Release_pending:
  assumes "im_inv a" "map_of (reserved a) b = Some r"
  shows "im_Release a b k = (markOpDone b opRelease k (released a b r), None)"
  using assms(2) pending_not_done [OF assms]
  by (simp add: im_Release_def released_def split: option.splits)

lemma im_Record_pending:
  assumes "im_inv a" "map_of (reserved a) b = Some r" "balances a (res_BillingRef r) = Some bal"
  shows "im_Record a b q k = (markOpDone b opRecord k (settled a b r bal), None)"
proof -
  obtain v w where "Value bal = Some v" "Value (EstAmt r) = Some w"
    using no_nil_hold [OF assms(1,2)] assms(3) by auto
  then show ?thesis using assms(2,3) pending_not_done [OF assms(1,2)]
    by (simp add: im_Record_def settled_def amt_val_def)
qed

lemma no_nil_check:
  assumes "im_inv a" "balances a ref = Some bal"
  shows "checkCurrencyAndBalance a req bal c \<noteq> Inl e"
    "\<not> list_ex (\<lambda>(_, r). holdsFor ref' cur r \<and> Value (EstAmt r) = None) (reserved a)"
proof -
  have "charge_ok a (res_BillingRef r) (EstAmt r)" if "(b, r) \<in> set (reserved a)" for b r
    using that assms(1) by (auto simp: im_inv_def inv_ids_def inv_money_def)
  then show *: "\<not> list_ex (\<lambda>(_, r). holdsFor ref' cur r \<and> Value (EstAmt r) = None) (reserved a)" for ref' cur
    by (fastforce simp: list_ex_iff charge_ok_def)
  obtain v where "Value bal = Some v" using assms unfolding im_inv_def inv_money_def by blast
  then show "checkCurrencyAndBalance a req bal c \<noteq> Inl e"
    using * [of "BillingRef req"] by (simp add: checkCurrencyAndBalance_def)
qed

end
