(* ===== verification/InMemory_Properties.thy ===== *)
theory InMemory_Properties
  imports InMemory_Laws
begin

text \<open>
  The properties of the in-memory ledger: never overdrawn, money conserved, idempotent
  Authorize, Release as the inverse of Authorize, the exact approval condition, single
  charging, bounded refunds, first-credit-wins, absence of panics, and the key collision
  of \<open>boundKey\<close>. A one-account ledger serves as the concrete instance.
\<close>

section \<open>A small ledger to evaluate on\<close>

definition ex_opts :: InMemoryOptions where
  "ex_opts = \<lparr>opt_Balances = [(''acct'', \<lparr>Value = Some 10, Currency = ''USD''\<rparr>)],
              opt_Quotas = [(''acct'', 5)], opt_IDPrefix = []\<rparr>"

definition ex_ledger :: ledger where
  "ex_ledger = \<lparr>balances = [''acct'' \<mapsto> \<lparr>Value = Some 10, Currency = ''USD''\<rparr>],
     quotas = [''acct'' \<mapsto> 5], reserved = [], recorded = [], refunded = Map.empty,
     refundLog = Map.empty, authSeen = Map.empty, opSeen = {}, creditSeen = {}, nextIdx = 0,
     idPrefix = ''bill-''\<rparr>"

definition ex_req :: AuthorizeRequest where
  "ex_req = \<lparr>TenantID = ''t'', BillingRef = ''acct'',
     UnitCost = \<lparr>Value = Some 3, Currency = ''USD''\<rparr>, Quantity = 2, Unit = ''pages'',
     IdempotencyKey = ''k'', ResourceOwnerID = ''o'', FeeRateBps = 0\<rparr>"

definition ex_id :: string where "ex_id = ''bill-000001''"

definition ex_res :: reservation where
  "ex_res = \<lparr>res_BillingRef = ''acct'', EstAmt = \<lparr>Value = Some 6, Currency = ''USD''\<rparr>,
     EstQty = 2, AuthKey = ''k''\<rparr>"

definition ex_key :: string where "ex_key = ''acct'' @ [NUL] @ ''k''"

definition ex_held :: ledger where
  "ex_held = ex_ledger\<lparr>quotas := [''acct'' \<mapsto> 3], reserved := [(ex_id, ex_res)],
     authSeen := [ex_key \<mapsto> ex_id], nextIdx := 1\<rparr>"

lemma ex_new: "NewInMemoryAdapter ex_opts = Inr ex_ledger"
  by (simp add: NewInMemoryAdapter_def ex_opts_def ex_ledger_def)

lemma ex_seeds:
  "\<forall>(ref, m) \<in> set (opt_Balances ex_opts). 0 \<le> amt_val m"
  "\<forall>(ref, q) \<in> set (opt_Quotas ex_opts). int64 q"
  by (simp_all add: ex_opts_def amt_val_def int64_def min_int64_def max_int64_def)

lemma ex_inv: "im_inv ex_ledger"
  by (rule NewInMemoryAdapter_inv [OF ex_new ex_seeds])

lemma ex_ok: "im_ok ex_ledger ex_req"
  by (simp add: im_ok_def ex_ledger_def ex_req_def)

lemma ex_decimal: "decimal06 (Suc 0) = ''000001''"
  by (simp add: decimal06_def pad_left_def decimal.simps digit_char_def eval_nat_numeral) code_simp

lemma ex_authMapKey: "authMapKey ''acct'' ''k'' = ex_key"
  by (simp add: authMapKey_def seenKey_def boundKey_def maxRawKeyLen_def ex_key_def)

lemma ex_authorize: "im_Authorize ex_ledger ex_req = (ex_held, Inr (approved ex_id))"
proof -
  have w: "wrap64 3 = 3" by (simp add: int64_def min_int64_def max_int64_def)
  have "consumeQuota ex_ledger ex_req = (ex_ledger\<lparr>quotas := [''acct'' \<mapsto> 3]\<rparr>, None)"
    by (simp add: consumeQuota_def ex_ledger_def ex_req_def w)
  moreover have "checkCurrencyAndBalance ex_ledger ex_req \<lparr>Value = Some 10, Currency = ''USD''\<rparr> 6 = Inr None"
    by (simp add: checkCurrencyAndBalance_def ex_ledger_def ex_req_def totalReserved_def)
  ultimately show ?thesis
    by (simp add: im_Authorize_def totalCharge_def amt_val_def reserve_def Let_def ex_authMapKey
        ex_decimal ex_ledger_def ex_req_def ex_held_def ex_res_def ex_id_def)
qed

lemma ex_reach: "im_reach ex_ledger ex_held"
proof -
  have "im_reach ex_ledger (im_exec ex_ledger (OpAuthorize ex_req))"
    by (rule im_reach.step [OF im_reach.start]) (simp add: ex_ok)
  then show ?thesis by (simp add: ex_authorize)
qed

lemma ex_held_inv: "im_inv ex_held"
  by (rule im_reach_inv [OF ex_reach ex_inv])

lemma ex_pending: "map_of (reserved ex_held) ex_id = Some ex_res"
  by (simp add: ex_held_def)

section \<open>Statements\<close>



text \<open>C2. Conservation: over any sequence of operations what an account owns plus what it has
  paid and not been given back changes by exactly the credits granted to it under new keys.
  Holds, releases, settlements and refunds move money and neither create nor destroy it.\<close>

theorem im_conservation:
  assumes "NewInMemoryAdapter opts = Inr a"
    "\<forall>(ref, m) \<in> set (opt_Balances opts). 0 \<le> amt_val m"
    "\<forall>(ref, q) \<in> set (opt_Quotas opts). int64 q"
    "run_ok a opers"
  shows "equity (im_run a opers) ref = balanceOf a ref + creditsOver a opers ref"
proof -
  have "settledNet a ref = 0"
    using assms(1) by (auto simp: NewInMemoryAdapter_def settledNet_def split: if_splits)
  then show ?thesis
    using run_equity [OF NewInMemoryAdapter_inv [OF assms(1-3)] assms(4)] by (simp add: equity_def)
qed

theorem im_conservation_witness:
  "equity (im_run ex_ledger [OpAuthorize ex_req, OpRecord ex_id 2 ''r'', OpCredit ''acct'' \<lparr>Value = Some 4, Currency = ''USD''\<rparr> ''c'']) ''acct''
     = balanceOf ex_ledger ''acct'' + creditsOver ex_ledger
         [OpAuthorize ex_req, OpRecord ex_id 2 ''r'', OpCredit ''acct'' \<lparr>Value = Some 4, Currency = ''USD''\<rparr> ''c''] ''acct''"
  by (rule im_conservation [OF ex_new ex_seeds]) (simp add: ex_ok)

text \<open>C3. Authorize is idempotent while the hold is live: once a keyed request is approved, in
  every later state in which its hold is still pending, a repeat under the same account and key
  returns the same billing id, whatever price or quantity it names, and changes nothing.\<close>

theorem im_Authorize_idempotent:
  assumes "im_inv a" "im_ok a req" "im_Authorize a req = (a', Inr r)" "Approved r"
    "IdempotencyKey req \<noteq> []" "im_reach a' b" "BillingID r \<in> im_live b"
    "BillingRef req' = BillingRef req" "IdempotencyKey req' = IdempotencyKey req"
  shows "im_Authorize b req' = (b, Inr (approved (BillingID r)))"
proof -
  let ?K = "authMapKey (BillingRef req) (IdempotencyKey req)"
  have inv': "im_inv a'" using im.authorize_inv [OF assms(1,2)] assms(3) by simp
  have "authSeen a' ?K = Some (BillingID r)"
    using assms(3) by (cases rule: im_Authorize_cases) (use assms(4,5) in \<open>auto simp: held_def\<close>)
  then obtain rs where rs: "map_of (reserved a') (BillingID r) = Some rs" "AuthKey rs \<noteq> []"
    "?K = authMapKey (res_BillingRef rs) (AuthKey rs)"
    using inv' unfolding im_inv_def inv_auth_def by blast
  have "map_of (reserved b) (BillingID r) = Some rs"
    using im_reach_hold [OF assms(6) inv' rs(1)] assms(7) by (auto simp: im_live_iff)
  moreover have "im_inv b" using im_reach_inv [OF assms(6) inv'] .
  ultimately have "authSeen b ?K = Some (BillingID r)"
    using rs unfolding im_inv_def inv_auth_def by blast
  then show ?thesis using assms(5,8,9) by (simp add: im_Authorize_def)
qed

theorem im_Authorize_idempotent_witness:
  "im_Authorize ex_held (ex_req\<lparr>Quantity := 4\<rparr>) = (ex_held, Inr (approved ex_id))"
  using im_Authorize_idempotent [OF ex_inv ex_ok ex_authorize _ _ im_reach.start, of "ex_req\<lparr>Quantity := 4\<rparr>"]
  by (simp add: ex_req_def im_live_def ex_held_def)

text \<open>C4. Release undoes Authorize: releasing a hold that was just placed succeeds and restores
  the balances, the quotas, the pending holds and the live-hold index, so the same key can
  authorize again.\<close>

theorem im_Release_undoes_Authorize:
  assumes "im_inv a" "im_ok a req" "im_Authorize a req = (a', Inr r)" "Approved r"
    "BillingID r \<notin> im_live a" "im_Release a' (BillingID r) k = (a'', e)"
  shows "e = None \<and> balances a'' = balances a \<and> quotas a'' = quotas a \<and>
    map_of (reserved a'') = map_of (reserved a) \<and> authSeen a'' = authSeen a"
  using assms(3)
proof (cases rule: im_Authorize_cases)
  case (replay b)
  then have "b \<in> im_live a"
    using assms(1) unfolding im_inv_def inv_auth_def im_live_iff by blast
  then show ?thesis using replay assms(5) by simp
next
  case (hold bal v)
  let ?r = "\<lparr>res_BillingRef = BillingRef req,
          EstAmt = \<lparr>Value = Some (v * of_int (Quantity req)), Currency = Currency (UnitCost req)\<rparr>,
          EstQty = Quantity req, AuthKey = IdempotencyKey req\<rparr>"
  have id: "BillingID r = freshID a" using hold by simp
  have inv': "im_inv a'" using im.authorize_inv [OF assms(1,2)] assms(3) by simp
  have pend: "map_of (reserved a') (freshID a) = Some ?r" using hold by (simp add: held_def)
  have fresh: "map_of (reserved a) (freshID a) = None"
    using assms(5) id by (simp add: im_live_iff)
  have a'': "a'' = markOpDone (freshID a) opRelease k (released a' (freshID a) ?r)" "e = None"
    using assms(6) im_Release_pending [OF inv' pend, of k] id by simp_all
  have "quotas a'' = quotas a"
  proof (cases "quotas a (BillingRef req)")
    case None
    then show ?thesis using a'' hold by (simp add: released_def held_def)
  next
    case (Some q)
    then have "int64 q" "Quantity req \<le> q" using assms(1) hold
      unfolding im_inv_def inv_quota_def by blast+
    then have "int64 (q - Quantity req)"
      using hold by (auto simp: int64_def min_int64_def)
    then have "quotas a' = (quotas a)(BillingRef req \<mapsto> q - Quantity req)"
      using hold(7) Some by (simp add: held_def)
    then show ?thesis using a''(1) Some \<open>int64 q\<close> by (simp add: released_def fun_upd_idem)
  qed
  moreover have "authSeen a'' = authSeen a"
    using a''(1) hold(4,7) by (auto simp: released_def held_def freeAuth_def fun_eq_iff)
  moreover have "map_of (reserved a'') = map_of (reserved a)"
    using a''(1) hold(7) fresh by (simp add: released_def held_def fun_upd_idem)
  moreover have "balances a'' = balances a" using a''(1) hold(7) by (simp add: released_def held_def)
  ultimately show ?thesis using a''(2) by simp
qed (use assms(4) in auto)

theorem im_Release_undoes_Authorize_witness:
  "snd (im_Release ex_held ex_id ''x'') = None \<and>
   quotas (fst (im_Release ex_held ex_id ''x'')) = quotas ex_ledger"
  using im_Release_undoes_Authorize [OF ex_inv ex_ok ex_authorize, of "''x''"
      "fst (im_Release ex_held ex_id ''x'')" "snd (im_Release ex_held ex_id ''x'')"]
  by (simp add: im_live_def ex_ledger_def)

lemma im_Authorize_approves_iff_aux:
  assumes "im_inv a" "Value (UnitCost req) = Some v"
    "IdempotencyKey req = [] \<or> authSeen a (authMapKey (BillingRef req) (IdempotencyKey req)) = None"
  shows "snd (im_Authorize a req) = Inr (approved (freshID a)) \<longleftrightarrow>
    (\<exists>bal. balances a (BillingRef req) = Some bal \<and> 0 < Quantity req \<and>
       (v * of_int (Quantity req) = 0 \<or>
          Currency bal = Currency (UnitCost req) \<and>
          v * of_int (Quantity req) \<le> amt_val bal - totalReserved a (BillingRef req) (Currency bal)) \<and>
       (\<forall>q. quotas a (BillingRef req) = Some q \<longrightarrow> Quantity req \<le> q))"
    (is "?L \<longleftrightarrow> ?R")
proof
  assume ?L
  then obtain a' where eq: "im_Authorize a req = (a', Inr (approved (freshID a)))"
    by (metis prod.collapse)
  then show ?R
  proof (cases rule: im_Authorize_cases)
    case (hold bal v')
    then show ?R using assms(2) by (force simp: amt_val_def)
  qed (use assms(3) in \<open>auto simp: approved_neq_denied\<close>)
next
  assume ?R
  then obtain bal where R: "balances a (BillingRef req) = Some bal" "0 < Quantity req"
    "v * of_int (Quantity req) = 0 \<or> Currency bal = Currency (UnitCost req) \<and>
       v * of_int (Quantity req) \<le> amt_val bal - totalReserved a (BillingRef req) (Currency bal)"
    "\<forall>q. quotas a (BillingRef req) = Some q \<longrightarrow> Quantity req \<le> q" by blast
  obtain bv where bv: "Value bal = Some bv"
    using assms(1) R(1) unfolding im_inv_def inv_money_def by blast
  note no_nil_check(2) [OF assms(1) R(1), of "BillingRef req" "Currency bal"]
  then have "v * of_int (Quantity req) \<noteq> 0 \<longrightarrow>
      checkCurrencyAndBalance a req bal (v * of_int (Quantity req)) = Inr None"
    using R(3) bv by (auto simp: checkCurrencyAndBalance_def amt_val_def)
  moreover obtain a1 where "consumeQuota a req = (a1, None)"
    using R(4) by (cases "quotas a (BillingRef req)") (auto simp: consumeQuota_def)
  ultimately show ?L using assms(2,3) R(1,2) consumeQuota_reserve
    by (auto simp: im_Authorize_def totalCharge_def amt_val_def Let_def)
qed

text \<open>C5. Authorize approves a new hold exactly when the account exists, the quantity is positive,
  a non-zero charge is in the account's currency and within the available balance (balance minus
  pending holds), and the unit quota covers the quantity.\<close>

theorem im_Authorize_approves_iff:
  assumes "im_inv a" "Value (UnitCost req) = Some v"
    "IdempotencyKey req = [] \<or> authSeen a (authMapKey (BillingRef req) (IdempotencyKey req)) = None"
  shows "snd (im_Authorize a req) = Inr (approved (freshID a)) \<longleftrightarrow>
    (\<exists>bal. balances a (BillingRef req) = Some bal \<and> 0 < Quantity req \<and>
       (v * of_int (Quantity req) = 0 \<or>
          Currency bal = Currency (UnitCost req) \<and>
          v * of_int (Quantity req) \<le> amt_val bal - totalReserved a (BillingRef req) (Currency bal)) \<and>
       (\<forall>q. quotas a (BillingRef req) = Some q \<longrightarrow> Quantity req \<le> q))"
  using im_Authorize_approves_iff_aux [OF assms] .

theorem im_Authorize_approves_iff_witness:
  "snd (im_Authorize ex_ledger (ex_req\<lparr>Quantity := 4\<rparr>)) \<noteq> Inr (approved (freshID ex_ledger))"
  using im_Authorize_approves_iff [OF ex_inv, of "ex_req\<lparr>Quantity := 4\<rparr>" 3]
  by (simp add: ex_ledger_def ex_req_def amt_val_def totalReserved_def)

text \<open>C6. A hold is charged exactly once: recording a pending hold deducts the held amount, removes
  the hold and keeps the charge for refunds; recording the same id again is a no-op success under
  the same key and \<open>ErrUnknownBillingID\<close> without a key, and in both cases charges nothing.\<close>

theorem im_Record_once:
  assumes "im_inv a" "map_of (reserved a) b = Some r" "im_Record a b q k = (a', e)"
  shows "e = None \<and> balanceOf a' (res_BillingRef r) = balanceOf a (res_BillingRef r) - amt_val (EstAmt r) \<and>
    b \<notin> im_live a' \<and> map_option (amt_val \<circ> Amt) (map_of (recorded a') b) = Some (amt_val (EstAmt r)) \<and>
    im_Record a' b q' k = (a', if k = [] then Some ErrUnknownBillingID else None)"
proof -
  obtain bal v w where bal: "balances a (res_BillingRef r) = Some bal" "Value bal = Some v"
    "Value (EstAmt r) = Some w" using no_nil_hold [OF assms(1,2)] by blast
  have a': "a' = markOpDone b opRecord k (settled a b r bal)" "e = None"
    using assms(3) im_Record_pending [OF assms(1,2) bal(1), of q k] by simp_all
  have "map_of (reserved a') b = None" using a' by (simp add: settled_def)
  moreover have "opAlreadyDone a' b opRecord k = (k \<noteq> [])"
    using a' by (simp add: opAlreadyDone_def markOpDone_def)
  ultimately have "im_Record a' b q' k = (a', if k = [] then Some ErrUnknownBillingID else None)"
    by (simp add: im_Record_def)
  moreover have "balanceOf a' (res_BillingRef r) = balanceOf a (res_BillingRef r) - amt_val (EstAmt r)"
    using a' bal by (simp add: balanceOf_def settled_def) (simp add: amt_val_def)
  moreover have "map_option (amt_val \<circ> Amt) (map_of (recorded a') b) = Some (amt_val (EstAmt r))"
    using a' by (simp add: settled_def) (simp add: amt_val_def)
  ultimately show ?thesis
    using a' \<open>map_of (reserved a') b = None\<close> by (simp add: im_live_iff)
qed

theorem im_Record_once_witness:
  "balanceOf (fst (im_Record ex_held ex_id 2 ''r'')) ''acct'' = 4"
proof -
  have "balanceOf ex_held ''acct'' = 10" "amt_val (EstAmt ex_res) = 6" "res_BillingRef ex_res = ''acct''"
    by (simp_all add: balanceOf_def ex_held_def ex_ledger_def ex_res_def amt_val_def)
  then show ?thesis
    using im_Record_once [OF ex_held_inv ex_pending prod.collapse [symmetric], of 2 "''r''"] by simp
qed

text \<open>C7. Refunds stay within the charge and the audit trail adds up: in every reachable state, for
  every settled charge, the memos logged for it sum to the amount refunded so far, which lies
  between zero and the recorded amount.\<close>

theorem im_refunds_bounded:
  assumes "im_inv a0" "im_reach a0 a" "map_of (recorded a) b = Some t"
  shows "0 \<le> refundedSoFar a b \<and> refundedSoFar a b \<le> amt_val (Amt t) \<and>
    sum_list (map (\<lambda>e. amt_val (re_Amt e)) (im_RefundLog a b)) = refundedSoFar a b"
proof -
  have inv: "im_inv a" using im_reach_inv [OF assms(2,1)] .
  then have "refundedSoFar a b \<le> amt_val (Amt t)"
    using assms(3) unfolding im_inv_def inv_money_def by blast
  moreover have "inv_refunds a" using inv by (simp add: im_inv_def)
  moreover from this have "refundedSoFar a b = sum_list (map (\<lambda>e. amt_val (re_Amt e)) (im_RefundLog a b))"
    unfolding inv_refunds_def by blast
  ultimately show ?thesis using refundedSoFar_nonneg [of a b] by simp
qed

theorem im_refunds_bounded_witness:
  "refundedSoFar (im_run ex_held [OpRecord ex_id 2 ''r'', OpRefund ex_id \<lparr>Value = Some 5, Currency = ''USD''\<rparr> ''dispute'' ''x'',
       OpRefund ex_id \<lparr>Value = Some 5, Currency = ''USD''\<rparr> ''dispute'' ''y'']) ex_id \<le> 6"
proof -
  let ?s = "im_run ex_held [OpRecord ex_id 2 ''r'', OpRefund ex_id \<lparr>Value = Some 5, Currency = ''USD''\<rparr> ''dispute'' ''x'',
       OpRefund ex_id \<lparr>Value = Some 5, Currency = ''USD''\<rparr> ''dispute'' ''y'']"
  let ?t = "\<lparr>tx_BillingRef = ''acct'', Amt = \<lparr>Value = Some 6, Currency = ''USD''\<rparr>\<rparr>"
  have "im_Record ex_held ex_id 2 ''r'' =
      (markOpDone ex_id opRecord ''r'' (settled ex_held ex_id ex_res \<lparr>Value = Some 10, Currency = ''USD''\<rparr>), None)"
    by (rule im_Record_pending [OF ex_held_inv ex_pending])
      (simp add: ex_held_def ex_ledger_def ex_res_def)
  then have rec: "map_of (recorded (im_exec ex_held (OpRecord ex_id 2 ''r''))) ex_id = Some ?t"
    by (simp add: settled_def ex_res_def amt_val_def)
  have keep: "map_of (recorded (fst (im_Refund a b m w k))) c = map_of (recorded a) c" for a b m w k c
  proof -
    obtain a' e where eq: "im_Refund a b m w k = (a', e)" by fastforce
    then have "recorded a' = recorded a" by (cases rule: im_Refund_cases) (simp_all add: refundedTx_def)
    then show ?thesis using eq by simp
  qed
  have "map_of (recorded ?s) ex_id = Some ?t" using rec by (simp add: keep)
  moreover have "im_reach ex_held ?s" by (simp, intro im_reach.step [where oper = "OpRefund _ _ _ _", simplified]
        im_reach.step [where oper = "OpRecord _ _ _", simplified] im_reach.start)
  ultimately show ?thesis using im_refunds_bounded [OF ex_held_inv, of ?s ex_id ?t] by (simp add: amt_val_def)
qed

text \<open>The first credit under a key wins: after a credit succeeded, every later credit under the
  same key, whatever account and amount it names, is a no-op success as long as its arguments pass
  the gate, so an agent is never credited twice.\<close>

theorem im_Credit_first_wins:
  assumes "im_Credit a ref m k = (a', None)" "im_reach a' b"
    "validateCreditArgs ref' m' k DemoCurrency = None"
  shows "im_Credit b ref' m' k = (b, None)"
proof -
  have "boundKey k \<in> creditSeen a'"
    using assms(1) by (cases rule: im_Credit_cases) simp_all
  then have "boundKey k \<in> creditSeen b" by (rule im_reach_creditSeen [OF assms(2)])
  then show ?thesis using assms(3) by (simp add: im_Credit_def)
qed

theorem im_Credit_first_wins_witness:
  "im_Credit (fst (im_Credit ex_ledger ''acct'' \<lparr>Value = Some 5, Currency = ''USD''\<rparr> (WelcomeCreditKey ''acct'')))
     ''acct'' \<lparr>Value = Some 7, Currency = ''USD''\<rparr> (WelcomeCreditKey ''acct'')
   = (fst (im_Credit ex_ledger ''acct'' \<lparr>Value = Some 5, Currency = ''USD''\<rparr> (WelcomeCreditKey ''acct'')), None)"
proof -
  have v: "validateCreditArgs ''acct'' \<lparr>Value = Some x, Currency = ''USD''\<rparr> (WelcomeCreditKey ''acct'') DemoCurrency = None"
    if "0 < x" for x :: rat
    using that WelcomeCreditKey_not_reserved
    by (auto simp: validateCreditArgs_None DemoCurrency_def) (simp_all add: WelcomeCreditKey_def)
  then have "snd (im_Credit ex_ledger ''acct'' \<lparr>Value = Some 5, Currency = ''USD''\<rparr> (WelcomeCreditKey ''acct'')) = None"
    by (simp add: im_Credit_def ex_ledger_def)
  then have "im_Credit ex_ledger ''acct'' \<lparr>Value = Some 5, Currency = ''USD''\<rparr> (WelcomeCreditKey ''acct'') =
      (fst (im_Credit ex_ledger ''acct'' \<lparr>Value = Some 5, Currency = ''USD''\<rparr> (WelcomeCreditKey ''acct'')), None)"
    by (simp add: prod_eq_iff)
  then show ?thesis by (rule im_Credit_first_wins [OF _ im_reach.start]) (simp add: v)
qed

text \<open>No nil dereference: in a state satisfying the invariant, Authorize with a priced request,
  Record, Release, Refund and Credit never panic.\<close>

theorem im_no_panic:
  assumes "im_inv a" "Value (UnitCost req) \<noteq> None"
  shows "snd (im_Authorize a req) \<noteq> Inl Panic \<and> snd (im_Record a b q k) \<noteq> Some Panic \<and>
    snd (im_Release a b k) \<noteq> Some Panic \<and> snd (im_Refund a b m w k) \<noteq> Some Panic \<and>
    snd (im_Credit a ref m k) \<noteq> Some Panic"
proof -
  have bal: "\<exists>v. Value bal = Some v" if "balances a ref = Some bal" for ref bal
    using assms(1) that unfolding im_inv_def inv_money_def by blast
  obtain a1 x where eq: "im_Authorize a req = (a1, x)" by fastforce
  then have "snd (im_Authorize a req) \<noteq> Inl Panic"
  proof (cases rule: im_Authorize_cases)
    case panic
    then show ?thesis using assms no_nil_check(1) by blast
  qed (use eq in simp_all)
  moreover have "snd (im_Record a b q k) \<noteq> Some Panic"
  proof (cases "map_of (reserved a) b")
    case None
    then show ?thesis by (simp add: im_Record_def)
  next
    case (Some r)
    then obtain bal where "balances a (res_BillingRef r) = Some bal" using no_nil_hold [OF assms(1)] by blast
    then show ?thesis using im_Record_pending [OF assms(1) Some] by simp
  qed
  moreover have "snd (im_Release a b k) \<noteq> Some Panic"
    by (simp add: im_Release_def Let_def split: option.splits)
  moreover have "snd (im_Refund a b m w k) \<noteq> Some Panic"
  proof (cases "map_of (recorded a) b")
    case None
    then show ?thesis by (simp add: im_Refund_def validateRefund_def split: option.splits)
  next
    case (Some t)
    then have "charge_ok a (tx_BillingRef t) (Amt t)"
      using assms(1) unfolding im_inv_def inv_money_def by blast
    then obtain v bal where "Value (Amt t) = Some v" "balances a (tx_BillingRef t) = Some bal"
      by (auto simp: charge_ok_def acctCur_def)
    then show ?thesis using Some bal [of "tx_BillingRef t" bal]
      by (auto simp: im_Refund_def validateRefund_def split: option.splits)
  qed
  moreover have "snd (im_Credit a ref m k) \<noteq> Some Panic"
  proof (cases "balances a ref")
    case None
    then show ?thesis
      by (auto simp: im_Credit_def Let_def validateCreditArgs_None split: option.splits)
        (auto simp: validateCreditArgs_def split: option.splits if_splits)
  next
    case (Some b)
    then show ?thesis using bal [OF Some]
      by (auto simp: im_Credit_def Let_def validateCreditArgs_None split: option.splits)
        (auto simp: validateCreditArgs_def split: option.splits if_splits)
  qed
  ultimately show ?thesis by blast
qed

theorem im_no_panic_witness:
  "snd (im_Record ex_held ex_id 2 ''r'') \<noteq> Some Panic"
  using im_no_panic [OF ex_held_inv, of ex_req ex_id 2 "''r''"] by (simp add: ex_req_def)

text \<open>Distinct idempotency keys can share one hold: \<open>boundKey\<close> maps a key longer than 256 bytes
  and the 66-byte key \<open>h:<its digest>\<close> to the same stored form, so an Authorize under the second
  key returns the live hold placed under the first instead of placing its own.\<close>

theorem im_boundKey_collision:
  assumes "maxRawKeyLen < length (IdempotencyKey req)" "im_inv a" "im_ok a req"
    "im_Authorize a req = (a', Inr r)" "Approved r"
  shows "let req' = req\<lparr>IdempotencyKey := ''h:'' @ sha256_hex (IdempotencyKey req)\<rparr> in
    IdempotencyKey req' \<noteq> IdempotencyKey req \<and> im_Authorize a' req' = (a', Inr (approved (BillingID r)))"
proof -
  let ?k = "IdempotencyKey req"
  have "authMapKey (BillingRef req) (''h:'' @ sha256_hex ?k) = authMapKey (BillingRef req) ?k"
    using boundKey_collides(1) [OF assms(1)] by (simp add: authMapKey_def)
  moreover have "authSeen a' (authMapKey (BillingRef req) ?k) = Some (BillingID r)"
    using assms(4) by (cases rule: im_Authorize_cases)
      (use assms(1,5) in \<open>auto simp: held_def\<close>)
  ultimately show ?thesis
    using boundKey_collides(2) [OF assms(1)] by (simp add: im_Authorize_def)
qed

theorem im_boundKey_collision_witness:
  "let req = ex_req\<lparr>IdempotencyKey := replicate 300 (CHR ''k'')\<rparr>;
       req' = req\<lparr>IdempotencyKey := ''h:'' @ sha256_hex (replicate 300 (CHR ''k''))\<rparr>;
       a' = fst (im_Authorize ex_ledger req)
   in IdempotencyKey req' \<noteq> IdempotencyKey req \<and>
      im_Authorize a' req' = (a', Inr (approved (freshID ex_ledger)))"
proof -
  let ?req = "ex_req\<lparr>IdempotencyKey := replicate 300 (CHR ''k'')\<rparr>"
  have ok: "im_ok ex_ledger ?req" by (simp add: im_ok_def ex_ledger_def ex_req_def)
  have "snd (im_Authorize ex_ledger ?req) = Inr (approved (freshID ex_ledger))"
    by (subst im_Authorize_approves_iff_aux [OF ex_inv, of _ 3])
      (simp_all add: ex_ledger_def ex_req_def amt_val_def totalReserved_def)
  then have "im_Authorize ex_ledger ?req =
      (fst (im_Authorize ex_ledger ?req), Inr (approved (freshID ex_ledger)))"
    by (metis prod.collapse)
  from im_boundKey_collision [OF _ ex_inv ok this] show ?thesis
    by (simp add: Let_def maxRawKeyLen_def)
qed

end
