(* ===== verification/Money.thy ===== *)
theory Money
  imports Billing_Adapter
begin

text \<open>
  The ledger's money conversion (\<open>exchange/internal/money/money.go\<close>), the single-currency batch
  total (\<open>internal/rampcost/rampcost.go\<close>), the derived item key
  (\<open>internal/transactionkey/transactionkey.go\<close>) and the free-tier adapter
  (\<open>billing/free_adapter.go\<close>). Decimal parsing of wire amounts is third-party code
  (\<open>shopspring/decimal\<close>) and is the parameter \<open>parse\<close>.
\<close>

section \<open>Conversion to minor units\<close>

datatype money_error = NilAmount | NotRepresentable

definition AssetScale :: nat where "AssetScale = 8"

definition ScaleFactor :: int where "ScaleFactor = 10 ^ AssetScale"

definition MinorUnits :: "rat option \<Rightarrow> (money_error, int) res" where
  "MinorUnits v =
     (case v of
        None \<Rightarrow> Inl NilAmount
      | Some x \<Rightarrow>
          let scaled = x * of_int ScaleFactor in
          if scaled \<noteq> of_int \<lfloor>scaled\<rfloor> then Inl NotRepresentable else Inr \<lfloor>scaled\<rfloor>)"

text \<open>\<open>big.Rat.FloatString\<close>: the last digit is rounded to nearest, halves away from zero.\<close>

definition float_string :: "nat \<Rightarrow> rat \<Rightarrow> string" where
  "float_string prec x =
     (let n = nat \<lfloor>\<bar>x\<bar> * of_int (10 ^ prec) + 1 / 2\<rfloor>;
          q = n div 10 ^ prec; r = n mod 10 ^ prec
      in (if x < 0 then ''-'' else '''') @ decimal q @
         (if prec = 0 then '''' else CHR ''.'' # pad_left prec (CHR ''0'') (decimal r)))"

definition DecimalString :: "rat option \<Rightarrow> string" where
  "DecimalString v = (case v of None \<Rightarrow> '''' | Some x \<Rightarrow> float_string AssetScale x)"

section \<open>Batch total\<close>

record Cost =
  cost_Amount :: string
  cost_Currency :: string

datatype cost_error = BadCostAmount string | BadTotal

text \<open>The accumulators are \<open>tots\<close> (the Go map) and \<open>order\<close> (the currencies in first-seen order);
  \<open>parse\<close> and \<open>fmt_dec\<close> are the SDK's \<open>ParseMoney\<close> and \<open>FormatMoney\<close>. A \<open>nil\<close> cost is \<open>None\<close>.\<close>

fun sumCosts :: "(string \<Rightarrow> rat option) \<Rightarrow> Cost option list \<Rightarrow> (string \<rightharpoonup> rat) \<Rightarrow> string list
    \<Rightarrow> (cost_error, (string \<rightharpoonup> rat) \<times> string list) res" where
  "sumCosts parse [] tots order = Inr (tots, order)"
| "sumCosts parse (None # cs) tots order = sumCosts parse cs tots order"
| "sumCosts parse (Some k # cs) tots order =
     (if cost_Currency k = [] then sumCosts parse cs tots order
      else case parse (cost_Amount k) of
        None \<Rightarrow> Inl (BadCostAmount (cost_Amount k))
      | Some v \<Rightarrow>
          let cur = cost_Currency k;
              old = (case tots cur of None \<Rightarrow> 0 | Some t \<Rightarrow> t)
          in sumCosts parse cs (tots(cur \<mapsto> old + v))
               (if tots cur = None then order @ [cur] else order))"

definition BatchTotal :: "(string \<Rightarrow> rat option) \<Rightarrow> (rat \<Rightarrow> string option) \<Rightarrow> Cost option list
    \<Rightarrow> (cost_error, Cost option) res" where
  "BatchTotal parse fmt_dec items =
     (case sumCosts parse items Map.empty [] of
        Inl e \<Rightarrow> Inl e
      | Inr (tots, order) \<Rightarrow>
          (case order of
             [cur] \<Rightarrow>
               (case fmt_dec (case tots cur of None \<Rightarrow> 0 | Some t \<Rightarrow> t) of
                  None \<Rightarrow> Inl BadTotal
                | Some amt \<Rightarrow> Inr (Some \<lparr>cost_Amount = amt, cost_Currency = cur\<rparr>))
           | _ \<Rightarrow> Inr None))"

section \<open>Derived item key\<close>

definition DerivedItemKey :: "string \<Rightarrow> string \<Rightarrow> string" where
  "DerivedItemKey requestKey offerID = requestKey @ '':'' @ offerID"

section \<open>The free tier\<close>

text \<open>The adapter keeps no state; \<open>ulid\<close> is the identifier the ULID library mints for the call.\<close>

definition free_EnsureAgentAccount :: "string \<Rightarrow> billing_error option" where
  "free_EnsureAgentAccount billingRef = (if billingRef = [] then Some ErrEmptyBillingRef else None)"

definition free_Credit :: "string \<Rightarrow> Amount \<Rightarrow> string \<Rightarrow> billing_error option" where
  "free_Credit billingRef amount idempotencyKey =
     validateCreditArgs billingRef amount idempotencyKey DemoCurrency"

definition free_Authorize :: "string \<Rightarrow> unit \<Rightarrow> AuthorizeRequest
    \<Rightarrow> unit \<times> (billing_error, AuthorizeResult) res" where
  "free_Authorize ulid s req = (s, Inr (approved ulid))"

definition free_Record :: "unit \<Rightarrow> string \<Rightarrow> int \<Rightarrow> string \<Rightarrow> unit \<times> billing_error option" where
  "free_Record s billingID quantity idempotencyKey = (s, None)"

definition free_Release :: "unit \<Rightarrow> string \<Rightarrow> string \<Rightarrow> unit \<times> billing_error option" where
  "free_Release s billingID idempotencyKey = (s, None)"

definition free_Refund :: "unit \<Rightarrow> string \<Rightarrow> Amount \<Rightarrow> string \<Rightarrow> string \<Rightarrow> unit \<times> billing_error option" where
  "free_Refund s billingID amount reason idempotencyKey = (s, Some ErrRefundUnsupported)"

definition free_GetBalance :: "string \<Rightarrow> Amount" where
  "free_GetBalance billingRef = \<lparr>Value = Some (of_int max_int64), Currency = DemoCurrency\<rparr>"

definition free_GetQuota :: "string \<Rightarrow> int" where
  "free_GetQuota billingRef = max_int64"

interpretation free: billing_adapter "\<lambda>_. True" "\<lambda>_ _. True" "\<lambda>_. {}"
  "free_Authorize ulid" free_Record free_Release for ulid
  by unfold_locales (auto simp: free_Authorize_def free_Record_def free_Release_def)

section \<open>Lemmas\<close>

lemma ScaleFactor_pos [simp]: "0 < ScaleFactor"
  by (simp add: ScaleFactor_def)

lemma MinorUnits_iff:
  "MinorUnits (Some x) = Inr n \<longleftrightarrow> x * of_int ScaleFactor = of_int n"
  by (auto simp: MinorUnits_def Let_def)

lemma MinorUnits_Inl:
  "MinorUnits (Some x) = Inl e \<longleftrightarrow> e = NotRepresentable \<and> (\<nexists>n. x * of_int ScaleFactor = of_int n)"
  by (auto simp: MinorUnits_def Let_def)

definition costed :: "Cost option \<Rightarrow> bool" where
  "costed c \<longleftrightarrow> (\<exists>k. c = Some k \<and> cost_Currency k \<noteq> [])"

definition costVal :: "(string \<Rightarrow> rat option) \<Rightarrow> string \<Rightarrow> Cost option \<Rightarrow> rat" where
  "costVal parse cur c =
     (case c of None \<Rightarrow> 0
      | Some k \<Rightarrow> if cost_Currency k = cur \<and> cur \<noteq> [] then (case parse (cost_Amount k) of None \<Rightarrow> 0 | Some v \<Rightarrow> v) else 0)"

definition costCurs :: "Cost option list \<Rightarrow> string set" where
  "costCurs cs = {cost_Currency k | k. Some k \<in> set cs \<and> cost_Currency k \<noteq> []}"

lemma sumCosts_spec:
  assumes "sumCosts parse cs tots order = Inr (tots', order')"
    "set order = dom tots" "distinct order"
  shows "set order' = dom tots' \<and> distinct order' \<and> dom tots' = dom tots \<union> costCurs cs \<and>
    (\<forall>cur. (case tots' cur of None \<Rightarrow> 0 | Some t \<Rightarrow> t) =
       (case tots cur of None \<Rightarrow> 0 | Some t \<Rightarrow> t) + sum_list (map (costVal parse cur) cs))"
  using assms
proof (induction parse cs tots order arbitrary: tots' order' rule: sumCosts.induct)
  case (1 parse tots order)
  then show ?case by (simp add: costCurs_def)
next
  case (2 parse cs tots order)
  then show ?case by (simp add: costVal_def costCurs_def)
next
  case (3 parse k cs tots order)
  show ?case
  proof (cases "cost_Currency k = []")
    case True
    then have "costCurs (Some k # cs) = costCurs cs" by (auto simp: costCurs_def)
    then show ?thesis using 3 True by (simp add: costVal_def)
  next
    case False
    then obtain v where v: "parse (cost_Amount k) = Some v"
      using 3(3) by (auto split: option.splits)
    let ?c = "cost_Currency k"
    let ?s = "tots(?c \<mapsto> (case tots ?c of None \<Rightarrow> 0 | Some t \<Rightarrow> t) + v)"
    let ?o = "if tots ?c = None then order @ [?c] else order"
    have "sumCosts parse cs ?s ?o = Inr (tots', order')"
      using 3(3) False v by (simp add: Let_def)
    moreover have "set ?o = dom ?s" "distinct ?o" using 3(4,5) by (auto simp: dom_def)
    ultimately have IH: "set order' = dom tots' \<and> distinct order' \<and> dom tots' = dom ?s \<union> costCurs cs \<and>
      (\<forall>cur. (case tots' cur of None \<Rightarrow> 0 | Some t \<Rightarrow> t) =
         (case ?s cur of None \<Rightarrow> 0 | Some t \<Rightarrow> t) + sum_list (map (costVal parse cur) cs))"
      using 3(2) [OF False v refl refl] by blast
    have "costCurs (Some k # cs) = insert ?c (costCurs cs)" using False by (auto simp: costCurs_def)
    moreover have "costVal parse cur (Some k) = (if cur = ?c then v else 0)" for cur
      using False v by (auto simp: costVal_def)
    ultimately show ?thesis using IH by auto
  qed
qed

lemma DerivedItemKey_offer: "DerivedItemKey k o1 = DerivedItemKey k o2 \<longleftrightarrow> o1 = o2"
  by (simp add: DerivedItemKey_def)

section \<open>Properties\<close>

text \<open>The batch total is never a mixed-currency sum: when \<open>BatchTotal\<close> reports a total, every costed
  item is in that one currency and the amount printed is the exact sum of their amounts; when it
  reports none, the costed items are in no currency or in several.\<close>

theorem BatchTotal_single_currency:
  assumes "BatchTotal parse fmt_dec items = Inr r"
  shows "case r of
      None \<Rightarrow> \<not> (\<exists>cur. costCurs items = {cur})
    | Some c \<Rightarrow> costCurs items = {cost_Currency c} \<and>
        fmt_dec (sum_list (map (costVal parse (cost_Currency c)) items)) = Some (cost_Amount c)"
proof -
  obtain tots order where sc: "sumCosts parse items Map.empty [] = Inr (tots, order)"
    using assms by (cases "sumCosts parse items Map.empty []") (auto simp: BatchTotal_def)
  have spec: "set order = costCurs items" "distinct order"
    "\<And>cur. (case tots cur of None \<Rightarrow> 0 | Some t \<Rightarrow> t) = sum_list (map (costVal parse cur) items)"
    using sumCosts_spec [OF sc] by auto
  show ?thesis
  proof (cases "\<exists>cur. order = [cur]")
    case True
    then obtain cur where cur: "order = [cur]" by blast
    then show ?thesis using assms sc spec
      by (auto simp: BatchTotal_def split: option.splits)
  next
    case False
    then have "r = None" using assms sc by (auto simp: BatchTotal_def split: list.splits)
    moreover have "costCurs items \<noteq> {cur}" for cur
      using False spec(1,2) by (metis distinct_card card_1_singleton_iff One_nat_def card.empty card_insert_disjoint empty_iff finite.emptyI length_0_conv length_Suc_conv)
    ultimately show ?thesis by simp
  qed
qed

theorem BatchTotal_single_currency_witness:
  "BatchTotal (\<lambda>s. if s = ''1.5'' then Some (3/2) else None) (\<lambda>v. if v = 3 then Some ''3'' else None)
     [Some \<lparr>cost_Amount = ''1.5'', cost_Currency = ''USD''\<rparr>, None, Some \<lparr>cost_Amount = ''1.5'', cost_Currency = ''USD''\<rparr>]
   = Inr (Some \<lparr>cost_Amount = ''3'', cost_Currency = ''USD''\<rparr>) \<and>
   costCurs [Some \<lparr>cost_Amount = ''1.5'', cost_Currency = ''USD''\<rparr>, None, Some \<lparr>cost_Amount = ''1.5'', cost_Currency = ''USD''\<rparr>]
   = {''USD''}"
proof -
  let ?i = "[Some \<lparr>cost_Amount = ''1.5'', cost_Currency = ''USD''\<rparr>, None, Some \<lparr>cost_Amount = ''1.5'', cost_Currency = ''USD''\<rparr>]"
  have eq: "BatchTotal (\<lambda>s. if s = ''1.5'' then Some (3/2) else None) (\<lambda>v. if v = 3 then Some ''3'' else None) ?i
     = Inr (Some \<lparr>cost_Amount = ''3'', cost_Currency = ''USD''\<rparr>)"
    by (simp add: BatchTotal_def Let_def)
  show ?thesis using eq BatchTotal_single_currency [OF eq] by simp
qed

end
