(* ===== verification/TigerBeetle_Client.thy ===== *)
theory TigerBeetle_Client
  imports Money Sha256
begin

text \<open>
  The connection layer of the persisted ledger (\<open>billing/tigerbeetle/\<close>: \<open>ids.go\<close>, \<open>split.go\<close>,
  \<open>transfers.go\<close>, \<open>accounts.go\<close>). The TigerBeetle client library is third-party code: its five
  calls are the fields of the parameter record \<open>tbapi\<close> over an arbitrary cluster state, with the
  per-call deadline folded in (a call that misses it returns \<open>ErrUnavailable\<close>). Identifiers are
  128-bit words; \<open>Bytes\<close> and \<open>BytesToUint128\<close> are the little-endian conversions.
\<close>

section \<open>Identifiers\<close>

type_synonym ID = "128 word"

definition PrefixAgent :: string where "PrefixAgent = ''agent:''"
definition PrefixOwner :: string where "PrefixOwner = ''owner:''"
definition PrefixPlatform :: string where "PrefixPlatform = ''platform:''"
definition OwnerRevenuePrefix :: string where "OwnerRevenuePrefix = ''revenue:''"
definition PlatformFeeID :: string where "PlatformFeeID = ''fee''"
definition PlatformLiquidityID :: string where "PlatformLiquidityID = ''liquidity''"

datatype AccountCode = CodeAgent | CodeOwner | CodePlatform

datatype TransferCode = CodeSettlement | CodeRefund

fun account_code :: "AccountCode \<Rightarrow> nat" where
  "account_code CodeAgent = 1"
| "account_code CodeOwner = 2"
| "account_code CodePlatform = 3"

fun transfer_code :: "TransferCode \<Rightarrow> nat" where
  "transfer_code CodeSettlement = 1"
| "transfer_code CodeRefund = 2"

definition le_bytes :: "nat \<Rightarrow> nat \<Rightarrow> nat list" where
  "le_bytes w n = map (\<lambda>i. n div 256 ^ i mod 256) [0..<w]"

fun le_val :: "nat list \<Rightarrow> nat" where
  "le_val [] = 0"
| "le_val (b # bs) = b + 256 * le_val bs"

definition BytesToUint128 :: "nat list \<Rightarrow> ID" where
  "BytesToUint128 b = word_of_nat (le_val b)"

definition reduce :: "nat list \<Rightarrow> (tb_error, ID) res" where
  "reduce digest =
     (let b = take 16 digest in
      if b = replicate 16 0 \<or> b = replicate 16 0xFF then Inl ErrReservedID
      else Inr (BytesToUint128 b))"

definition AccountID :: "string \<Rightarrow> string \<Rightarrow> (tb_error, ID) res" where
  "AccountID p businessID =
     (if businessID = [] then Inl ErrEmptyID else reduce (sha256 (p @ businessID)))"

definition TransferID :: "string \<Rightarrow> (tb_error, ID) res" where
  "TransferID idempotencyKey =
     (if idempotencyKey = [] then Inl ErrEmptyID else reduce (sha256 idempotencyKey))"

record AccountFlags =
  DebitsMustNotExceedCredits :: bool
  History :: bool

definition AgentAccountFlags :: AccountFlags where
  "AgentAccountFlags = \<lparr>DebitsMustNotExceedCredits = True, History = False\<rparr>"

definition DefaultFlagsForCode :: "AccountCode \<Rightarrow> AccountFlags" where
  "DefaultFlagsForCode code =
     (if code = CodeAgent then AgentAccountFlags
      else \<lparr>DebitsMustNotExceedCredits = False, History = True\<rparr>)"

definition IDFromUint64 :: "nat \<Rightarrow> ID" where
  "IDFromUint64 v = word_of_nat v"

definition ReasonToken :: "string \<Rightarrow> nat" where
  "ReasonToken reason = (if reason = [] then 0 else le_val (rev (take 8 (sha256 reason))))"

definition EncodeID :: "ID \<Rightarrow> string" where
  "EncodeID i = hex_encode (le_bytes 16 (unat i))"

definition DecodeID :: "string \<Rightarrow> (tb_error, ID) res" where
  "DecodeID s =
     (case hex_decode s of
        None \<Rightarrow> Inl ErrBadID
      | Some b \<Rightarrow> if length b \<noteq> 16 then Inl ErrBadID else Inr (BytesToUint128 b))"

section \<open>Transfers and the client library\<close>

datatype TransferStatus =
    TransferCreated | TransferExists | TransferLinkedEventFailed
  | TransferExceedsCredits | TransferExceedsDebits
  | TransferPendingTransferNotFound
  | TransferPendingTransferAlreadyPosted | TransferPendingTransferAlreadyVoided
  | TransferPendingTransferExpired
  | TransferExistsWithDifferentFlags
  | TransferExistsWithDifferentDebitAccountID | TransferExistsWithDifferentCreditAccountID
  | TransferExistsWithDifferentAmount | TransferExistsWithDifferentPendingID
  | TransferExistsWithDifferentUserData128 | TransferExistsWithDifferentUserData64
  | TransferExistsWithDifferentUserData32 | TransferExistsWithDifferentTimeout
  | TransferExistsWithDifferentCode | TransferExistsWithDifferentLedger
  | TransferOtherStatus string

datatype AccountStatus =
    AccountCreated | AccountExists
  | AccountExistsWithDifferentFlags | AccountExistsWithDifferentUserData128
  | AccountExistsWithDifferentUserData64 | AccountExistsWithDifferentUserData32
  | AccountExistsWithDifferentLedger | AccountExistsWithDifferentCode
  | AccountOtherStatus string

record Transfer =
  t_ID :: ID
  t_DebitAccountID :: ID
  t_CreditAccountID :: ID
  t_Amount :: int
  t_PendingID :: ID
  t_UserData128 :: ID
  t_UserData64 :: nat
  t_Timeout :: nat
  t_Ledger :: nat
  t_Code :: nat
  t_Pending :: bool
  t_PostPending :: bool
  t_VoidPending :: bool
  t_Linked :: bool
  t_Timestamp :: nat

record Account =
  acc_ID :: ID
  acc_Ledger :: nat
  acc_Code :: nat
  acc_Flags :: AccountFlags
  CreditsPosted :: int
  DebitsPosted :: int
  DebitsPending :: int

record AccountFilter =
  af_AccountID :: ID
  af_UserData128 :: ID
  af_Code :: nat
  af_TimestampMin :: nat
  af_Limit :: nat

record 'db tbapi =
  CreateTransfers :: "'db \<Rightarrow> Transfer list \<Rightarrow> 'db \<times> (tb_error, TransferStatus list) res"
  LookupTransfers :: "'db \<Rightarrow> ID list \<Rightarrow> (tb_error, Transfer list) res"
  CreateAccounts :: "'db \<Rightarrow> Account list \<Rightarrow> 'db \<times> (tb_error, AccountStatus list) res"
  LookupAccounts :: "'db \<Rightarrow> ID list \<Rightarrow> (tb_error, Account list) res"
  GetAccountTransfers :: "'db \<Rightarrow> AccountFilter \<Rightarrow> (tb_error, Transfer list) res"

definition zeroTransfer :: Transfer where
  "zeroTransfer = \<lparr>t_ID = 0, t_DebitAccountID = 0, t_CreditAccountID = 0, t_Amount = 0,
     t_PendingID = 0, t_UserData128 = 0, t_UserData64 = 0, t_Timeout = 0, t_Ledger = 0, t_Code = 0,
     t_Pending = False, t_PostPending = False, t_VoidPending = False, t_Linked = False,
     t_Timestamp = 0\<rparr>"

section \<open>Linked batches\<close>

datatype LinkedOutcome = LinkedApplied | LinkedExceedsCredits | LinkedPendingResolved | LinkedExistsMismatch

record Leg =
  leg_ID :: ID
  leg_PendingID :: ID
  leg_Debit :: ID
  leg_Credit :: ID
  leg_Amount :: "int option"
  leg_Ledger :: nat
  leg_Code :: TransferCode
  leg_UserData128 :: ID
  leg_UserData64 :: nat

definition legTransfer :: "bool \<Rightarrow> Leg \<Rightarrow> int \<Rightarrow> Transfer" where
  "legTransfer linked leg amt =
     (if leg_PendingID leg \<noteq> 0
      then zeroTransfer\<lparr>t_ID := leg_ID leg, t_PendingID := leg_PendingID leg, t_Amount := amt,
             t_UserData128 := leg_UserData128 leg, t_UserData64 := leg_UserData64 leg,
             t_PostPending := True, t_Linked := linked\<rparr>
      else zeroTransfer\<lparr>t_ID := leg_ID leg, t_DebitAccountID := leg_Debit leg,
             t_CreditAccountID := leg_Credit leg, t_Amount := amt,
             t_UserData128 := leg_UserData128 leg, t_UserData64 := leg_UserData64 leg,
             t_Ledger := leg_Ledger leg, t_Code := transfer_code (leg_Code leg),
             t_Linked := linked\<rparr>)"

fun buildLegs :: "Leg list \<Rightarrow> (tb_error, Transfer list) res" where
  "buildLegs [] = Inr []"
| "buildLegs (leg # legs) =
     (case leg_Amount leg of
        None \<Rightarrow> Inl ErrCreateTransfer
      | Some amt \<Rightarrow>
          if amt < 0 then Inl ErrCreateTransfer
          else case buildLegs legs of
            Inl e \<Rightarrow> Inl e
          | Inr ts \<Rightarrow> Inr (legTransfer (legs \<noteq> []) leg amt # ts))"

definition buildLinkedBatch :: "Leg list \<Rightarrow> (tb_error, Transfer list) res" where
  "buildLinkedBatch legs = (if legs = [] then Inl ErrCreateTransfer else buildLegs legs)"

fun linkedOutcome :: "TransferStatus list \<Rightarrow> (tb_error, LinkedOutcome) res" where
  "linkedOutcome [] = Inr LinkedApplied"
| "linkedOutcome (s # ss) =
     (case s of
        TransferCreated \<Rightarrow> linkedOutcome ss
      | TransferExists \<Rightarrow> linkedOutcome ss
      | TransferLinkedEventFailed \<Rightarrow> linkedOutcome ss
      | TransferExceedsCredits \<Rightarrow> Inr LinkedExceedsCredits
      | TransferExceedsDebits \<Rightarrow> Inr LinkedExceedsCredits
      | TransferPendingTransferAlreadyPosted \<Rightarrow> Inr LinkedPendingResolved
      | TransferPendingTransferAlreadyVoided \<Rightarrow> Inr LinkedPendingResolved
      | TransferPendingTransferExpired \<Rightarrow> Inr LinkedPendingResolved
      | TransferExistsWithDifferentFlags \<Rightarrow> Inr LinkedExistsMismatch
      | TransferExistsWithDifferentDebitAccountID \<Rightarrow> Inr LinkedExistsMismatch
      | TransferExistsWithDifferentCreditAccountID \<Rightarrow> Inr LinkedExistsMismatch
      | TransferExistsWithDifferentAmount \<Rightarrow> Inr LinkedExistsMismatch
      | TransferExistsWithDifferentPendingID \<Rightarrow> Inr LinkedExistsMismatch
      | TransferExistsWithDifferentUserData128 \<Rightarrow> Inr LinkedExistsMismatch
      | TransferExistsWithDifferentUserData64 \<Rightarrow> Inr LinkedExistsMismatch
      | TransferExistsWithDifferentUserData32 \<Rightarrow> Inr LinkedExistsMismatch
      | TransferExistsWithDifferentTimeout \<Rightarrow> Inr LinkedExistsMismatch
      | TransferExistsWithDifferentCode \<Rightarrow> Inr LinkedExistsMismatch
      | TransferExistsWithDifferentLedger \<Rightarrow> Inr LinkedExistsMismatch
      | TransferPendingTransferNotFound \<Rightarrow> Inl ErrCreateTransfer
      | TransferOtherStatus _ \<Rightarrow> Inl ErrCreateTransfer)"

definition CreateLinked :: "'db tbapi \<Rightarrow> 'db \<Rightarrow> Leg list \<Rightarrow> 'db \<times> (tb_error, LinkedOutcome) res" where
  "CreateLinked api db legs =
     (case buildLinkedBatch legs of
        Inl e \<Rightarrow> (db, Inl e)
      | Inr batch \<Rightarrow>
          (case CreateTransfers api db batch of
             (db', Inl e) \<Rightarrow> (db', Inl e)
           | (db', Inr results) \<Rightarrow> (db', linkedOutcome results)))"

record TransferInfo =
  info_Amount :: int
  info_UserData128 :: ID
  info_UserData64 :: nat
  info_Debit :: ID
  info_Credit :: ID

definition LookupTransfer :: "'db tbapi \<Rightarrow> 'db \<Rightarrow> ID \<Rightarrow> (tb_error, TransferInfo option) res" where
  "LookupTransfer api db i =
     (case LookupTransfers api db [i] of
        Inl e \<Rightarrow> Inl e
      | Inr [] \<Rightarrow> Inr None
      | Inr (t # _) \<Rightarrow> Inr (Some \<lparr>info_Amount = t_Amount t, info_UserData128 = t_UserData128 t,
           info_UserData64 = t_UserData64 t, info_Debit = t_DebitAccountID t,
           info_Credit = t_CreditAccountID t\<rparr>))"

definition refundPageLimit :: nat where "refundPageLimit = 254"

text \<open>The paging loop runs until a short page; \<open>None\<close> is a loop that never ends. \<open>uint64\<close>
  timestamps wrap.\<close>

partial_function (option) sumRefundsFrom ::
  "'db tbapi \<Rightarrow> 'db \<Rightarrow> AccountFilter \<Rightarrow> int \<Rightarrow> (tb_error, int) res option" where
  "sumRefundsFrom api db f acc =
     (case GetAccountTransfers api db f of
        Inl e \<Rightarrow> Some (Inl e)
      | Inr ts \<Rightarrow>
          (if length ts < refundPageLimit then Some (Inr (acc + sum_list (map t_Amount ts)))
           else sumRefundsFrom api db
                  (f\<lparr>af_TimestampMin := wrapu64 (t_Timestamp (last ts) + 1)\<rparr>)
                  (acc + sum_list (map t_Amount ts))))"

definition SumAccountRefunds ::
  "'db tbapi \<Rightarrow> 'db \<Rightarrow> ID \<Rightarrow> ID \<Rightarrow> TransferCode \<Rightarrow> (tb_error, int) res option" where
  "SumAccountRefunds api db account grp code =
     sumRefundsFrom api db
       \<lparr>af_AccountID = account, af_UserData128 = grp, af_Code = transfer_code code,
        af_TimestampMin = 0, af_Limit = refundPageLimit\<rparr> 0"

section \<open>Two-phase transfers\<close>

datatype PendingOutcome = PendingCreated | PendingExists | PendingInsufficientFunds

datatype ResolveOutcome = ResolveApplied | ResolveExists | ResolveNotFound | ResolveAlreadyResolved

datatype HoldState = HoldFree | HoldLive | HoldResolved

record PendingTransfer =
  p_ID :: ID
  p_Debit :: ID
  p_Credit :: ID
  p_Amount :: "int option"
  p_Ledger :: nat
  p_Timeout :: nat
  p_UserData128 :: ID

fun pendingOutcome :: "TransferStatus \<Rightarrow> (tb_error, PendingOutcome) res" where
  "pendingOutcome TransferCreated = Inr PendingCreated"
| "pendingOutcome TransferExists = Inr PendingExists"
| "pendingOutcome TransferExceedsCredits = Inr PendingInsufficientFunds"
| "pendingOutcome _ = Inl ErrCreateTransfer"

fun resolveOutcome :: "TransferStatus \<Rightarrow> (tb_error, ResolveOutcome) res" where
  "resolveOutcome TransferCreated = Inr ResolveApplied"
| "resolveOutcome TransferExists = Inr ResolveExists"
| "resolveOutcome TransferPendingTransferNotFound = Inr ResolveNotFound"
| "resolveOutcome TransferPendingTransferAlreadyPosted = Inr ResolveAlreadyResolved"
| "resolveOutcome TransferPendingTransferAlreadyVoided = Inr ResolveAlreadyResolved"
| "resolveOutcome TransferPendingTransferExpired = Inr ResolveAlreadyResolved"
| "resolveOutcome _ = Inl ErrCreateTransfer"

definition CreatePending :: "'db tbapi \<Rightarrow> 'db \<Rightarrow> PendingTransfer \<Rightarrow> 'db \<times> (tb_error, PendingOutcome) res" where
  "CreatePending api db p =
     (case p_Amount p of
        None \<Rightarrow> (db, Inl ErrCreateTransfer)
      | Some amt \<Rightarrow>
          if amt < 0 then (db, Inl ErrCreateTransfer)
          else case CreateTransfers api db
                 [zeroTransfer\<lparr>t_ID := p_ID p, t_DebitAccountID := p_Debit p,
                    t_CreditAccountID := p_Credit p, t_Amount := amt,
                    t_UserData128 := p_UserData128 p, t_Timeout := p_Timeout p,
                    t_Ledger := p_Ledger p, t_Code := transfer_code CodeSettlement,
                    t_Pending := True\<rparr>] of
            (db', Inl e) \<Rightarrow> (db', Inl e)
          | (db', Inr []) \<Rightarrow> (db', Inr PendingCreated)
          | (db', Inr (s # _)) \<Rightarrow> (db', pendingOutcome s))"

definition resolveTransfer :: "'db tbapi \<Rightarrow> 'db \<Rightarrow> Transfer \<Rightarrow> 'db \<times> (tb_error, ResolveOutcome) res" where
  "resolveTransfer api db t =
     (case CreateTransfers api db [t] of
        (db', Inl e) \<Rightarrow> (db', Inl e)
      | (db', Inr []) \<Rightarrow> (db', Inr ResolveApplied)
      | (db', Inr (s # _)) \<Rightarrow> (db', resolveOutcome s))"

definition PostPending :: "'db tbapi \<Rightarrow> 'db \<Rightarrow> ID \<Rightarrow> ID \<Rightarrow> 'db \<times> (tb_error, ResolveOutcome) res" where
  "PostPending api db i pendingID =
     resolveTransfer api db
       (zeroTransfer\<lparr>t_ID := i, t_PendingID := pendingID, t_Amount := 2 ^ 128 - 1, t_PostPending := True\<rparr>)"

definition VoidPending :: "'db tbapi \<Rightarrow> 'db \<Rightarrow> ID \<Rightarrow> ID \<Rightarrow> 'db \<times> (tb_error, ResolveOutcome) res" where
  "VoidPending api db i pendingID =
     resolveTransfer api db
       (zeroTransfer\<lparr>t_ID := i, t_PendingID := pendingID, t_VoidPending := True\<rparr>)"

definition lookupTransferSet :: "'db tbapi \<Rightarrow> 'db \<Rightarrow> ID list \<Rightarrow> (tb_error, string set) res" where
  "lookupTransferSet api db ids =
     (case LookupTransfers api db ids of
        Inl e \<Rightarrow> Inl e
      | Inr ts \<Rightarrow> Inr (set (map (EncodeID \<circ> t_ID) ts)))"

definition ClassifyHold :: "'db tbapi \<Rightarrow> 'db \<Rightarrow> ID \<Rightarrow> ID \<Rightarrow> ID \<Rightarrow> (tb_error, HoldState) res" where
  "ClassifyHold api db pendingID postID voidID =
     (case lookupTransferSet api db [pendingID, postID, voidID] of
        Inl e \<Rightarrow> Inl e
      | Inr found \<Rightarrow>
          if EncodeID pendingID \<notin> found then Inr HoldFree
          else if EncodeID postID \<notin> found \<and> EncodeID voidID \<notin> found then Inr HoldLive
          else Inr HoldResolved)"

section \<open>Accounts\<close>

fun isExistsConflict :: "AccountStatus \<Rightarrow> bool" where
  "isExistsConflict AccountExistsWithDifferentFlags = True"
| "isExistsConflict AccountExistsWithDifferentUserData128 = True"
| "isExistsConflict AccountExistsWithDifferentUserData64 = True"
| "isExistsConflict AccountExistsWithDifferentUserData32 = True"
| "isExistsConflict AccountExistsWithDifferentLedger = True"
| "isExistsConflict AccountExistsWithDifferentCode = True"
| "isExistsConflict _ = False"

definition EnsureAccount :: "'db tbapi \<Rightarrow> 'db \<Rightarrow> ID \<Rightarrow> nat \<Rightarrow> AccountCode \<Rightarrow> AccountFlags
    \<Rightarrow> 'db \<times> tb_error option" where
  "EnsureAccount api db i lg code flags =
     (case CreateAccounts api db
        [\<lparr>acc_ID = i, acc_Ledger = lg, acc_Code = account_code code, acc_Flags = flags,
          CreditsPosted = 0, DebitsPosted = 0, DebitsPending = 0\<rparr>] of
        (db', Inl e) \<Rightarrow> (db', Some e)
      | (db', Inr []) \<Rightarrow> (db', None)
      | (db', Inr (s # _)) \<Rightarrow>
          (if s = AccountCreated \<or> s = AccountExists then (db', None)
           else if isExistsConflict s then (db', Some ErrAccountConflict)
           else (db', Some ErrCreateAccount)))"

definition LookupAccount :: "'db tbapi \<Rightarrow> 'db \<Rightarrow> ID \<Rightarrow> (tb_error, Account option) res" where
  "LookupAccount api db i =
     (case LookupAccounts api db [i] of
        Inl e \<Rightarrow> Inl e
      | Inr [] \<Rightarrow> Inr None
      | Inr (a # _) \<Rightarrow> Inr (Some a))"

end
