(* ===== verification/TigerBeetle_Adapter.thy ===== *)
theory TigerBeetle_Adapter
  imports TigerBeetle_Client
begin

text \<open>
  The persisted billing adapter (\<open>billing/tigerbeetle_adapter.go\<close>, \<open>tigerbeetle_settle.go\<close>,
  \<open>tigerbeetle_credit.go\<close>, \<open>tigerbeetle_accounts.go\<close>). Every method threads the cluster state
  \<open>'db\<close> of the client parameter \<open>api\<close>; the deferred \<open>classifyUnavailable\<close> is applied at the
  boundary of each public method. \<open>Refund\<close> returns an option because the ledger paging loop it
  calls may not end for an arbitrary server.
\<close>

section \<open>Configuration\<close>

record tbAdapter =
  ad_ledger :: nat
  ad_currency :: string
  ad_holdTimeout :: int
  ad_idNS :: string

definition second :: int where "second = 1000000000"

definition defaultHoldTimeout :: int where "defaultHoldTimeout = 360 * second"

definition maxAuthGenerations :: nat where "maxAuthGenerations = 256"

definition NewTigerBeetleAdapter :: "nat \<Rightarrow> string \<Rightarrow> int \<Rightarrow> string \<Rightarrow> tbAdapter" where
  "NewTigerBeetleAdapter lg currency timeout ns =
     \<lparr>ad_ledger = lg, ad_currency = currency,
      ad_holdTimeout = (if timeout \<le> 0 then defaultHoldTimeout else timeout), ad_idNS = ns\<rparr>"

fun classifyUnavailable :: "billing_error \<Rightarrow> billing_error" where
  "classifyUnavailable (ErrTb ErrUnavailable) = ErrBackendUnavailable"
| "classifyUnavailable e = e"

definition tbErr :: "(tb_error, 'a) res \<Rightarrow> (billing_error, 'a) res" where
  "tbErr r = (case r of Inl e \<Rightarrow> Inl (ErrTb e) | Inr x \<Rightarrow> Inr x)"

section \<open>Money and identifiers\<close>

definition toMinor :: "Amount \<Rightarrow> (billing_error, int) res" where
  "toMinor amt =
     (case MinorUnits (Value amt) of
        Inl NotRepresentable \<Rightarrow> Inl ErrAmountNotRepresentable
      | Inl NilAmount \<Rightarrow> Inl (ErrPlain ''nil amount'')
      | Inr n \<Rightarrow> Inr n)"

definition fromMinor :: "tbAdapter \<Rightarrow> int \<Rightarrow> Amount" where
  "fromMinor ad minor = \<lparr>Value = Some (of_int minor / of_int ScaleFactor), Currency = ad_currency ad\<rparr>"

definition feeMinor :: "int \<Rightarrow> int \<Rightarrow> int" where
  "feeMinor gross bps = gross * bps div 10000"

definition rateBps :: "ID \<Rightarrow> int" where
  "rateBps userData = wrap64 (uint userData)"

definition timeoutSeconds :: "tbAdapter \<Rightarrow> int" where
  "timeoutSeconds ad =
     (let s = ad_holdTimeout ad div second in
      if s \<le> 0 then 1 else if s > 2 ^ 32 - 1 then 2 ^ 32 - 1 else s)"

definition accountID :: "tbAdapter \<Rightarrow> string \<Rightarrow> string \<Rightarrow> (billing_error, ID) res" where
  "accountID ad p businessID = tbErr (AccountID p (ad_idNS ad @ businessID))"

definition ownerAccount :: "tbAdapter \<Rightarrow> string \<Rightarrow> (billing_error, ID) res" where
  "ownerAccount ad resourceOwnerID =
     (if resourceOwnerID = [] then Inl ErrUnknownPayee
      else accountID ad PrefixOwner (OwnerRevenuePrefix @ resourceOwnerID))"

definition platformFeeAccount :: "tbAdapter \<Rightarrow> (billing_error, ID) res" where
  "platformFeeAccount ad = accountID ad PrefixPlatform PlatformFeeID"

definition pendingBusinessID :: "tbAdapter \<Rightarrow> string \<Rightarrow> string \<Rightarrow> nat \<Rightarrow> string" where
  "pendingBusinessID ad billingRef authKey gen =
     ad_idNS ad @ TransferPendingPrefix @ billingRef @ '':'' @ authKey @ '':'' @ decimal gen"

definition pendingID :: "tbAdapter \<Rightarrow> string \<Rightarrow> string \<Rightarrow> nat \<Rightarrow> (billing_error, ID) res" where
  "pendingID ad billingRef authKey gen =
     (if CHR '':'' \<in> set billingRef then Inl (ErrPlain ''billing_ref contains a colon'')
      else tbErr (TransferID (pendingBusinessID ad billingRef authKey gen)))"

definition resolveIDs :: "tbAdapter \<Rightarrow> ID \<Rightarrow> (billing_error, ID \<times> ID) res" where
  "resolveIDs ad pid =
     (let hexID = EncodeID pid in
      case TransferID (ad_idNS ad @ TransferPostPrefix @ hexID) of
        Inl e \<Rightarrow> Inl (ErrTb e)
      | Inr postID \<Rightarrow>
          (case TransferID (ad_idNS ad @ TransferVoidPrefix @ hexID) of
             Inl e \<Rightarrow> Inl (ErrTb e)
           | Inr voidID \<Rightarrow> Inr (postID, voidID)))"

definition feeLegID :: "tbAdapter \<Rightarrow> ID \<Rightarrow> (billing_error, ID) res" where
  "feeLegID ad pid = tbErr (TransferID (ad_idNS ad @ TransferFeePrefix @ EncodeID pid))"

definition refundLegIDs :: "tbAdapter \<Rightarrow> ID \<Rightarrow> string \<Rightarrow> (billing_error, ID \<times> ID) res" where
  "refundLegIDs ad pid key =
     (let base = ad_idNS ad @ TransferRefundPrefix @ EncodeID pid @ '':'' @ key in
      case TransferID (base @ '':net'') of
        Inl e \<Rightarrow> Inl (ErrTb e)
      | Inr netID \<Rightarrow>
          (case TransferID (base @ '':fee'') of
             Inl e \<Rightarrow> Inl (ErrTb e)
           | Inr feeID \<Rightarrow> Inr (netID, feeID)))"

definition tb_classifyHold :: "'db tbapi \<Rightarrow> tbAdapter \<Rightarrow> 'db \<Rightarrow> ID \<Rightarrow> (billing_error, HoldState \<times> ID) res" where
  "tb_classifyHold api ad db pid =
     (case resolveIDs ad pid of
        Inl e \<Rightarrow> Inl e
      | Inr (postID, voidID) \<Rightarrow>
          (case ClassifyHold api db pid postID voidID of
             Inl e \<Rightarrow> Inl (ErrTb e)
           | Inr st \<Rightarrow> Inr (st, postID)))"

fun resolveErr :: "ResolveOutcome \<Rightarrow> billing_error option" where
  "resolveErr ResolveApplied = None"
| "resolveErr ResolveExists = None"
| "resolveErr ResolveNotFound = Some ErrUnknownBillingID"
| "resolveErr ResolveAlreadyResolved = Some ErrUnknownBillingID"

fun linkedErr :: "(tb_error, LinkedOutcome) res \<Rightarrow> billing_error \<Rightarrow> billing_error option" where
  "linkedErr (Inl e) exceedsCredits = Some (ErrTb e)"
| "linkedErr (Inr LinkedApplied) exceedsCredits = None"
| "linkedErr (Inr LinkedExceedsCredits) exceedsCredits = Some exceedsCredits"
| "linkedErr (Inr LinkedPendingResolved) exceedsCredits = Some ErrUnknownBillingID"
| "linkedErr (Inr LinkedExistsMismatch) exceedsCredits = Some (ErrPlain ''linked leg exists with different contents'')"

section \<open>Accounts and credits\<close>

definition tb_ensureAccount :: "'db tbapi \<Rightarrow> tbAdapter \<Rightarrow> 'db \<Rightarrow> ID \<Rightarrow> AccountCode \<Rightarrow> 'db \<times> billing_error option" where
  "tb_ensureAccount api ad db i code =
     (case EnsureAccount api db i (ad_ledger ad) code (DefaultFlagsForCode code) of
        (db', Some e) \<Rightarrow> (db', Some (ErrTb e))
      | (db', None) \<Rightarrow> (db', None))"

definition ensureAccounts :: "'db tbapi \<Rightarrow> tbAdapter \<Rightarrow> 'db \<Rightarrow> ID \<Rightarrow> ID \<Rightarrow> 'db \<times> billing_error option" where
  "ensureAccounts api ad db agentAcct ownerID =
     (case tb_ensureAccount api ad db agentAcct CodeAgent of
        (db', Some e) \<Rightarrow> (db', Some e)
      | (db', None) \<Rightarrow> tb_ensureAccount api ad db' ownerID CodeOwner)"

definition tb_EnsureAgentAccount :: "'db tbapi \<Rightarrow> tbAdapter \<Rightarrow> 'db \<Rightarrow> string \<Rightarrow> 'db \<times> billing_error option" where
  "tb_EnsureAgentAccount api ad db billingRef =
     (if billingRef = [] then (db, Some ErrEmptyBillingRef)
      else case accountID ad PrefixAgent billingRef of
        Inl e \<Rightarrow> (db, Some (classifyUnavailable e))
      | Inr i \<Rightarrow>
          (case tb_ensureAccount api ad db i CodeAgent of
             (db', e) \<Rightarrow> (db', map_option classifyUnavailable e)))"

definition errCreditLiquidityCap :: billing_error where
  "errCreditLiquidityCap = ErrPlain ''credit exceeds platform liquidity cap''"

definition zeroLeg :: Leg where
  "zeroLeg = \<lparr>leg_ID = 0, leg_PendingID = 0, leg_Debit = 0, leg_Credit = 0, leg_Amount = None,
     leg_Ledger = 0, leg_Code = CodeSettlement, leg_UserData128 = 0, leg_UserData64 = 0\<rparr>"

definition tb_Credit_body :: "'db tbapi \<Rightarrow> tbAdapter \<Rightarrow> 'db \<Rightarrow> string \<Rightarrow> Amount \<Rightarrow> string \<Rightarrow> 'db \<times> billing_error option" where
  "tb_Credit_body api ad db billingRef amount idempotencyKey =
     (case validateCreditArgs billingRef amount idempotencyKey (ad_currency ad) of
        Some e \<Rightarrow> (db, Some e)
      | None \<Rightarrow>
     (case toMinor amount of Inl e \<Rightarrow> (db, Some e) | Inr minor \<Rightarrow>
     (case TransferID (ad_idNS ad @ idempotencyKey) of Inl e \<Rightarrow> (db, Some (ErrTb e)) | Inr transferID \<Rightarrow>
     (case accountID ad PrefixAgent billingRef of Inl e \<Rightarrow> (db, Some e) | Inr agentAcct \<Rightarrow>
     (case accountID ad PrefixPlatform PlatformLiquidityID of Inl e \<Rightarrow> (db, Some e) | Inr liquidity \<Rightarrow>
     (case tb_ensureAccount api ad db agentAcct CodeAgent of
        (db1, Some e) \<Rightarrow> (db1, Some e)
      | (db1, None) \<Rightarrow>
     (case tb_ensureAccount api ad db1 liquidity CodePlatform of
        (db2, Some e) \<Rightarrow> (db2, Some e)
      | (db2, None) \<Rightarrow>
     (case LookupTransfer api db2 transferID of
        Inl e \<Rightarrow> (db2, Some (ErrTb e))
      | Inr (Some _) \<Rightarrow> (db2, None)
      | Inr None \<Rightarrow>
     (case CreateLinked api db2
        [zeroLeg\<lparr>leg_ID := transferID, leg_Debit := liquidity, leg_Credit := agentAcct,
           leg_Amount := Some minor, leg_Ledger := ad_ledger ad, leg_Code := CodeSettlement\<rparr>] of
        (db3, Inr LinkedExistsMismatch) \<Rightarrow> (db3, None)
      | (db3, out) \<Rightarrow> (db3, linkedErr out errCreditLiquidityCap))))))))))"

definition tb_Credit :: "'db tbapi \<Rightarrow> tbAdapter \<Rightarrow> 'db \<Rightarrow> string \<Rightarrow> Amount \<Rightarrow> string \<Rightarrow> 'db \<times> billing_error option" where
  "tb_Credit api ad db billingRef amount idempotencyKey =
     (case tb_Credit_body api ad db billingRef amount idempotencyKey of
        (db', e) \<Rightarrow> (db', map_option classifyUnavailable e))"

section \<open>Authorize\<close>

record holdParams =
  h_billingRef :: string
  h_authKey :: string
  h_agentAcct :: ID
  h_owner :: ID
  h_minor :: int
  h_bps :: int

definition createHold :: "'db tbapi \<Rightarrow> tbAdapter \<Rightarrow> 'db \<Rightarrow> ID \<Rightarrow> holdParams \<Rightarrow> 'db \<times> (billing_error, AuthorizeResult) res" where
  "createHold api ad db pid h =
     (let bps = (if h_bps h > 0 then nat (h_bps h) else 0) in
      case CreatePending api db
        \<lparr>p_ID = pid, p_Debit = h_agentAcct h, p_Credit = h_owner h, p_Amount = Some (h_minor h),
         p_Ledger = ad_ledger ad, p_Timeout = nat (timeoutSeconds ad), p_UserData128 = IDFromUint64 bps\<rparr> of
        (db', Inl e) \<Rightarrow> (db', Inl (ErrTb e))
      | (db', Inr PendingCreated) \<Rightarrow> (db', Inr (approved (EncodeID pid)))
      | (db', Inr PendingExists) \<Rightarrow> (db', Inr (approved (EncodeID pid)))
      | (db', Inr PendingInsufficientFunds) \<Rightarrow> (db', Inr (denied ''insufficient balance'')))"

text \<open>The generation loop, over the list of generations still to probe.\<close>

fun tb_reserve_from :: "'db tbapi \<Rightarrow> tbAdapter \<Rightarrow> 'db \<Rightarrow> holdParams \<Rightarrow> nat list \<Rightarrow> 'db \<times> (billing_error, AuthorizeResult) res" where
  "tb_reserve_from api ad db h [] = (db, Inl (ErrPlain ''authorize exhausted hold generations''))"
| "tb_reserve_from api ad db h (gen # gens) =
     (case pendingID ad (h_billingRef h) (h_authKey h) gen of
        Inl e \<Rightarrow> (db, Inl e)
      | Inr pid \<Rightarrow>
          (case tb_classifyHold api ad db pid of
             Inl e \<Rightarrow> (db, Inl e)
           | Inr (HoldLive, _) \<Rightarrow> (db, Inr (approved (EncodeID pid)))
           | Inr (HoldFree, _) \<Rightarrow> createHold api ad db pid h
           | Inr (HoldResolved, _) \<Rightarrow> tb_reserve_from api ad db h gens))"

definition tb_reserve :: "'db tbapi \<Rightarrow> tbAdapter \<Rightarrow> 'db \<Rightarrow> holdParams \<Rightarrow> 'db \<times> (billing_error, AuthorizeResult) res" where
  "tb_reserve api ad db h = tb_reserve_from api ad db h [0..<maxAuthGenerations]"

definition checkBalance :: "'db tbapi \<Rightarrow> 'db \<Rightarrow> ID \<Rightarrow> int \<Rightarrow> (billing_error, AuthorizeResult option) res" where
  "checkBalance api db agentAcct minor =
     (case LookupAccount api db agentAcct of
        Inl e \<Rightarrow> Inl (ErrTb e)
      | Inr acc \<Rightarrow>
          let available = (case acc of None \<Rightarrow> 0
                           | Some a \<Rightarrow> CreditsPosted a - DebitsPosted a - DebitsPending a)
          in if available < minor then Inr (Some (denied ''insufficient balance'')) else Inr None)"

definition tb_Authorize_body :: "'db tbapi \<Rightarrow> tbAdapter \<Rightarrow> 'db \<Rightarrow> AuthorizeRequest \<Rightarrow> 'db \<times> (billing_error, AuthorizeResult) res" where
  "tb_Authorize_body api ad db req =
     (if IdempotencyKey req = [] then (db, Inr (denied ''idempotency key required''))
      else if BillingRef req = [] then (db, Inr (denied ''billing ref required''))
      else if Quantity req \<le> 0 then (db, Inr (denied ''non-positive quantity''))
      else case Value (UnitCost req) of None \<Rightarrow> (db, Inl Panic) | Some u \<Rightarrow>
        if u \<noteq> 0 \<and> Currency (UnitCost req) \<noteq> ad_currency ad then (db, Inr (denied ''currency mismatch''))
        else
     (case totalCharge (UnitCost req) (Quantity req) of Inl e \<Rightarrow> (db, Inl e) | Inr gross \<Rightarrow>
     (case toMinor gross of Inl e \<Rightarrow> (db, Inl e) | Inr minor \<Rightarrow>
     (case accountID ad PrefixAgent (BillingRef req) of Inl e \<Rightarrow> (db, Inl e) | Inr agentAcct \<Rightarrow>
     (case ownerAccount ad (ResourceOwnerID req) of Inl e \<Rightarrow> (db, Inl e) | Inr ownerID \<Rightarrow>
     (case ensureAccounts api ad db agentAcct ownerID of
        (db1, Some e) \<Rightarrow> (db1, Inl e)
      | (db1, None) \<Rightarrow>
     (case checkBalance api db1 agentAcct minor of
        Inl e \<Rightarrow> (db1, Inl e)
      | Inr (Some denial) \<Rightarrow> (db1, Inr denial)
      | Inr None \<Rightarrow>
          tb_reserve api ad db1
            \<lparr>h_billingRef = BillingRef req, h_authKey = IdempotencyKey req, h_agentAcct = agentAcct,
             h_owner = ownerID, h_minor = minor, h_bps = FeeRateBps req\<rparr>)))))))"

definition tb_Authorize :: "'db tbapi \<Rightarrow> tbAdapter \<Rightarrow> 'db \<Rightarrow> AuthorizeRequest \<Rightarrow> 'db \<times> (billing_error, AuthorizeResult) res" where
  "tb_Authorize api ad db req =
     (case tb_Authorize_body api ad db req of
        (db', Inl e) \<Rightarrow> (db', Inl (classifyUnavailable e))
      | (db', Inr r) \<Rightarrow> (db', Inr r))"

section \<open>Record and Release\<close>

definition settleSplit :: "'db tbapi \<Rightarrow> tbAdapter \<Rightarrow> 'db \<Rightarrow> ID \<Rightarrow> ID \<Rightarrow> 'db \<times> billing_error option" where
  "settleSplit api ad db pid postID =
     (case LookupTransfer api db pid of
        Inl e \<Rightarrow> (db, Some (ErrTb e))
      | Inr None \<Rightarrow> (db, Some ErrUnknownBillingID)
      | Inr (Some info) \<Rightarrow>
          let gross = info_Amount info; fee = feeMinor gross (rateBps (info_UserData128 info)) in
          if fee = 0 then
            (case PostPending api db postID pid of
               (db', Inl e) \<Rightarrow> (db', Some (ErrTb e))
             | (db', Inr out) \<Rightarrow> (db', resolveErr out))
          else
     (case platformFeeAccount ad of Inl e \<Rightarrow> (db, Some e) | Inr platformID \<Rightarrow>
     (case tb_ensureAccount api ad db platformID CodePlatform of
        (db1, Some e) \<Rightarrow> (db1, Some e)
      | (db1, None) \<Rightarrow>
     (case feeLegID ad pid of Inl e \<Rightarrow> (db1, Some e) | Inr feeID \<Rightarrow>
     (case CreateLinked api db1
        [zeroLeg\<lparr>leg_ID := postID, leg_PendingID := pid, leg_Amount := Some (gross - fee)\<rparr>,
         zeroLeg\<lparr>leg_ID := feeID, leg_Debit := info_Debit info, leg_Credit := platformID,
           leg_Amount := Some fee, leg_Ledger := ad_ledger ad, leg_Code := CodeSettlement\<rparr>] of
        (db2, out) \<Rightarrow> (db2, linkedErr out ErrInsufficientBalance))))))"

definition tb_Record_body :: "'db tbapi \<Rightarrow> tbAdapter \<Rightarrow> 'db \<Rightarrow> string \<Rightarrow> 'db \<times> billing_error option" where
  "tb_Record_body api ad db billingID =
     (case DecodeID billingID of
        Inl _ \<Rightarrow> (db, Some ErrUnknownBillingID)
      | Inr pid \<Rightarrow>
     (case tb_classifyHold api ad db pid of
        Inl e \<Rightarrow> (db, Some e)
      | Inr (HoldFree, _) \<Rightarrow> (db, Some ErrUnknownBillingID)
      | Inr (HoldResolved, postID) \<Rightarrow>
          (case LookupTransfer api db postID of
             Inl e \<Rightarrow> (db, Some (ErrTb e))
           | Inr (Some _) \<Rightarrow> (db, None)
           | Inr None \<Rightarrow> (db, Some ErrUnknownBillingID))
      | Inr (HoldLive, postID) \<Rightarrow> settleSplit api ad db pid postID))"

definition tb_Record :: "'db tbapi \<Rightarrow> tbAdapter \<Rightarrow> 'db \<Rightarrow> string \<Rightarrow> int \<Rightarrow> string \<Rightarrow> 'db \<times> billing_error option" where
  "tb_Record api ad db billingID quantity key =
     (case tb_Record_body api ad db billingID of
        (db', e) \<Rightarrow> (db', map_option classifyUnavailable e))"

definition tb_Release :: "'db tbapi \<Rightarrow> tbAdapter \<Rightarrow> 'db \<Rightarrow> string \<Rightarrow> string \<Rightarrow> 'db \<times> billing_error option" where
  "tb_Release api ad db billingID key =
     (case DecodeID billingID of
        Inl _ \<Rightarrow> (db, Some ErrUnknownBillingID)
      | Inr pid \<Rightarrow>
     (case resolveIDs ad pid of
        Inl e \<Rightarrow> (db, Some (classifyUnavailable e))
      | Inr (_, voidID) \<Rightarrow>
          (case VoidPending api db voidID pid of
             (db', Inl e) \<Rightarrow> (db', Some (classifyUnavailable (ErrTb e)))
           | (db', Inr out) \<Rightarrow> (db', map_option classifyUnavailable (resolveErr out)))))"

section \<open>Refund\<close>

definition classifyForRefund :: "'db tbapi \<Rightarrow> tbAdapter \<Rightarrow> 'db \<Rightarrow> ID \<Rightarrow> billing_error option" where
  "classifyForRefund api ad db pid =
     (case tb_classifyHold api ad db pid of
        Inl e \<Rightarrow> Some e
      | Inr (HoldFree, _) \<Rightarrow> Some ErrUnknownBillingID
      | Inr (HoldLive, _) \<Rightarrow> Some ErrRefundBeforeRecord
      | Inr (HoldResolved, postID) \<Rightarrow>
          (case LookupTransfer api db postID of
             Inl e \<Rightarrow> Some (ErrTb e)
           | Inr None \<Rightarrow> Some ErrRefundBeforeRecord
           | Inr (Some _) \<Rightarrow> None))"

definition refundMinor :: "tbAdapter \<Rightarrow> Amount \<Rightarrow> (billing_error, int) res" where
  "refundMinor ad amount =
     (if Currency amount \<noteq> ad_currency ad then Inl ErrInvalidAmount
      else case toMinor amount of
        Inl _ \<Rightarrow> Inl ErrInvalidAmount
      | Inr minor \<Rightarrow> if minor \<le> 0 then Inl ErrInvalidAmount else Inr minor)"

definition feeReversal :: "int \<Rightarrow> int \<Rightarrow> int \<Rightarrow> int" where
  "feeReversal gross feePosted r = feePosted * r div gross"

definition refundReverse :: "'db tbapi \<Rightarrow> tbAdapter \<Rightarrow> 'db \<Rightarrow> ID \<Rightarrow> ID \<Rightarrow> ID \<Rightarrow> TransferInfo \<Rightarrow> int \<Rightarrow> int \<Rightarrow> string
    \<Rightarrow> 'db \<times> billing_error option" where
  "refundReverse api ad db pid netID feeID info netRev feeRev reason =
     (let netLeg = zeroLeg\<lparr>leg_ID := netID, leg_Debit := info_Credit info, leg_Credit := info_Debit info,
            leg_Amount := Some netRev, leg_Ledger := ad_ledger ad, leg_Code := CodeRefund,
            leg_UserData128 := pid, leg_UserData64 := ReasonToken reason\<rparr>
      in if feeRev > 0 then
           (case platformFeeAccount ad of
              Inl e \<Rightarrow> (db, Some e)
            | Inr platformID \<Rightarrow>
                (case CreateLinked api db
                   [netLeg, zeroLeg\<lparr>leg_ID := feeID, leg_Debit := platformID, leg_Credit := info_Debit info,
                      leg_Amount := Some feeRev, leg_Ledger := ad_ledger ad, leg_Code := CodeRefund,
                      leg_UserData128 := pid\<rparr>] of
                   (db', out) \<Rightarrow> (db', linkedErr out ErrInsufficientBalance)))
         else
           (case CreateLinked api db [netLeg] of
              (db', out) \<Rightarrow> (db', linkedErr out ErrInsufficientBalance)))"

definition reverseRefund :: "'db tbapi \<Rightarrow> tbAdapter \<Rightarrow> 'db \<Rightarrow> ID \<Rightarrow> ID \<Rightarrow> ID \<Rightarrow> int \<Rightarrow> string
    \<Rightarrow> ('db \<times> billing_error option) option" where
  "reverseRefund api ad db pid netID feeID rMinor reason =
     (case LookupTransfer api db pid of
        Inl e \<Rightarrow> Some (db, Some (ErrTb e))
      | Inr None \<Rightarrow> Some (db, Some ErrUnknownBillingID)
      | Inr (Some info) \<Rightarrow>
          let gross = info_Amount info in
          (case SumAccountRefunds api db (info_Debit info) pid CodeRefund of
             None \<Rightarrow> None
           | Some (Inl e) \<Rightarrow> Some (db, Some (ErrTb e))
           | Some (Inr prior) \<Rightarrow>
               if prior + rMinor > gross then Some (db, Some ErrRefundExceedsRecord)
               else if gross = 0 then Some (db, Some Panic)
               else
                 let feePosted = feeMinor gross (rateBps (info_UserData128 info));
                     feeRev = feeReversal gross feePosted rMinor
                 in Some (refundReverse api ad db pid netID feeID info (rMinor - feeRev) feeRev reason)))"

definition tb_Refund_body :: "'db tbapi \<Rightarrow> tbAdapter \<Rightarrow> 'db \<Rightarrow> string \<Rightarrow> Amount \<Rightarrow> string \<Rightarrow> string
    \<Rightarrow> ('db \<times> billing_error option) option" where
  "tb_Refund_body api ad db billingID amount reason key =
     (case DecodeID billingID of
        Inl _ \<Rightarrow> Some (db, Some ErrUnknownBillingID)
      | Inr pid \<Rightarrow>
     (case classifyForRefund api ad db pid of Some e \<Rightarrow> Some (db, Some e) | None \<Rightarrow>
     (case refundMinor ad amount of Inl e \<Rightarrow> Some (db, Some e) | Inr rMinor \<Rightarrow>
     (case refundLegIDs ad pid key of Inl e \<Rightarrow> Some (db, Some e) | Inr (netID, feeID) \<Rightarrow>
     (case LookupTransfer api db netID of
        Inl e \<Rightarrow> Some (db, Some (ErrTb e))
      | Inr (Some _) \<Rightarrow> Some (db, None)
      | Inr None \<Rightarrow> reverseRefund api ad db pid netID feeID rMinor reason)))))"

definition tb_Refund :: "'db tbapi \<Rightarrow> tbAdapter \<Rightarrow> 'db \<Rightarrow> string \<Rightarrow> Amount \<Rightarrow> string \<Rightarrow> string
    \<Rightarrow> ('db \<times> billing_error option) option" where
  "tb_Refund api ad db billingID amount reason key =
     map_option (\<lambda>(db', e). (db', map_option classifyUnavailable e))
       (tb_Refund_body api ad db billingID amount reason key)"

section \<open>Reads\<close>

definition tb_GetBalance :: "'db tbapi \<Rightarrow> tbAdapter \<Rightarrow> 'db \<Rightarrow> string \<Rightarrow> (billing_error, Amount) res" where
  "tb_GetBalance api ad db billingRef =
     (case accountID ad PrefixAgent billingRef of
        Inl e \<Rightarrow> Inl (classifyUnavailable e)
      | Inr i \<Rightarrow>
          (case LookupAccount api db i of
             Inl e \<Rightarrow> Inl (classifyUnavailable (ErrTb e))
           | Inr None \<Rightarrow> Inl (ErrPlain ''unknown account'')
           | Inr (Some acc) \<Rightarrow> Inr (fromMinor ad (CreditsPosted acc - DebitsPosted acc))))"

definition tb_GetQuota :: "string \<Rightarrow> int" where
  "tb_GetQuota billingRef = 0"

end
