(* ===== verification/TigerBeetle_Laws.thy ===== *)
theory TigerBeetle_Laws
  imports TigerBeetle_Adapter
begin

text \<open>
  Lemmas on the persisted adapter: the id codec, the unambiguous hold key, the arithmetic of the
  settlement and refund splits, the shape of linked batches, and the paging loop under the
  documented behaviour of the client library (\<open>pages\<close>).
\<close>

section \<open>Identifiers\<close>

lemma le_bytes_Suc: "le_bytes (Suc w) n = (n mod 256) # le_bytes w (n div 256)"
proof -
  have "[0..<Suc w] = 0 # map Suc [0..<w]" by (simp add: map_Suc_upt upt_conv_Cons)
  then show ?thesis by (simp add: le_bytes_def div_mult2_eq)
qed

lemma le_val_le_bytes: "le_val (le_bytes w n) = n mod 256 ^ w"
proof (induction w arbitrary: n)
  case 0
  then show ?case by (simp add: le_bytes_def)
next
  case (Suc w)
  have "n mod (256 * 256 ^ w) = n mod 256 + 256 * (n div 256 mod 256 ^ w)"
    by (simp add: mod_mult2_eq)
  then show ?case using Suc by (simp add: le_bytes_Suc)
qed

lemma length_le_bytes [simp]: "length (le_bytes w n) = w"
  by (simp add: le_bytes_def)

lemma le_bytes_range: "b \<in> set (le_bytes w n) \<Longrightarrow> b < 256"
  by (auto simp: le_bytes_def)

lemma DecodeID_EncodeID_aux: "DecodeID (EncodeID i) = Inr i"
proof -
  have "hex_decode (EncodeID i) = Some (le_bytes 16 (unat i))"
    unfolding EncodeID_def by (rule hex_decode_encode) (rule le_bytes_range)
  moreover have "unat i < 256 ^ 16" using unsigned_less [of i] by simp
  ultimately show ?thesis by (simp add: DecodeID_def BytesToUint128_def le_val_le_bytes)
qed

lemma EncodeID_inj: "EncodeID i = EncodeID j \<longleftrightarrow> i = j"
  by (metis DecodeID_EncodeID_aux sum.inject(2))

lemma pendingBusinessID_inj_aux:
  assumes "pendingBusinessID ad r k g = pendingBusinessID ad r' k' g'"
    "CHR '':'' \<notin> set r" "CHR '':'' \<notin> set r'"
  shows "r = r' \<and> k = k' \<and> g = g'"
proof -
  have "r @ CHR '':'' # (k @ CHR '':'' # decimal g) = r' @ CHR '':'' # (k' @ CHR '':'' # decimal g')"
    using assms(1) by (simp add: pendingBusinessID_def)
  then have r: "r = r'" and kg: "k @ CHR '':'' # decimal g = k' @ CHR '':'' # decimal g'"
    using split_at_delim [OF _ assms(2,3)] by blast+
  have "rev (decimal g) @ CHR '':'' # rev k = rev (decimal g') @ CHR '':'' # rev k'"
    using arg_cong [OF kg, of rev] by simp
  then have "rev (decimal g) = rev (decimal g') \<and> rev k = rev k'"
    by (rule split_at_delim) simp_all
  then show ?thesis using r decimal_inj by auto
qed

section \<open>Split arithmetic\<close>

lemma feeMinor_bounds:
  assumes "0 \<le> gross" "0 \<le> bps" "bps \<le> 10000"
  shows "0 \<le> feeMinor gross bps" "feeMinor gross bps \<le> gross"
    "10000 * feeMinor gross bps \<le> gross * bps" "gross * bps < 10000 * (feeMinor gross bps + 1)"
proof -
  have "gross * bps \<le> gross * 10000" using assms by (intro mult_left_mono) auto
  then have "gross * bps div 10000 \<le> gross * 10000 div 10000" by (rule zdiv_mono1) simp
  then show "feeMinor gross bps \<le> gross" by (simp add: feeMinor_def)
  show "0 \<le> feeMinor gross bps" using assms by (simp add: feeMinor_def pos_imp_zdiv_nonneg_iff)
  show "10000 * feeMinor gross bps \<le> gross * bps" "gross * bps < 10000 * (feeMinor gross bps + 1)"
    unfolding feeMinor_def by presburger+
qed

lemma feeReversal_bounds:
  assumes "0 < gross" "0 \<le> fee" "0 \<le> r"
  shows "0 \<le> feeReversal gross fee r" "gross * feeReversal gross fee r \<le> fee * r"
    "fee * r < gross * (feeReversal gross fee r + 1)"
proof -
  show "0 \<le> feeReversal gross fee r"
    using assms by (simp add: feeReversal_def pos_imp_zdiv_nonneg_iff)
  have "fee * r = gross * (fee * r div gross) + fee * r mod gross" by simp
  moreover have "0 \<le> fee * r mod gross" "fee * r mod gross < gross" using assms(1) by simp_all
  ultimately show "gross * feeReversal gross fee r \<le> fee * r"
    "fee * r < gross * (feeReversal gross fee r + 1)"
    unfolding feeReversal_def distrib_left by linarith+
qed

lemma feeReversal_sum:
  assumes "0 < gross" "0 \<le> fee" "\<forall>r \<in> set rs. 0 \<le> r"
  shows "gross * sum_list (map (feeReversal gross fee) rs) \<le> fee * sum_list rs \<and>
    fee * sum_list rs \<le> gross * (sum_list (map (feeReversal gross fee) rs) + int (length rs))"
  using assms(3)
proof (induction rs)
  case (Cons r rs)
  then show ?case using feeReversal_bounds [OF assms(1,2), of r] by (simp add: algebra_simps)
qed simp

lemma refund_rounding_aux:
  assumes "0 < gross" "0 \<le> fee" "\<forall>r \<in> set rs. 0 < r" "sum_list rs = gross" "rs \<noteq> []"
  shows "sum_list (map (feeReversal gross fee) rs) \<le> fee"
    "fee - (int (length rs) - 1) \<le> sum_list (map (feeReversal gross fee) rs)"
proof -
  let ?S = "sum_list (map (feeReversal gross fee) rs)"
  have pos: "\<forall>r \<in> set rs. 0 \<le> r" using assms(3) by auto
  have "gross * ?S \<le> gross * fee"
    using feeReversal_sum [OF assms(1,2) pos] assms(4) by (simp add: mult.commute)
  then show "?S \<le> fee" using assms(1) by simp
  obtain r rs' where rs: "rs = r # rs'" using assms(5) by (cases rs) auto
  have "fee * sum_list rs' \<le> gross * (sum_list (map (feeReversal gross fee) rs') + int (length rs'))"
    using feeReversal_sum [OF assms(1,2), of rs'] pos rs by simp
  moreover have "fee * r < gross * (feeReversal gross fee r + 1)"
    using feeReversal_bounds(3) [OF assms(1,2), of r] assms(3) rs by simp
  ultimately have "fee * (r + sum_list rs') < gross * (?S + int (length rs))"
    using rs by (simp add: algebra_simps)
  then have "gross * fee < gross * (?S + int (length rs))"
    using assms(4) rs by (simp add: mult.commute)
  then have "fee < ?S + int (length rs)" using assms(1) by simp
  then show "fee - (int (length rs) - 1) \<le> ?S" by simp
qed

section \<open>Linked batches\<close>

lemma legTransfer_sel [simp]:
  "t_Amount (legTransfer linked leg a) = a" "t_Linked (legTransfer linked leg a) = linked"
  by (simp_all add: legTransfer_def zeroTransfer_def)

lemma buildLegs_spec:
  assumes "buildLegs legs = Inr ts"
  shows "length ts = length legs \<and> map (Some \<circ> t_Amount) ts = map leg_Amount legs \<and>
    (\<forall>t \<in> set ts. 0 \<le> t_Amount t) \<and> (\<forall>i < length ts. t_Linked (ts ! i) \<longleftrightarrow> Suc i < length ts)"
  using assms
proof (induction legs arbitrary: ts)
  case (Cons leg legs)
  then obtain a ts' where s: "leg_Amount leg = Some a" "0 \<le> a" "buildLegs legs = Inr ts'"
    "ts = legTransfer (legs \<noteq> []) leg a # ts'"
    by (auto split: option.splits sum.splits if_splits)
  have IH: "length ts' = length legs" "map (Some \<circ> t_Amount) ts' = map leg_Amount legs"
    "\<forall>t \<in> set ts'. 0 \<le> t_Amount t" "\<forall>i < length ts'. t_Linked (ts' ! i) \<longleftrightarrow> Suc i < length ts'"
    using Cons.IH [OF s(3)] by blast+
  have "t_Linked (ts ! i) \<longleftrightarrow> Suc i < length ts" if "i < length ts" for i
    using that IH(1,4) s(4) by (cases i) auto
  then show ?case using s IH(1-3) by (simp add: comp_def)
qed simp

lemma linkedOutcome_applied_iff:
  "linkedOutcome ss = Inr LinkedApplied \<longleftrightarrow>
     (\<forall>s \<in> set ss. s \<in> {TransferCreated, TransferExists, TransferLinkedEventFailed})"
  by (induction ss rule: linkedOutcome.induct) (auto split: TransferStatus.splits)

section \<open>Paging\<close>

text \<open>What the client library documents about \<open>GetAccountTransfers\<close>: the matching transfers in
  timestamp order, from \<open>TimestampMin\<close> on, cut at the limit. \<open>ts\<close> are the matching transfers.\<close>

definition pages :: "'db tbapi \<Rightarrow> 'db \<Rightarrow> AccountFilter \<Rightarrow> Transfer list \<Rightarrow> bool" where
  "pages api db f ts \<longleftrightarrow>
     (\<forall>m. GetAccountTransfers api db (f\<lparr>af_TimestampMin := m\<rparr>) =
        Inr (take (af_Limit f) (filter (\<lambda>t. m \<le> t_Timestamp t) ts)))"

lemma filter_after_take:
  assumes "sorted_wrt (\<lambda>s t. t_Timestamp s < t_Timestamp t) ts" "0 < n" "n \<le> length ts"
  shows "filter (\<lambda>t. t_Timestamp (ts ! (n - 1)) + 1 \<le> t_Timestamp t) ts = drop n ts"
proof -
  have "ts = take n ts @ drop n ts" by simp
  moreover have "filter (\<lambda>t. t_Timestamp (ts ! (n - 1)) + 1 \<le> t_Timestamp t) (take n ts) = []"
  proof -
    have "t_Timestamp (ts ! i) \<le> t_Timestamp (ts ! (n - 1))" if "i < n" for i
    proof (cases "i = n - 1")
      case False
      then have "i < n - 1" "n - 1 < length ts" using that assms(2,3) by auto
      then show ?thesis using sorted_wrt_nth_less [OF assms(1)] less_imp_le by blast
    qed simp
    then have "\<not> t_Timestamp (ts ! (n - 1)) + 1 \<le> t_Timestamp (ts ! i)" if "i < n" for i
      using that by (metis Suc_eq_plus1 not_less_eq_eq)
    then show ?thesis using assms(3) by (auto simp: filter_empty_conv in_set_conv_nth)
  qed
  moreover have "filter (\<lambda>t. t_Timestamp (ts ! (n - 1)) + 1 \<le> t_Timestamp t) (drop n ts) = drop n ts"
  proof -
    have "t_Timestamp (ts ! (n - 1)) < t_Timestamp (ts ! (n + i))" if "n + i < length ts" for i
      using sorted_wrt_nth_less [OF assms(1), of "n - 1" "n + i"] that assms(2) by simp
    then show ?thesis by (auto simp: filter_id_conv in_set_conv_nth Suc_le_eq)
  qed
  ultimately show ?thesis by (metis append_Nil filter_append)
qed

lemma sumRefundsFrom_total:
  assumes "pages api db f ts" "af_Limit f = refundPageLimit"
    "sorted_wrt (\<lambda>s t. t_Timestamp s < t_Timestamp t) rest"
    "\<forall>t \<in> set ts. t_Timestamp t < 2 ^ 64 - 1"
    "filter (\<lambda>t. af_TimestampMin f \<le> t_Timestamp t) ts = rest"
  shows "sumRefundsFrom api db f acc = Some (Inr (acc + sum_list (map t_Amount rest)))"
  using assms
proof (induction "length rest" arbitrary: f acc rest rule: less_induct)
  case less
  have page: "GetAccountTransfers api db f = Inr (take refundPageLimit rest)"
  proof -
    have "f\<lparr>af_TimestampMin := af_TimestampMin f\<rparr> = f" by simp
    then show ?thesis using less(2,3,6) unfolding pages_def by metis
  qed
  show ?case
  proof (cases "length rest < refundPageLimit")
    case True
    then show ?thesis using page by (simp add: sumRefundsFrom.simps [of api db f])
  next
    case False
    let ?n = refundPageLimit
    have n: "0 < ?n" "?n \<le> length rest" using False by (simp_all add: refundPageLimit_def)
    let ?last = "rest ! (?n - 1)"
    have last: "last (take ?n rest) = ?last"
    proof -
      have "take ?n rest \<noteq> []" using n by auto
      then have "last (take ?n rest) = take ?n rest ! (length (take ?n rest) - 1)" by (rule last_conv_nth)
      then show ?thesis using n by (simp add: min_def)
    qed
    have "?last \<in> set rest" using n by (intro nth_mem) simp
    then have mem: "?last \<in> set ts" and low: "af_TimestampMin f \<le> t_Timestamp ?last"
      using less(6) by auto
    then have wrap: "wrapu64 (t_Timestamp ?last + 1) = t_Timestamp ?last + 1"
      using less(5) by (intro wrapu64_id) auto
    let ?f = "f\<lparr>af_TimestampMin := t_Timestamp ?last + 1\<rparr>"
    have after: "filter (\<lambda>t. t_Timestamp ?last + 1 \<le> t_Timestamp t) rest = drop ?n rest"
      by (rule filter_after_take [OF less(4) n])
    have "filter (\<lambda>t. t_Timestamp ?last + 1 \<le> t_Timestamp t) ts = drop ?n rest"
    proof -
      have "filter (\<lambda>t. t_Timestamp ?last + 1 \<le> t_Timestamp t) ts =
          filter (\<lambda>t. t_Timestamp ?last + 1 \<le> t_Timestamp t) (filter (\<lambda>t. af_TimestampMin f \<le> t_Timestamp t) ts)"
        using low by (simp only: filter_filter) (rule filter_cong, auto)
      then show ?thesis using less(6) after by simp
    qed
    moreover have "pages api db ?f ts" using less(2) by (simp add: pages_def)
    moreover have "sorted_wrt (\<lambda>s t. t_Timestamp s < t_Timestamp t) (drop ?n rest)"
      using less(4) by (rule sorted_wrt_drop)
    ultimately have "sumRefundsFrom api db ?f (acc + sum_list (map t_Amount (take ?n rest))) =
        Some (Inr (acc + sum_list (map t_Amount (take ?n rest)) + sum_list (map t_Amount (drop ?n rest))))"
      using less(1) [of "drop ?n rest" ?f] less(3,5) n by simp
    moreover have "sum_list (map t_Amount rest) =
        sum_list (map t_Amount (take ?n rest)) + sum_list (map t_Amount (drop ?n rest))"
      by (metis append_take_drop_id map_append sum_list_append)
    ultimately show ?thesis
      using page False n last wrap by (simp add: sumRefundsFrom.simps [of api db f] min_def)
  qed
qed

end
