(* ===== verification/TigerBeetle_Properties.thy ===== *)
theory TigerBeetle_Properties
  imports TigerBeetle_Laws
begin

text \<open>
  Properties of the persisted adapter: id round trip, unambiguous hold keys, exact money
  conversion, the settlement and refund batches, refund rounding, the generation probe, the refund
  paging loop, and the order of the balance check in Authorize. \<open>ex_api\<close> is a client that logs every
  transfer batch, used as the concrete instance.
\<close>

text \<open>Billing ids round-trip: decoding the hex form of a ledger id yields that id.\<close>

theorem DecodeID_EncodeID: "DecodeID (EncodeID i) = Inr i"
  by (rule DecodeID_EncodeID_aux)

text \<open>The business id a hold is derived from is unambiguous: for account refs without a colon
  (the guard of \<open>pendingID\<close>), two holds with the same business id have the same account, the same
  idempotency key and the same generation, whatever colons the key contains.\<close>

theorem pendingBusinessID_inj:
  assumes "pendingBusinessID ad r k g = pendingBusinessID ad r' k' g'"
    "CHR '':'' \<notin> set r" "CHR '':'' \<notin> set r'"
  shows "r = r' \<and> k = k' \<and> g = g'"
  by (rule pendingBusinessID_inj_aux [OF assms])

definition ex_api :: "int \<Rightarrow> int \<Rightarrow> Transfer list list tbapi" where
  "ex_api credits held = \<lparr>CreateTransfers = (\<lambda>db ts. (db @ [ts], Inr [])),
     LookupTransfers = (\<lambda>db ids. Inr [zeroTransfer\<lparr>t_ID := hd ids, t_Amount := credits\<rparr>]),
     CreateAccounts = (\<lambda>db as. (db, Inr [])),
     LookupAccounts = (\<lambda>db ids. Inr [\<lparr>acc_ID = hd ids, acc_Ledger = 1, acc_Code = 1,
        acc_Flags = AgentAccountFlags, CreditsPosted = credits, DebitsPosted = 0, DebitsPending = held\<rparr>]),
     GetAccountTransfers = (\<lambda>db f. Inr [])\<rparr>"

lemma rateBps_0 [simp]: "rateBps 0 = 0"
  by (simp add: rateBps_def int64_def min_int64_def max_int64_def)

definition ex_ad :: tbAdapter where
  "ex_ad = NewTigerBeetleAdapter 1 ''USD'' 0 ''''"

theorem pendingBusinessID_inj_witness:
  "pendingBusinessID ex_ad ''ref'' ''k:1'' 0 \<noteq> pendingBusinessID ex_ad ''ref'' ''k'' 10"
  using pendingBusinessID_inj [of ex_ad "''ref''" "''k:1''" 0 "''ref''" "''k''" 10] by auto

text \<open>Minor-unit conversion is exact and inverse to the balance read: \<open>toMinor\<close> succeeds exactly
  on the values that are an integer number of \<open>10^-8\<close> units, and \<open>fromMinor\<close> takes the result back.\<close>

theorem toMinor_exact:
  "(toMinor m = Inr n \<longleftrightarrow> Value m = Some (of_int n / of_int ScaleFactor)) \<and>
   toMinor (fromMinor ad n) = Inr n"
proof -
  have "toMinor m = Inr n \<longleftrightarrow> Value m = Some (of_int n / of_int ScaleFactor)" for m :: Amount
  proof (cases "Value m")
    case None
    then show ?thesis by (simp add: toMinor_def MinorUnits_def)
  next
    case (Some x)
    have "toMinor m = Inr n \<longleftrightarrow> MinorUnits (Some x) = Inr n"
      using Some by (auto simp: toMinor_def split: sum.splits money_error.splits)
    also have "\<dots> \<longleftrightarrow> x = of_int n / of_int ScaleFactor"
      unfolding MinorUnits_iff by (auto simp: field_simps ScaleFactor_def)
    finally show ?thesis using Some by simp
  qed
  then show ?thesis by (simp add: fromMinor_def)
qed














text \<open>Partial refunds that add up to the charge never reverse more fee than was posted, and
  fall short of it by less than one minor unit per refund; the owner therefore gives back at least
  the net it received and at most one minor unit more per refund after the first.\<close>

theorem refund_rounding:
  assumes "0 < gross" "0 \<le> bps" "bps \<le> 10000" "\<forall>r \<in> set rs. 0 < r" "sum_list rs = gross" "rs \<noteq> []"
  shows "sum_list (map (feeReversal gross (feeMinor gross bps)) rs) \<le> feeMinor gross bps \<and>
    feeMinor gross bps - (int (length rs) - 1) \<le> sum_list (map (feeReversal gross (feeMinor gross bps)) rs)"
proof -
  have "0 \<le> feeMinor gross bps" using feeMinor_bounds(1) assms(1-3) by simp
  then show ?thesis using refund_rounding_aux assms(1,4-6) by blast
qed

theorem refund_rounding_witness:
  "sum_list (map (feeReversal 10 (feeMinor 10 3000)) [4, 3, 3]) \<le> feeMinor 10 3000"
  using refund_rounding [of 10 3000 "[4, 3, 3]"] by simp




definition probe_stops :: "'db tbapi \<Rightarrow> tbAdapter \<Rightarrow> 'db \<Rightarrow> holdParams \<Rightarrow> nat \<Rightarrow> bool" where
  "probe_stops api ad db h gen \<longleftrightarrow>
     (case pendingID ad (h_billingRef h) (h_authKey h) gen of
        Inl _ \<Rightarrow> True
      | Inr pid \<Rightarrow> (\<forall>post. tb_classifyHold api ad db pid \<noteq> Inr (HoldResolved, post)))"

lemma tb_reserve_from_skip:
  "\<not> probe_stops api ad db h gen \<Longrightarrow> tb_reserve_from api ad db h (gen # gens) = tb_reserve_from api ad db h gens"
  by (auto simp: probe_stops_def split: sum.splits)

lemma tb_reserve_from_stop:
  "probe_stops api ad db h gen \<Longrightarrow> tb_reserve_from api ad db h (gen # gens) = tb_reserve_from api ad db h [gen]"
  by (auto simp: probe_stops_def split: sum.splits HoldState.splits)

text \<open>The generation probe stops at the first generation that is not resolved: with every earlier
  generation resolved, the outcome of the whole loop is the outcome at that generation (the id of a
  live hold, a new hold on a free slot, or the error of the probe).\<close>

theorem tb_reserve_first_open:
  assumes "\<forall>n < gen. \<not> probe_stops api ad db h n" "probe_stops api ad db h gen" "gen < maxAuthGenerations"
  shows "tb_reserve api ad db h = tb_reserve_from api ad db h [gen]"
proof -
  have "tb_reserve_from api ad db h (ns @ rest) = tb_reserve_from api ad db h rest"
    if "\<forall>n \<in> set ns. \<not> probe_stops api ad db h n" for ns rest
    using that by (induction ns) (simp_all add: tb_reserve_from_skip del: tb_reserve_from.simps)
  moreover have "[0..<maxAuthGenerations] = [0..<gen] @ gen # [Suc gen..<maxAuthGenerations]"
    using assms(3) upt_add_eq_append [of 0 gen "maxAuthGenerations - gen"]
    by (simp add: upt_conv_Cons)
  ultimately show ?thesis
    using assms(1,2) tb_reserve_from_stop by (simp add: tb_reserve_def del: tb_reserve_from.simps)
qed

theorem tb_reserve_first_open_witness:
  "let api = (ex_api 5 0)\<lparr>LookupTransfers := (\<lambda>db ids. Inr [])\<rparr>;
       h = \<lparr>h_billingRef = ''r'', h_authKey = ''k'', h_agentAcct = 1, h_owner = 2, h_minor = 5, h_bps = 0\<rparr>
   in tb_reserve api ex_ad [] h = tb_reserve_from api ex_ad [] h [0]"
  unfolding Let_def
  by (rule tb_reserve_first_open)
    (auto simp: probe_stops_def tb_classifyHold_def ClassifyHold_def lookupTransferSet_def ex_api_def
      maxAuthGenerations_def split: sum.splits prod.splits)

text \<open>C10. Paging adds up: when the client pages the matching transfers in timestamp order as it
  documents, the refund total terminates and is the sum of all of them, however many pages they span.\<close>

theorem SumAccountRefunds_total:
  assumes "pages api db \<lparr>af_AccountID = account, af_UserData128 = grp, af_Code = transfer_code code,
      af_TimestampMin = 0, af_Limit = refundPageLimit\<rparr> ts"
    "sorted_wrt (\<lambda>s t. t_Timestamp s < t_Timestamp t) ts" "\<forall>t \<in> set ts. t_Timestamp t < 2 ^ 64 - 1"
  shows "SumAccountRefunds api db account grp code = Some (Inr (sum_list (map t_Amount ts)))"
  unfolding SumAccountRefunds_def
  by (subst sumRefundsFrom_total [OF assms(1) _ assms(2,3)]) simp_all

theorem SumAccountRefunds_total_witness:
  "let t = (\<lambda>n. zeroTransfer\<lparr>t_Amount := 2, t_Timestamp := n\<rparr>); ts = map t [0..<600];
       api = (ex_api 5 0)\<lparr>GetAccountTransfers :=
         (\<lambda>db f. Inr (take (af_Limit f) (filter (\<lambda>t. af_TimestampMin f \<le> t_Timestamp t) ts)))\<rparr>
   in SumAccountRefunds api [] 1 2 CodeRefund = Some (Inr 1200)"
proof -
  let ?t = "\<lambda>n. zeroTransfer\<lparr>t_Amount := 2, t_Timestamp := n\<rparr>"
  let ?ts = "map ?t [0..<600]"
  let ?api = "(ex_api 5 0)\<lparr>GetAccountTransfers :=
         (\<lambda>db f. Inr (take (af_Limit f) (filter (\<lambda>t. af_TimestampMin f \<le> t_Timestamp t) ?ts)))\<rparr>"
  have "SumAccountRefunds ?api [] 1 2 CodeRefund = Some (Inr (sum_list (map t_Amount ?ts)))"
    by (rule SumAccountRefunds_total)
      (auto simp: pages_def zeroTransfer_def sorted_wrt_map sorted_wrt_upt)
  moreover have "sum_list (map t_Amount ?ts) = 1200"
    by (simp add: zeroTransfer_def comp_def map_replicate_const sum_list_replicate)
  ultimately show ?thesis by (simp add: Let_def)
qed

end
