(* ===== verification/Exchange_Error.thy ===== *)
theory Exchange_Error
  imports Billing_Adapter
begin

text \<open>
  The error vocabulary of the Exchange (\<open>exchange/error.go\<close>), the denial table that decides
  whether a failed batch item is a per-item denial or aborts the batch (\<open>service/denial.go\<close>), and
  the mapping of billing sentinels to kinds (\<open>service/billing_errors.go\<close>). The free-text message
  and the wrapped cause of an error are not modelled: the code calls the message non-authoritative
  and no branch reads it. \<open>OtherErr\<close> is an error with no \<open>*exchange.Error\<close> in its chain.
\<close>

datatype Kind =
    KindUnspecified | KindInvalidRequest | KindNotFound | KindSignatureInvalid | KindBillingDenied
  | KindIdempotent | KindInternal | KindUnauthenticated | KindFailedPrecondition
  | KindPermissionDenied | KindUnimplemented | KindEntitlementMissing | KindEntitlementMalformed
  | KindEntitlementExpired | KindEntitlementWrongBuyer | KindSubscriptionLapsed
  | KindEntitlementNotGranted | KindOfferExpired | KindUnavailable | KindAccountNotRegistered
  | KindAccountInactive | KindRegistrationDataInvalid | KindTermsDigestStale
  | KindContentUnavailable | KindReportingOverdue

datatype Code =
    CodeInvalidArgument | CodeNotFound | CodeUnauthenticated | CodePermissionDenied
  | CodeAlreadyExists | CodeInternal | CodeFailedPrecondition | CodeUnimplemented
  | CodeUnavailable | CodeResourceExhausted | CodeUnknown

datatype DenialReason =
    DENIAL_REASON_UNSPECIFIED | DENIAL_REASON_CONTENT_UNAVAILABLE
  | DENIAL_REASON_INSUFFICIENT_BALANCE | DENIAL_REASON_ACCOUNT_NOT_REGISTERED
  | DENIAL_REASON_ACCOUNT_INACTIVE | DENIAL_REASON_SIGNATURE_INVALID | DENIAL_REASON_OFFER_EXPIRED
  | DENIAL_REASON_ENTITLEMENT_MISSING | DENIAL_REASON_ENTITLEMENT_MALFORMED
  | DENIAL_REASON_ENTITLEMENT_EXPIRED | DENIAL_REASON_ENTITLEMENT_WRONG_BUYER
  | DENIAL_REASON_SUBSCRIPTION_LAPSED | DENIAL_REASON_ENTITLEMENT_NOT_GRANTED
  | DENIAL_REASON_REPORTING_OVERDUE

record exchange_error =
  err_Kind :: Kind
  err_Metadata :: "(string \<times> string) list"

datatype svc_error = DomainErr exchange_error | OtherErr string

definition Newf :: "Kind \<Rightarrow> svc_error" where
  "Newf k = DomainErr \<lparr>err_Kind = k, err_Metadata = []\<rparr>"

fun WithMeta :: "svc_error \<Rightarrow> string \<Rightarrow> string \<Rightarrow> svc_error" where
  "WithMeta (DomainErr e) k v = DomainErr (e\<lparr>err_Metadata := AList.update k v (err_Metadata e)\<rparr>)"
| "WithMeta (OtherErr s) k v = OtherErr s"

definition WithField :: "svc_error \<Rightarrow> string \<Rightarrow> svc_error" where
  "WithField e name = WithMeta e ''field'' name"

fun kindOf :: "svc_error \<Rightarrow> Kind option" where
  "kindOf (DomainErr e) = Some (err_Kind e)"
| "kindOf (OtherErr _) = None"

fun ConnectCode :: "Kind \<Rightarrow> Code" where
  "ConnectCode KindInvalidRequest = CodeInvalidArgument"
| "ConnectCode KindRegistrationDataInvalid = CodeInvalidArgument"
| "ConnectCode KindNotFound = CodeNotFound"
| "ConnectCode KindContentUnavailable = CodeNotFound"
| "ConnectCode KindSignatureInvalid = CodeUnauthenticated"
| "ConnectCode KindBillingDenied = CodePermissionDenied"
| "ConnectCode KindAccountNotRegistered = CodePermissionDenied"
| "ConnectCode KindAccountInactive = CodePermissionDenied"
| "ConnectCode KindReportingOverdue = CodePermissionDenied"
| "ConnectCode KindIdempotent = CodeAlreadyExists"
| "ConnectCode KindInternal = CodeInternal"
| "ConnectCode KindUnauthenticated = CodeUnauthenticated"
| "ConnectCode KindFailedPrecondition = CodeFailedPrecondition"
| "ConnectCode KindTermsDigestStale = CodeFailedPrecondition"
| "ConnectCode KindPermissionDenied = CodePermissionDenied"
| "ConnectCode KindUnimplemented = CodeUnimplemented"
| "ConnectCode KindOfferExpired = CodeUnauthenticated"
| "ConnectCode KindUnavailable = CodeUnavailable"
| "ConnectCode KindEntitlementMissing = CodeUnauthenticated"
| "ConnectCode KindEntitlementMalformed = CodeUnauthenticated"
| "ConnectCode KindEntitlementExpired = CodeUnauthenticated"
| "ConnectCode KindEntitlementWrongBuyer = CodeUnauthenticated"
| "ConnectCode KindSubscriptionLapsed = CodeUnauthenticated"
| "ConnectCode KindEntitlementNotGranted = CodeUnauthenticated"
| "ConnectCode KindUnspecified = CodeUnknown"

fun ToConnect :: "svc_error \<Rightarrow> Code" where
  "ToConnect (DomainErr e) = ConnectCode (err_Kind e)"
| "ToConnect (OtherErr _) = CodeInternal"

fun denialReasonByKind :: "Kind \<Rightarrow> DenialReason option" where
  "denialReasonByKind KindContentUnavailable = Some DENIAL_REASON_CONTENT_UNAVAILABLE"
| "denialReasonByKind KindBillingDenied = Some DENIAL_REASON_INSUFFICIENT_BALANCE"
| "denialReasonByKind KindAccountNotRegistered = Some DENIAL_REASON_ACCOUNT_NOT_REGISTERED"
| "denialReasonByKind KindAccountInactive = Some DENIAL_REASON_ACCOUNT_INACTIVE"
| "denialReasonByKind KindSignatureInvalid = Some DENIAL_REASON_SIGNATURE_INVALID"
| "denialReasonByKind KindOfferExpired = Some DENIAL_REASON_OFFER_EXPIRED"
| "denialReasonByKind KindEntitlementMissing = Some DENIAL_REASON_ENTITLEMENT_MISSING"
| "denialReasonByKind KindEntitlementMalformed = Some DENIAL_REASON_ENTITLEMENT_MALFORMED"
| "denialReasonByKind KindEntitlementExpired = Some DENIAL_REASON_ENTITLEMENT_EXPIRED"
| "denialReasonByKind KindEntitlementWrongBuyer = Some DENIAL_REASON_ENTITLEMENT_WRONG_BUYER"
| "denialReasonByKind KindSubscriptionLapsed = Some DENIAL_REASON_SUBSCRIPTION_LAPSED"
| "denialReasonByKind KindEntitlementNotGranted = Some DENIAL_REASON_ENTITLEMENT_NOT_GRANTED"
| "denialReasonByKind KindReportingOverdue = Some DENIAL_REASON_REPORTING_OVERDUE"
| "denialReasonByKind _ = None"

text \<open>The second component of the pair is Go's \<open>ok\<close>.\<close>

fun DenialReasonForKind :: "svc_error \<Rightarrow> DenialReason \<times> bool" where
  "DenialReasonForKind (OtherErr _) = (DENIAL_REASON_UNSPECIFIED, False)"
| "DenialReasonForKind (DomainErr e) =
     (case denialReasonByKind (err_Kind e) of
        Some r \<Rightarrow> (r, True)
      | None \<Rightarrow> (DENIAL_REASON_UNSPECIFIED, False))"

fun billingErrorKind :: "billing_error \<Rightarrow> Kind" where
  "billingErrorKind ErrRefundUnsupported = KindUnimplemented"
| "billingErrorKind ErrUnknownBillingID = KindNotFound"
| "billingErrorKind ErrRefundBeforeRecord = KindFailedPrecondition"
| "billingErrorKind ErrRefundExceedsRecord = KindFailedPrecondition"
| "billingErrorKind ErrUnknownPayee = KindFailedPrecondition"
| "billingErrorKind ErrInvalidAmount = KindInvalidRequest"
| "billingErrorKind ErrAmountNotRepresentable = KindInvalidRequest"
| "billingErrorKind ErrInsufficientBalance = KindBillingDenied"
| "billingErrorKind ErrBackendUnavailable = KindUnavailable"
| "billingErrorKind _ = KindInternal"

definition ResolveFeeRateBps :: "int \<Rightarrow> int option \<Rightarrow> int" where
  "ResolveFeeRateBps tenantDefault override =
     (case override of Some r \<Rightarrow> r | None \<Rightarrow> tenantDefault)"

section \<open>Facts\<close>

definition is_denial :: "svc_error \<Rightarrow> bool" where
  "is_denial e = snd (DenialReasonForKind e)"

lemma DenialReasonForKind_Newf [simp]:
  "DenialReasonForKind (Newf k) =
     (case denialReasonByKind k of Some r \<Rightarrow> (r, True) | None \<Rightarrow> (DENIAL_REASON_UNSPECIFIED, False))"
  by (simp add: Newf_def)

lemma kindOf_Newf [simp]: "kindOf (Newf k) = Some k"
  by (simp add: Newf_def)

lemma denialReasonByKind_inj:
  "denialReasonByKind k = Some r \<Longrightarrow> denialReasonByKind k' = Some r \<Longrightarrow> k = k'"
  by (cases k; cases k') auto

lemma denialReasonByKind_code:
  "denialReasonByKind k = Some r \<Longrightarrow>
     ConnectCode k \<in> {CodeNotFound, CodePermissionDenied, CodeUnauthenticated}"
  by (cases k) auto

lemma billing_denial_iff:
  "(\<exists>r. denialReasonByKind (billingErrorKind e) = Some r) \<longleftrightarrow> e = ErrInsufficientBalance"
  by (cases e) auto

end
