(* ===== verification/Float64.thy ===== *)
theory Float64
  imports Ramp_Prelude "HOL-Library.Log_Nat"
begin

text \<open>
  Go's \<open>float64\<close> on rational values: \<open>round64\<close> is rounding to nearest, ties to even, at 53 bits of
  precision with gradual underflow. A float is the rational it denotes; the range above the largest
  finite float (infinities) and NaN are not represented, and the code below never reaches them.
\<close>

definition pow2 :: "int \<Rightarrow> rat" where
  "pow2 e = (if 0 \<le> e then 2 ^ nat e else 1 / 2 ^ nat (- e))"

definition round_half_even :: "rat \<Rightarrow> int" where
  "round_half_even x =
     (let f = \<lfloor>x\<rfloor>; d = x - of_int f
      in if d < 1 / 2 then f else if 1 / 2 < d then f + 1 else if even f then f else f + 1)"

definition binade :: "rat \<Rightarrow> int" where
  "binade x =
     (let (n, d) = quotient_of \<bar>x\<bar>; e = bitlen n - bitlen d - 53
      in if \<bar>x\<bar> < 2 ^ 53 * pow2 e then e else e + 1)"

definition round64 :: "rat \<Rightarrow> rat" where
  "round64 x =
     (if x = 0 then 0
      else let e = max (- 1074) (binade x) in of_int (round_half_even (x / pow2 e)) * pow2 e)"

definition fmul64 :: "rat \<Rightarrow> rat \<Rightarrow> rat" where
  "fmul64 x y = round64 (x * y)"

definition trunc :: "rat \<Rightarrow> int" where
  "trunc x = (if 0 \<le> x then \<lfloor>x\<rfloor> else - \<lfloor>- x\<rfloor>)"

lemma pow2_pos [simp]: "0 < pow2 e"
  by (simp add: pow2_def)

lemma round_half_even_nonneg: "0 \<le> x \<Longrightarrow> 0 \<le> round_half_even x"
  by (simp add: round_half_even_def Let_def)

lemma round64_nonneg: "0 \<le> x \<Longrightarrow> 0 \<le> round64 x"
  by (auto simp: round64_def Let_def less_imp_le
      intro!: mult_nonneg_nonneg round_half_even_nonneg divide_nonneg_nonneg)

lemma trunc_nonneg: "0 \<le> x \<Longrightarrow> 0 \<le> trunc x"
  by (simp add: trunc_def)

end
