(* ===== verification/Exchange_Store.thy ===== *)
theory Exchange_Store
  imports Exchange_Error Float64
begin

text \<open>
  The Exchange's database tables as lists of rows and the statements the repositories run on them:
  reporting obligations (\<open>repo/obligation.go\<close>, \<open>db/queries/reporting_obligations.sql\<close>), the
  transaction log and the request claims (\<open>repo/transaction.go\<close>,
  \<open>db/queries/transaction_request_claims.sql\<close>). A NULL column is \<open>None\<close>; an UPDATE is a map over
  the rows its WHERE clause matches; a unique index is a check the statement fails on. Instants
  are nanoseconds. Where two rows tie under ORDER BY the first one is taken.
\<close>

section \<open>Rows\<close>

datatype ObligationState = ObligationStatePending | ObligationStateReceived

datatype ValidationOutcome =
    ValidationOutcomeValidated | ValidationOutcomeRejectedFields
  | ValidationOutcomeRejectedTolerance | ValidationOutcomeRejectedBillingID
  | ValidationOutcomeRejectedTimestamp | ValidationOutcomeRejectedWindow
  | ValidationOutcomeRejectedExchange

record Obligation =
  ob_ID :: string
  ob_TransactionID :: string
  ob_State :: ObligationState
  ob_WindowSeconds :: "int option"
  ob_Deadline :: int
  ob_ConsumedQuantity :: "int option"
  ob_ReceivedAt :: "int option"
  ob_CreatedAt :: int
  ob_RequiredFields :: "string list"
  ob_EstimatedQuantity :: int
  ob_QuantityTolerance :: rat
  ob_ValidationOutcome :: "ValidationOutcome option"
  ob_ValidatedAt :: "int option"
  ob_SourceReportID :: "string option"
  ob_IssuedReportID :: "string option"

record TransactionRecord =
  tl_TransactionID :: string
  tl_IdempotencyKey :: string
  tl_TenantID :: string
  tl_AgentID :: string
  tl_ResourceID :: string
  tl_OfferID :: string
  tl_AgentIdentityHash :: string
  tl_SignedURLHash :: string
  tl_Expiry :: int
  tl_BillingID :: "string option"
  tl_UnitCostDecimal :: string
  tl_Currency :: string
  tl_CreatedAt :: int
  tl_ResultPayload :: "string option"

record PersistTxIntent =
  in_TransactionID :: string
  in_IdempotencyKey :: string
  in_ObligationID :: string
  in_TenantID :: string
  in_AgentID :: string
  in_ResourceID :: string
  in_OfferID :: string
  in_AgentIdentityHash :: string
  in_SignedURLHash :: string
  in_Expiry :: int
  in_ResultPayload :: "string option"
  in_BillingID :: string
  in_UnitCostDecimal :: string
  in_Currency :: string
  in_State :: ObligationState
  in_WindowSeconds :: int
  in_Deadline :: int
  in_RequiredFields :: "string list"
  in_EstimatedQuantity :: int
  in_QuantityTolerance :: rat

record RequestClaim =
  cl_AgentID :: string
  cl_IdempotencyKey :: string
  cl_ItemsDigest :: string
  cl_ResponsePayload :: "string option"

record Tenant =
  tn_ID :: string
  tn_Domain :: string
  tn_ReportingPolicy :: string
  tn_AllowBrokerRelay :: bool
  tn_FeeRateBps :: int

record store =
  obligations :: "Obligation list"
  transactions :: "TransactionRecord list"
  claims :: "RequestClaim list"
  tenants :: "Tenant list"

record ReportValidationContext =
  rc_Obligation :: Obligation
  rc_TransactionID :: string
  rc_BillingID :: string
  rc_CreatedAt :: int
  rc_TenantID :: string
  rc_AgentID :: string
  rc_AllowBrokerRelay :: bool

datatype repo_error =
    ErrObligationNotFound | ErrObligationAlreadyReported | ErrTransactionNotFound
  | ErrUniqueViolation | ErrIdempotencyUnique | ErrNumericOverflow | ErrDatabase

definition textOrEmpty :: "string option \<Rightarrow> string" where
  "textOrEmpty t = (case t of None \<Rightarrow> [] | Some s \<Rightarrow> s)"

definition pgText :: "string \<Rightarrow> string option" where
  "pgText s = (if s = [] then None else Some s)"

section \<open>Obligations\<close>

text \<open>\<open>shortest\<close> is \<open>strconv.FormatFloat\<close> with precision -1, as the decimal value it prints; the
  column NUMERIC(5,4) rounds half away from zero and overflows at ten.\<close>

definition numeric54 :: "rat \<Rightarrow> (repo_error, rat) res" where
  "numeric54 x =
     (let r = (if 0 \<le> x then \<lfloor>x * 10000 + 1 / 2\<rfloor> else - \<lfloor>- x * 10000 + 1 / 2\<rfloor>)
      in if \<bar>r\<bar> < 100000 then Inr (of_int r / 10000) else Inl ErrNumericOverflow)"

definition numericFromFloat :: "(rat \<Rightarrow> rat) \<Rightarrow> rat \<Rightarrow> (repo_error, rat) res" where
  "numericFromFloat shortest f = numeric54 (shortest f)"

definition floatFromNumeric :: "rat \<Rightarrow> rat" where
  "floatFromNumeric n = round64 n"

definition ob_CreateForOffer ::
  "(rat \<Rightarrow> rat) \<Rightarrow> int \<Rightarrow> PersistTxIntent \<Rightarrow> Obligation list \<Rightarrow> (repo_error, Obligation list) res" where
  "ob_CreateForOffer shortest dbNow intent obs =
     (case numericFromFloat shortest (in_QuantityTolerance intent) of
        Inl e \<Rightarrow> Inl e
      | Inr tol \<Rightarrow>
          if in_ObligationID intent \<in> set (map ob_ID obs) then Inl ErrUniqueViolation
          else Inr (obs @ [\<lparr>ob_ID = in_ObligationID intent, ob_TransactionID = in_TransactionID intent,
            ob_State = in_State intent,
            ob_WindowSeconds = (if 0 < in_WindowSeconds intent then Some (in_WindowSeconds intent) else None),
            ob_Deadline = in_Deadline intent, ob_ConsumedQuantity = None, ob_ReceivedAt = None,
            ob_CreatedAt = dbNow, ob_RequiredFields = in_RequiredFields intent,
            ob_EstimatedQuantity = in_EstimatedQuantity intent, ob_QuantityTolerance = tol,
            ob_ValidationOutcome = None, ob_ValidatedAt = None, ob_SourceReportID = None,
            ob_IssuedReportID = None\<rparr>]))"

fun latest :: "Obligation list \<Rightarrow> Obligation option" where
  "latest [] = None"
| "latest (x # xs) =
     (case latest xs of
        None \<Rightarrow> Some x
      | Some y \<Rightarrow> if ob_CreatedAt x < ob_CreatedAt y then Some y else Some x)"

definition ByTransaction :: "string \<Rightarrow> Obligation list \<Rightarrow> (repo_error, Obligation) res" where
  "ByTransaction txid obs =
     (case latest (filter (\<lambda>x. ob_TransactionID x = txid) obs) of
        None \<Rightarrow> Inl ErrObligationNotFound
      | Some x \<Rightarrow> Inr x)"

definition txByID :: "string \<Rightarrow> store \<Rightarrow> TransactionRecord option" where
  "txByID txid st = find (\<lambda>t. tl_TransactionID t = txid) (transactions st)"

definition tenantByID :: "string \<Rightarrow> store \<Rightarrow> Tenant option" where
  "tenantByID tid st = find (\<lambda>t. tn_ID t = tid) (tenants st)"

definition LoadForReport :: "string \<Rightarrow> store \<Rightarrow> (repo_error, ReportValidationContext) res" where
  "LoadForReport txid st =
     (case (ByTransaction txid (obligations st), txByID txid st) of
        (Inr x, Some t) \<Rightarrow>
          (case tenantByID (tl_TenantID t) st of
             None \<Rightarrow> Inl ErrObligationNotFound
           | Some tn \<Rightarrow>
               Inr \<lparr>rc_Obligation = x, rc_TransactionID = ob_TransactionID x,
                 rc_BillingID = textOrEmpty (tl_BillingID t), rc_CreatedAt = tl_CreatedAt t,
                 rc_TenantID = tl_TenantID t, rc_AgentID = tl_AgentID t,
                 rc_AllowBrokerRelay = tn_AllowBrokerRelay tn\<rparr>)
      | _ \<Rightarrow> Inl ErrObligationNotFound)"

definition FindAcceptedBySourceReportID ::
  "string \<Rightarrow> string \<Rightarrow> Obligation list \<Rightarrow> (repo_error, Obligation) res" where
  "FindAcceptedBySourceReportID txid src obs =
     (case find (\<lambda>x. ob_TransactionID x = txid \<and> src \<noteq> [] \<and> ob_SourceReportID x = Some src \<and>
                     ob_IssuedReportID x \<noteq> None) obs of
        None \<Rightarrow> Inl ErrObligationNotFound
      | Some x \<Rightarrow> Inr x)"

definition source_idx_ok :: "Obligation list \<Rightarrow> bool" where
  "source_idx_ok obs =
     distinct (map (\<lambda>x. (ob_TransactionID x, ob_SourceReportID x))
       (filter (\<lambda>x. ob_SourceReportID x \<noteq> None) obs))"

text \<open>An UPDATE guarded by \<open>obligation_id = id AND state = 'PENDING'\<close>, with its RETURNING row.\<close>

definition updatePending ::
  "string \<Rightarrow> (Obligation \<Rightarrow> Obligation) \<Rightarrow> Obligation list \<Rightarrow> (repo_error, Obligation \<times> Obligation list) res" where
  "updatePending oid upd obs =
     (let hit = (\<lambda>x. ob_ID x = oid \<and> ob_State x = ObligationStatePending);
          obs' = map (\<lambda>x. if hit x then upd x else x) obs
      in case find hit obs of
           None \<Rightarrow> Inl ErrObligationAlreadyReported
         | Some x \<Rightarrow> if source_idx_ok obs' then Inr (upd x, obs') else Inl ErrUniqueViolation)"

definition acceptRow :: "string \<Rightarrow> string \<Rightarrow> int \<Rightarrow> int \<Rightarrow> Obligation \<Rightarrow> Obligation" where
  "acceptRow src issued consumed now x =
     x\<lparr>ob_State := ObligationStateReceived, ob_ConsumedQuantity := Some consumed,
       ob_ReceivedAt := Some now, ob_ValidationOutcome := Some ValidationOutcomeValidated,
       ob_ValidatedAt := Some now, ob_SourceReportID := pgText src, ob_IssuedReportID := pgText issued\<rparr>"

definition MarkValidationValidated ::
  "string \<Rightarrow> string \<Rightarrow> string \<Rightarrow> int \<Rightarrow> int \<Rightarrow> Obligation list \<Rightarrow> (repo_error, Obligation \<times> Obligation list) res" where
  "MarkValidationValidated oid src issued consumed now = updatePending oid (acceptRow src issued consumed now)"

definition rejectRow :: "ValidationOutcome \<Rightarrow> string \<Rightarrow> int \<Rightarrow> Obligation \<Rightarrow> Obligation" where
  "rejectRow outcome src now x =
     x\<lparr>ob_ValidationOutcome := Some outcome, ob_ValidatedAt := Some now,
       ob_SourceReportID := (if src = [] then ob_SourceReportID x else Some src)\<rparr>"

definition MarkValidationRejected ::
  "string \<Rightarrow> ValidationOutcome \<Rightarrow> string \<Rightarrow> int \<Rightarrow> Obligation list \<Rightarrow> (repo_error, Obligation \<times> Obligation list) res" where
  "MarkValidationRejected oid outcome src now = updatePending oid (rejectRow outcome src now)"

text \<open>\<open>In\<close> and \<open>PastDeadline\<close> of the counts the GROUP BY query returns.\<close>

definition CountByStateAndDueness ::
  "string \<Rightarrow> string \<Rightarrow> int \<Rightarrow> store \<Rightarrow> ObligationState \<times> bool \<Rightarrow> int" where
  "CountByStateAndDueness tenantID agentID asOf st = (\<lambda>(s, past).
     int (length (filter (\<lambda>x. ob_State x = s \<and> (ob_Deadline x < asOf) = past \<and>
       (case txByID (ob_TransactionID x) st of
          None \<Rightarrow> False
        | Some t \<Rightarrow> tl_TenantID t = tenantID \<and> tl_AgentID t = agentID)) (obligations st))))"

definition PastDeadline :: "(ObligationState \<times> bool \<Rightarrow> int) \<Rightarrow> int" where
  "PastDeadline counts = counts (ObligationStatePending, True) + counts (ObligationStateReceived, True)"

section \<open>Transaction log and request claims\<close>

definition tl_CreateForOffer ::
  "int \<Rightarrow> PersistTxIntent \<Rightarrow> TransactionRecord list \<Rightarrow> (repo_error, TransactionRecord list) res" where
  "tl_CreateForOffer dbNow intent txs =
     (if in_TransactionID intent \<in> set (map tl_TransactionID txs) then Inl ErrUniqueViolation
      else if in_IdempotencyKey intent \<in> set (map tl_IdempotencyKey txs) then Inl ErrIdempotencyUnique
      else Inr (txs @ [\<lparr>tl_TransactionID = in_TransactionID intent,
        tl_IdempotencyKey = in_IdempotencyKey intent, tl_TenantID = in_TenantID intent,
        tl_AgentID = in_AgentID intent, tl_ResourceID = in_ResourceID intent,
        tl_OfferID = in_OfferID intent, tl_AgentIdentityHash = in_AgentIdentityHash intent,
        tl_SignedURLHash = in_SignedURLHash intent, tl_Expiry = in_Expiry intent,
        tl_BillingID = pgText (in_BillingID intent), tl_UnitCostDecimal = in_UnitCostDecimal intent,
        tl_Currency = in_Currency intent, tl_CreatedAt = dbNow,
        tl_ResultPayload = in_ResultPayload intent\<rparr>]))"

definition ByIdempotencyKey :: "string \<Rightarrow> TransactionRecord list \<Rightarrow> (repo_error, TransactionRecord) res" where
  "ByIdempotencyKey key txs =
     (case find (\<lambda>t. tl_IdempotencyKey t = key) txs of
        None \<Rightarrow> Inl ErrTransactionNotFound
      | Some t \<Rightarrow> Inr t)"

definition getClaim :: "string \<Rightarrow> string \<Rightarrow> RequestClaim list \<Rightarrow> RequestClaim option" where
  "getClaim agentID key cs = find (\<lambda>c. cl_AgentID c = agentID \<and> cl_IdempotencyKey c = key) cs"

text \<open>The result is \<open>(won, storedDigest)\<close> with the claims table after the insert.\<close>

definition ClaimRequest ::
  "string \<Rightarrow> string \<Rightarrow> string \<Rightarrow> RequestClaim list \<Rightarrow> (bool \<times> string) \<times> RequestClaim list" where
  "ClaimRequest agentID key digest cs =
     (case getClaim agentID key cs of
        None \<Rightarrow> ((True, []), cs @ [\<lparr>cl_AgentID = agentID, cl_IdempotencyKey = key,
                   cl_ItemsDigest = digest, cl_ResponsePayload = None\<rparr>])
      | Some c \<Rightarrow> ((False, cl_ItemsDigest c), cs))"

definition FinalizeRequest ::
  "string \<Rightarrow> string \<Rightarrow> string \<Rightarrow> RequestClaim list \<Rightarrow> bool \<times> RequestClaim list" where
  "FinalizeRequest agentID key payload cs =
     (let hit = (\<lambda>c. cl_AgentID c = agentID \<and> cl_IdempotencyKey c = key \<and> cl_ResponsePayload c = None)
      in (list_ex hit cs, map (\<lambda>c. if hit c then c\<lparr>cl_ResponsePayload := Some payload\<rparr> else c) cs))"

definition RequestResponse :: "string \<Rightarrow> string \<Rightarrow> RequestClaim list \<Rightarrow> string option" where
  "RequestResponse agentID key cs =
     (case getClaim agentID key cs of None \<Rightarrow> None | Some c \<Rightarrow> cl_ResponsePayload c)"

section \<open>Laws of the claims table\<close>

lemma find_append: "find P (xs @ ys) = (case find P xs of None \<Rightarrow> find P ys | Some x \<Rightarrow> Some x)"
  by (induction xs) auto

lemma find_map_keep:
  "(\<And>x. P (f x) = P x) \<Longrightarrow> find P (map f xs) = map_option f (find P xs)"
  by (induction xs) auto

lemma find_Some_holds: "find P xs = Some x \<Longrightarrow> P x \<and> x \<in> set xs"
  by (induction xs) (auto split: if_splits)

lemma getClaim_key: "getClaim a k cs = Some c \<Longrightarrow> cl_AgentID c = a \<and> cl_IdempotencyKey c = k"
  by (auto simp: getClaim_def dest: find_Some_holds)

lemma getClaim_ClaimRequest:
  "getClaim a k (snd (ClaimRequest a' k' d cs)) =
     (if a = a' \<and> k = k' \<and> getClaim a k cs = None
      then Some \<lparr>cl_AgentID = a, cl_IdempotencyKey = k, cl_ItemsDigest = d, cl_ResponsePayload = None\<rparr>
      else getClaim a k cs)"
  by (auto simp: ClaimRequest_def getClaim_def find_append split: option.splits)

lemma ClaimRequest_won: "fst (fst (ClaimRequest a k d cs)) \<longleftrightarrow> getClaim a k cs = None"
  by (simp add: ClaimRequest_def split: option.splits)

lemma getClaim_FinalizeRequest:
  "getClaim a k (snd (FinalizeRequest a' k' p cs)) =
     map_option (\<lambda>c. if a = a' \<and> k = k' \<and> cl_ResponsePayload c = None
                     then c\<lparr>cl_ResponsePayload := Some p\<rparr> else c) (getClaim a k cs)"
proof -
  let ?f = "\<lambda>c. if cl_AgentID c = a' \<and> cl_IdempotencyKey c = k' \<and> cl_ResponsePayload c = None
                then c\<lparr>cl_ResponsePayload := Some p\<rparr> else c"
  have "getClaim a k (snd (FinalizeRequest a' k' p cs)) = map_option ?f (getClaim a k cs)"
    unfolding getClaim_def FinalizeRequest_def Let_def snd_conv by (rule find_map_keep) auto
  moreover have "map_option ?f (getClaim a k cs) =
      map_option (\<lambda>c. if a = a' \<and> k = k' \<and> cl_ResponsePayload c = None
                     then c\<lparr>cl_ResponsePayload := Some p\<rparr> else c) (getClaim a k cs)"
    by (cases "getClaim a k cs") (auto dest: getClaim_key)
  ultimately show ?thesis by simp
qed

lemma FinalizeRequest_keeps:
  "RequestResponse a k cs = Some p \<Longrightarrow> RequestResponse a k (snd (FinalizeRequest a' k' q cs)) = Some p"
  by (auto simp: RequestResponse_def getClaim_FinalizeRequest split: option.splits)

lemma ClaimRequest_keeps:
  "RequestResponse a k cs = Some p \<Longrightarrow> RequestResponse a k (snd (ClaimRequest a' k' d cs)) = Some p"
  by (auto simp: RequestResponse_def getClaim_ClaimRequest split: option.splits)

end
