(* ===== verification/Pricing.thy ===== *)
theory Pricing
  imports Exchange_Error
begin

text \<open>
  Prices and term selection: \<open>service/catalog_pricing.go\<close> and \<open>service/termselect.go\<close>. A
  \<open>decimal.Decimal\<close> is the rational it denotes; \<open>ParseMoney\<close> of the protocol SDK is the parameter
  \<open>parseMoney\<close>, \<open>None\<close> its error. Protobuf messages are records of the fields the code reads, an
  optional field an option.
\<close>

section \<open>Prices\<close>

datatype PricingMetering =
    PRICING_METERING_UNSPECIFIED | PRICING_METERING_ONLINE | PRICING_METERING_OFFLINE | PRICING_METERING_NONE

record Pricing =
  pr_Model :: string
  pr_Rate :: string
  pr_Currency :: string
  pr_Unit :: string
  pr_EstimatedQuantity :: "int option"
  pr_Metering :: "PricingMetering option"
  pr_UnitCost :: "string option"

record PricingDoc =
  pd_Model :: string
  pd_Rate :: rat
  pd_Currency :: string
  pd_UnitCost :: rat
  pd_Unit :: string
  pd_EstQty :: int
  pd_Metering :: "PricingMetering option"

definition MetersUsage :: "PricingDoc \<Rightarrow> bool" where
  "MetersUsage p = (pd_Metering p = None \<or> pd_Metering p \<noteq> Some PRICING_METERING_NONE)"

definition IsFree :: "PricingDoc \<Rightarrow> bool" where
  "IsFree p = (pd_UnitCost p = 0)"

definition moneyOrZero :: "(string \<Rightarrow> rat option) \<Rightarrow> string \<Rightarrow> rat option" where
  "moneyOrZero parseMoney s = (if s = [] then Some 0 else parseMoney s)"

definition pricingDocFromPricing :: "(string \<Rightarrow> rat option) \<Rightarrow> Pricing \<Rightarrow> PricingDoc option" where
  "pricingDocFromPricing parseMoney p =
     (case moneyOrZero parseMoney (pr_Rate p) of
        None \<Rightarrow> None
      | Some rate \<Rightarrow>
          let doc = (\<lambda>uc. \<lparr>pd_Model = pr_Model p, pd_Rate = rate, pd_Currency = pr_Currency p,
                       pd_UnitCost = uc, pd_Unit = pr_Unit p,
                       pd_EstQty = (case pr_EstimatedQuantity p of None \<Rightarrow> 0 | Some q \<Rightarrow> q),
                       pd_Metering = pr_Metering p\<rparr>)
          in case pr_UnitCost p of
               None \<Rightarrow> Some (doc rate)
             | Some u \<Rightarrow>
                 (case moneyOrZero parseMoney u of
                    None \<Rightarrow> None
                  | Some uc \<Rightarrow> Some (doc uc)))"

section \<open>Term selection\<close>

record LicenseTerm =
  lt_Scopes :: "string list"
  lt_Pricing :: Pricing

definition pricingDocFromTerm :: "(string \<Rightarrow> rat option) \<Rightarrow> LicenseTerm \<Rightarrow> PricingDoc option" where
  "pricingDocFromTerm parseMoney term = pricingDocFromPricing parseMoney (lt_Pricing term)"

definition CutSuffix :: "string \<Rightarrow> string \<Rightarrow> string option" where
  "CutSuffix s suf =
     (if suffix suf s then Some (take (length s - length suf) s) else None)"

fun scopeCovered :: "string \<Rightarrow> string list \<Rightarrow> bool" where
  "scopeCovered termScope [] = False"
| "scopeCovered termScope (rs # rest) =
     (if rs = ''*'' \<or> rs = termScope then True
      else case CutSuffix rs '':*'' of
        Some pre \<Rightarrow>
          if termScope = pre \<or> prefix (pre @ '':'') termScope then True
          else scopeCovered termScope rest
      | None \<Rightarrow> scopeCovered termScope rest)"

definition scopesCovered :: "string list \<Rightarrow> string list \<Rightarrow> bool" where
  "scopesCovered termScopes requesterScopes =
     list_all (\<lambda>ts. scopeCovered ts requesterScopes) termScopes"

text \<open>A nil term is \<open>None\<close>; the requester is its scopes, \<open>None\<close> when absent.\<close>

definition selectTerms :: "LicenseTerm option list \<Rightarrow> string list option \<Rightarrow> LicenseTerm list" where
  "selectTerms terms requester =
     (case requester of
        None \<Rightarrow> []
      | Some scopes \<Rightarrow>
          [t. Some t \<leftarrow> terms, scopesCovered (lt_Scopes t) scopes])"

section \<open>Facts\<close>

lemma CutSuffix_Some: "CutSuffix s suf = Some p \<longleftrightarrow> s = p @ suf"
  by (auto simp: CutSuffix_def suffix_def)

text \<open>The hierarchy of scopes as a specification: a grant is global, exact, or a subtree.\<close>

definition grants :: "string \<Rightarrow> string \<Rightarrow> bool" where
  "grants rs ts \<longleftrightarrow> rs = ''*'' \<or> rs = ts \<or>
     (\<exists>p. rs = p @ '':*'' \<and> (ts = p \<or> (\<exists>q. ts = p @ '':'' @ q)))"

lemma grants_CutSuffix:
  "grants rs ts \<longleftrightarrow> rs = ''*'' \<or> rs = ts \<or>
     (case CutSuffix rs '':*'' of None \<Rightarrow> False | Some p \<Rightarrow> ts = p \<or> prefix (p @ '':'') ts)"
proof (cases "CutSuffix rs '':*''")
  case None
  then have "rs \<noteq> p @ '':*''" for p using CutSuffix_Some [of rs "'':*''" p] by simp
  with None show ?thesis by (simp add: grants_def)
next
  case (Some p)
  then have "rs = p @ '':*''" by (simp add: CutSuffix_Some)
  moreover have "(\<exists>q. ts = p @ '':'' @ q) \<longleftrightarrow> prefix (p @ '':'') ts" by (simp add: prefix_def)
  ultimately show ?thesis using Some unfolding grants_def by (simp only: option.case append_same_eq) blast
qed

lemma scopeCovered_grants: "scopeCovered ts rss \<longleftrightarrow> (\<exists>rs \<in> set rss. grants rs ts)"
proof (induction rss)
  case (Cons rs rss)
  show ?case
    by (cases "CutSuffix rs '':*''") (simp_all add: Cons.IH grants_CutSuffix [of rs])
qed simp

section \<open>Properties\<close>

text \<open>Term selection is exactly scope coverage: the terms offered are, in stored order and without
  nil entries, those whose every scope the requester holds globally, exactly, or through a subtree
  wildcard; a request without a requester selects nothing.\<close>

theorem selectTerms_exact:
  "selectTerms terms requester =
     (case requester of
        None \<Rightarrow> []
      | Some scopes \<Rightarrow>
          filter (\<lambda>t. {ts \<in> set (lt_Scopes t). \<not> (\<exists>rs. rs \<in> set scopes \<and> grants rs ts)} = {})
            (List.map_filter id terms))"
proof (cases requester)
  case (Some scopes)
  have "scopesCovered (lt_Scopes t) scopes \<longleftrightarrow>
      {ts \<in> set (lt_Scopes t). \<not> (\<exists>rs. rs \<in> set scopes \<and> grants rs ts)} = {}" for t :: LicenseTerm
    by (auto simp: scopesCovered_def list_all_iff scopeCovered_grants)
  then show ?thesis unfolding Some selectTerms_def option.case
    by (induction terms) (simp_all add: List.map_filter_simps split: option.splits)
qed (simp add: selectTerms_def)

end
