(* ===== verification/Reporting.thy ===== *)
theory Reporting
  imports Exchange_Store Pricing
begin

text \<open>
  Usage reporting: the caller rule (\<open>service/authz.go\<close>), the report validator
  (\<open>service/report_validator.go\<close>), the obligation plan and the tenant policy
  (\<open>service/reporting_obligation.go\<close>, \<open>reporting_policy.go\<close>), the compliance gate
  (\<open>service/reporting_overdue.go\<close>) and \<open>ReportUsage\<close> itself (\<open>service/report_usage.go\<close>).

  \<open>ReportUsage\<close> runs its load, validate and persist steps in one database transaction: the model
  returns the new store on commit and the old one on every error. A \<open>fault\<close> argument says which of
  the database calls fail. Logging is not modelled.
\<close>

section \<open>Callers\<close>

datatype CallerKind = CallerUnknown | CallerAgent | CallerBroker

record Caller =
  ca_KeyID :: string
  ca_Kind :: CallerKind
  ca_AgentID :: string
  ca_PublicKey :: string

definition authorizeForAgent :: "Caller \<Rightarrow> string \<Rightarrow> bool \<Rightarrow> svc_error option" where
  "authorizeForAgent caller agentID allowBrokerRelay =
     (case ca_Kind caller of
        CallerAgent \<Rightarrow> if ca_AgentID caller \<noteq> agentID then Some (Newf KindPermissionDenied) else None
      | CallerBroker \<Rightarrow> if \<not> allowBrokerRelay then Some (Newf KindPermissionDenied) else None
      | CallerUnknown \<Rightarrow> Some (Newf KindUnauthenticated))"

section \<open>The validator\<close>

definition defaultQuantityTolerance :: rat where
  "defaultQuantityTolerance = round64 (1 / 5)"

definition timestampSkewFuture :: int where "timestampSkewFuture = 300 * 1000000000"
definition timestampSkewPast :: int where "timestampSkewPast = 5 * 1000000000"
definition toleranceScale :: int where "toleranceScale = 1000000"

text \<open>The zero \<open>time.Time\<close> is the start of year 1.\<close>

definition zeroTime :: int where "zeroTime = - 62135596800 * 1000000000"

record Usage =
  us_ConsumedQuantity :: int
  us_Function :: "string list"

record UsageReport =
  rp_TransactionId :: string
  rp_BillingId :: string
  rp_IdempotencyKey :: string
  rp_Exchange :: string
  rp_Usage :: "Usage option"
  rp_Timestamp :: "int option"

record ReportInput =
  ri_Obligation :: Obligation
  ri_TransactionID :: string
  ri_BillingID :: string
  ri_CreatedAt :: int
  ri_Report :: UsageReport
  ri_Now :: int

definition GetConsumedQuantity :: "UsageReport \<Rightarrow> int" where
  "GetConsumedQuantity r = (case rp_Usage r of None \<Rightarrow> 0 | Some u \<Rightarrow> us_ConsumedQuantity u)"

definition knownReportFields :: "string list" where
  "knownReportFields =
     [''billing_id'', ''transaction_id'', ''consumed_quantity'', ''function'', ''exchange'',
      ''timestamp'', ''id'']"

definition ValidateRequiredFieldNames :: "string list \<Rightarrow> svc_error option" where
  "ValidateRequiredFieldNames names =
     (if list_all (\<lambda>n. n \<in> set knownReportFields) names then None else Some (Newf KindInvalidRequest))"

definition reportHasField :: "UsageReport \<Rightarrow> string \<Rightarrow> bool" where
  "reportHasField report field =
     (if field \<notin> set knownReportFields then False
      else if field = ''billing_id'' then rp_BillingId report \<noteq> []
      else if field = ''transaction_id'' then rp_TransactionId report \<noteq> []
      else if field = ''consumed_quantity'' then rp_Usage report \<noteq> None
      else if field = ''function'' then
        (case rp_Usage report of None \<Rightarrow> False | Some u \<Rightarrow> us_Function u \<noteq> [])
      else if field = ''exchange'' then rp_Exchange report \<noteq> []
      else if field = ''timestamp'' then rp_Timestamp report \<noteq> None
      else if field = ''id'' then rp_IdempotencyKey report \<noteq> []
      else False)"

definition ok :: "ValidationOutcome \<times> svc_error option" where
  "ok = (ValidationOutcomeValidated, None)"

definition refuse :: "ValidationOutcome \<Rightarrow> string \<Rightarrow> ValidationOutcome \<times> svc_error option" where
  "refuse outcome field = (outcome, Some (WithField (Newf KindInvalidRequest) field))"

definition validateRequiredFields :: "ReportInput \<Rightarrow> ValidationOutcome \<times> svc_error option" where
  "validateRequiredFields i =
     (case find (\<lambda>f. \<not> reportHasField (ri_Report i) f) (ob_RequiredFields (ri_Obligation i)) of
        Some f \<Rightarrow> refuse ValidationOutcomeRejectedFields f
      | None \<Rightarrow> ok)"

text \<open>\<open>int64(tol * float64(toleranceScale))\<close>.\<close>

definition tolPPM :: "rat \<Rightarrow> int" where
  "tolPPM tol = trunc (fmul64 tol (of_int toleranceScale))"

definition validateTolerance :: "ReportInput \<Rightarrow> ValidationOutcome \<times> svc_error option" where
  "validateTolerance i =
     (let consumed = GetConsumedQuantity (ri_Report i);
          estimated = ob_EstimatedQuantity (ri_Obligation i);
          bad = refuse ValidationOutcomeRejectedTolerance ''consumed_quantity''
      in if consumed < 0 then bad
         else if estimated = 0 then (if consumed \<noteq> 0 then bad else ok)
         else
           let d = wrap64 (consumed - estimated);
               diff = (if d < 0 then wrap64 (- d) else d);
               t = floatFromNumeric (ob_QuantityTolerance (ri_Obligation i));
               tol = (if t < 0 then defaultQuantityTolerance else t)
           in if wrap64 (diff * toleranceScale) > wrap64 (tolPPM tol * estimated) then bad else ok)"

definition validateBillingID :: "ReportInput \<Rightarrow> ValidationOutcome \<times> svc_error option" where
  "validateBillingID i =
     (if rp_BillingId (ri_Report i) \<noteq> ri_BillingID i
      then refuse ValidationOutcomeRejectedBillingID ''billing_id'' else ok)"

definition validateTimestamp :: "ReportInput \<Rightarrow> ValidationOutcome \<times> svc_error option" where
  "validateTimestamp i =
     (case rp_Timestamp (ri_Report i) of
        None \<Rightarrow> ok
      | Some reported \<Rightarrow>
          if ri_CreatedAt i \<noteq> zeroTime \<and> reported < ri_CreatedAt i - timestampSkewPast
          then refuse ValidationOutcomeRejectedTimestamp ''timestamp''
          else if ri_Now i + timestampSkewFuture < reported
          then refuse ValidationOutcomeRejectedTimestamp ''timestamp''
          else ok)"

definition ValidateUsageReport :: "ReportInput \<Rightarrow> ValidationOutcome \<times> svc_error option" where
  "ValidateUsageReport i =
     (if snd (validateRequiredFields i) \<noteq> None then validateRequiredFields i
      else if snd (validateTolerance i) \<noteq> None then validateTolerance i
      else if snd (validateBillingID i) \<noteq> None then validateBillingID i
      else if snd (validateTimestamp i) \<noteq> None then validateTimestamp i
      else ok)"

section \<open>The obligation plan\<close>

record reportingPolicy =
  pol_RequiredFields :: "string list"
  pol_QuantityTolerance :: "rat option"
  pol_WindowSeconds :: "int option"

definition emptyPolicy :: reportingPolicy where
  "emptyPolicy = \<lparr>pol_RequiredFields = [], pol_QuantityTolerance = None, pol_WindowSeconds = None\<rparr>"

text \<open>\<open>unmarshal\<close> is \<open>json.Unmarshal\<close> into a zero policy, its error dropped.\<close>

definition decodeReportingPolicy :: "(string \<Rightarrow> reportingPolicy) \<Rightarrow> string \<Rightarrow> reportingPolicy" where
  "decodeReportingPolicy unmarshal raw = (if raw = [] then emptyPolicy else unmarshal raw)"

text \<open>The fallback is a \<open>time.Duration\<close> in nanoseconds; \<open>int32\<close> of its whole seconds.\<close>

definition windowSecondsForObligation :: "reportingPolicy \<Rightarrow> int \<Rightarrow> int" where
  "windowSecondsForObligation policy fallback =
     (case pol_WindowSeconds policy of
        Some w \<Rightarrow> if 0 < w then w else fallback div 1000000000
      | None \<Rightarrow> fallback div 1000000000)"

record obligationPlan =
  plan_Required :: bool
  plan_WindowSeconds :: int
  plan_RequiredFields :: "string list"
  plan_QuantityTolerance :: rat

definition requiredFieldsFor :: "reportingPolicy \<Rightarrow> PricingDoc \<Rightarrow> string list" where
  "requiredFieldsFor policy pricing =
     (if IsFree pricing then filter (\<lambda>f. f \<noteq> ''billing_id'') (pol_RequiredFields policy)
      else pol_RequiredFields policy)"

definition planObligation ::
  "(string \<Rightarrow> reportingPolicy) \<Rightarrow> int \<Rightarrow> Tenant \<Rightarrow> PricingDoc \<Rightarrow> obligationPlan" where
  "planObligation unmarshal reportWindow tenant pricing =
     (let policy = decodeReportingPolicy unmarshal (tn_ReportingPolicy tenant)
      in \<lparr>plan_Required = MetersUsage pricing,
          plan_WindowSeconds = windowSecondsForObligation policy reportWindow,
          plan_RequiredFields = requiredFieldsFor policy pricing,
          plan_QuantityTolerance =
            (case pol_QuantityTolerance policy of None \<Rightarrow> defaultQuantityTolerance | Some t \<Rightarrow> t)\<rparr>)"

record ReportingObligation =
  ro_Required :: bool
  ro_Endpoint :: "string option"
  ro_WindowSeconds :: "int option"
  ro_RequiredFields :: "string list"

definition reportUsageEndpoint :: string where
  "reportUsageEndpoint = ''/ramp.v1.ExchangeService/ReportUsage''"

definition buildReportingObligation :: "obligationPlan \<Rightarrow> ReportingObligation" where
  "buildReportingObligation p =
     (if \<not> plan_Required p
      then \<lparr>ro_Required = False, ro_Endpoint = None, ro_WindowSeconds = None, ro_RequiredFields = []\<rparr>
      else \<lparr>ro_Required = True, ro_Endpoint = Some reportUsageEndpoint,
            ro_WindowSeconds = Some (plan_WindowSeconds p), ro_RequiredFields = plan_RequiredFields p\<rparr>)"

section \<open>The compliance gate\<close>

record overdueRule =
  MaxOverdue :: int
  RateDivisor :: int

definition defaultOverdueRule :: overdueRule where
  "defaultOverdueRule = \<lparr>MaxOverdue = 10, RateDivisor = 5\<rparr>"

definition blocks :: "overdueRule \<Rightarrow> int \<Rightarrow> int \<Rightarrow> bool" where
  "blocks r overdue due = (MaxOverdue r < overdue \<or> due < wrap64 (overdue * RateDivisor r))"

definition denyIfReportingOverdue ::
  "bool \<Rightarrow> string \<Rightarrow> string \<Rightarrow> int \<Rightarrow> store \<Rightarrow> svc_error option" where
  "denyIfReportingOverdue countFault tenantID agentID now st =
     (if countFault then Some (Newf KindInternal)
      else
        let counts = CountByStateAndDueness tenantID agentID now st
        in if blocks defaultOverdueRule (counts (ObligationStatePending, True)) (PastDeadline counts)
           then Some (Newf KindReportingOverdue) else None)"

section \<open>ReportUsage\<close>

datatype report_fault = ProbeFault | LoadFault | MarkFault | CommitFault

record report_call =
  rq_Report :: "UsageReport option"
  rq_Caller :: "(svc_error, Caller) res"
  rq_Now :: int
  rq_Uuid :: string
  rq_Fault :: "report_fault \<Rightarrow> bool"

text \<open>The persisted rows and the response id on acceptance; \<open>Inl\<close> rolls back.\<close>

definition persistValidation ::
  "report_call \<Rightarrow> UsageReport \<Rightarrow> ReportValidationContext \<Rightarrow> store \<Rightarrow> (svc_error, string \<times> store) res" where
  "persistValidation q req rc st =
     (if rq_Fault q MarkFault then Inl (Newf KindInternal)
      else case MarkValidationValidated (ob_ID (rc_Obligation rc)) (rp_IdempotencyKey req) (rq_Uuid q)
                  (GetConsumedQuantity req) (rq_Now q) (obligations st) of
        Inl ErrObligationAlreadyReported \<Rightarrow> Inl (Newf KindFailedPrecondition)
      | Inl _ \<Rightarrow> Inl (Newf KindInternal)
      | Inr (updated, obs) \<Rightarrow> Inr (textOrEmpty (ob_IssuedReportID updated), st\<lparr>obligations := obs\<rparr>))"

definition persistRejection ::
  "report_call \<Rightarrow> UsageReport \<Rightarrow> ReportValidationContext \<Rightarrow> ValidationOutcome \<Rightarrow> store \<Rightarrow>
   (svc_error, store) res" where
  "persistRejection q req rc outcome st =
     (if rq_Fault q MarkFault then Inl (Newf KindInternal)
      else case MarkValidationRejected (ob_ID (rc_Obligation rc)) outcome (rp_IdempotencyKey req)
                  (rq_Now q) (obligations st) of
        Inl ErrObligationAlreadyReported \<Rightarrow> Inl (Newf KindFailedPrecondition)
      | Inl _ \<Rightarrow> Inl (Newf KindInternal)
      | Inr (_, obs) \<Rightarrow> Inr (st\<lparr>obligations := obs\<rparr>))"

text \<open>\<open>Inl\<close> is the error that rolls the transaction back; \<open>Inr (r, st')\<close> commits \<open>st'\<close> and answers
  \<open>r\<close>, which is the validation error of a recorded rejection or the issued report id.\<close>

definition runReportUsageTx ::
  "report_call \<Rightarrow> Caller \<Rightarrow> UsageReport \<Rightarrow> store \<Rightarrow> (svc_error, (svc_error, string) res \<times> store) res" where
  "runReportUsageTx q caller req st =
     (if rq_Fault q LoadFault then Inl (Newf KindInternal)
      else case LoadForReport (rp_TransactionId req) st of
        Inl _ \<Rightarrow> Inl (Newf KindNotFound)
      | Inr rc \<Rightarrow>
          (case authorizeForAgent caller (rc_AgentID rc) (rc_AllowBrokerRelay rc) of
             Some e \<Rightarrow> Inl e
           | None \<Rightarrow>
               (case ValidateUsageReport \<lparr>ri_Obligation = rc_Obligation rc,
                        ri_TransactionID = rc_TransactionID rc, ri_BillingID = rc_BillingID rc,
                        ri_CreatedAt = rc_CreatedAt rc, ri_Report = req, ri_Now = rq_Now q\<rparr> of
                  (outcome, Some vErr) \<Rightarrow>
                    (case persistRejection q req rc outcome st of
                       Inl e \<Rightarrow> Inl e
                     | Inr st' \<Rightarrow> Inr (Inl vErr, st'))
                | (_, None) \<Rightarrow>
                    (case persistValidation q req rc st of
                       Inl e \<Rightarrow> Inl e
                     | Inr (rid, st') \<Rightarrow> Inr (Inr rid, st')))))"

definition ReportUsage :: "report_call \<Rightarrow> store \<Rightarrow> (svc_error, string) res \<times> store" where
  "ReportUsage q st =
     (case rq_Report q of
        None \<Rightarrow> (Inl (Newf KindInvalidRequest), st)
      | Some req \<Rightarrow>
          if rp_TransactionId req = [] then (Inl (Newf KindInvalidRequest), st)
          else if rp_IdempotencyKey req = [] then (Inl (Newf KindInvalidRequest), st)
          else case rq_Caller q of
            Inl e \<Rightarrow> (Inl e, st)
          | Inr caller \<Rightarrow>
              if rq_Fault q ProbeFault then (Inl (Newf KindInternal), st)
              else case FindAcceptedBySourceReportID (rp_TransactionId req) (rp_IdempotencyKey req)
                          (obligations st) of
                Inr existing \<Rightarrow> (Inr (textOrEmpty (ob_IssuedReportID existing)), st)
              | Inl _ \<Rightarrow>
                  (case runReportUsageTx q caller req st of
                     Inl e \<Rightarrow> (Inl e, st)
                   | Inr (r, st') \<Rightarrow>
                       if rq_Fault q CommitFault then (Inl (OtherErr ''commit''), st) else (r, st')))"

end
