(* ===== verification/Reporting_Laws.thy ===== *)
theory Reporting_Laws
  imports Reporting
begin

text \<open>
  Laws of usage reporting: bounds of the fixed-point tolerance, what one \<open>ReportUsage\<close> call may
  change (\<open>report_step\<close>), why an accepted report keeps answering its replays, and how filing
  conforming reports clears the compliance gate.
\<close>

section \<open>Rounding and tolerance bounds\<close>

lemma round_half_even_le_double: "0 \<le> y \<Longrightarrow> of_int (round_half_even y) \<le> 2 * (y :: rat)"
proof -
  assume y: "0 \<le> y"
  have f: "of_int \<lfloor>y\<rfloor> \<le> y" "0 \<le> \<lfloor>y\<rfloor>" using y by (simp_all add: of_int_floor_le)
  show ?thesis
  proof (cases "y - of_int \<lfloor>y\<rfloor> < 1 / 2")
    case True
    then have "round_half_even y = \<lfloor>y\<rfloor>" by (simp add: round_half_even_def Let_def)
    then show ?thesis using f y by linarith
  next
    case False
    then have "of_int (round_half_even y) \<le> (of_int \<lfloor>y\<rfloor> + 1 :: rat)"
      by (auto simp: round_half_even_def Let_def)
    moreover have "of_int \<lfloor>y\<rfloor> + 1 \<le> 2 * y" using False f by linarith
    ultimately show ?thesis by linarith
  qed
qed

lemma round64_le_double: "0 \<le> x \<Longrightarrow> round64 x \<le> 2 * x"
proof -
  assume x: "0 \<le> x"
  define e where "e = max (- 1074) (binade x)"
  have "of_int (round_half_even (x / pow2 e)) * pow2 e \<le> 2 * (x / pow2 e) * pow2 e"
    using x by (intro mult_right_mono round_half_even_le_double) (simp_all add: less_imp_le)
  also have "\<dots> = 2 * x" using pow2_pos [of e] by (simp del: pow2_pos)
  finally show ?thesis using x by (simp add: round64_def Let_def e_def)
qed

lemma tolPPM_bounds:
  assumes "0 \<le> t" "t \<le> 10"
  shows "0 \<le> tolPPM (floatFromNumeric t) \<and> tolPPM (floatFromNumeric t) \<le> 40000000"
proof -
  define r where "r = round64 (round64 t * 1000000)"
  have a: "0 \<le> round64 t" "round64 t \<le> 20"
    using assms round64_nonneg [of t] round64_le_double [of t] by auto
  have "0 \<le> r" "r \<le> 2 * (round64 t * 1000000)"
    using a round64_nonneg [of "round64 t * 1000000"] round64_le_double [of "round64 t * 1000000"]
    by (auto simp: r_def)
  then have "0 \<le> r" "r \<le> 40000000" using a by auto
  then have "0 \<le> \<lfloor>r\<rfloor>" "\<lfloor>r\<rfloor> \<le> 40000000" by (auto simp: floor_le_iff)
  then show ?thesis using \<open>0 \<le> r\<close>
    by (simp add: tolPPM_def fmul64_def floatFromNumeric_def toleranceScale_def trunc_def r_def)
qed

definition int32 :: "int \<Rightarrow> bool" where
  "int32 x = (- 2147483648 \<le> x \<and> x \<le> 2147483647)"

definition within_tolerance :: "int \<Rightarrow> int \<Rightarrow> rat \<Rightarrow> bool" where
  "within_tolerance consumed estimated t =
     (0 \<le> consumed \<and>
      (if estimated = 0 then consumed = 0
       else \<bar>consumed - estimated\<bar> * 1000000 \<le> tolPPM (floatFromNumeric t) * estimated))"

lemma floatFromNumeric_nonneg: "0 \<le> t \<Longrightarrow> 0 \<le> floatFromNumeric t"
  by (simp add: floatFromNumeric_def round64_nonneg)

lemma snd_refuse [simp]: "snd (refuse a b) = Some (WithField (Newf KindInvalidRequest) b)"
  by (simp add: refuse_def)

lemma snd_ok [simp]: "snd ok = None"
  by (simp add: ok_def)

lemma wrap64_small: "\<bar>x\<bar> \<le> 90000000000000000 \<Longrightarrow> wrap64 x = x"
  by (rule wrap64_id) (auto simp: int64_def max_int64_def min_int64_def)

lemma validateTolerance_iff:
  assumes "int32 (GetConsumedQuantity (ri_Report i))" "int32 (ob_EstimatedQuantity (ri_Obligation i))"
    and "0 \<le> ob_QuantityTolerance (ri_Obligation i)" "ob_QuantityTolerance (ri_Obligation i) \<le> 10"
  shows "snd (validateTolerance i) = None \<longleftrightarrow>
     within_tolerance (GetConsumedQuantity (ri_Report i)) (ob_EstimatedQuantity (ri_Obligation i))
       (ob_QuantityTolerance (ri_Obligation i))"
proof -
  define c where "c = GetConsumedQuantity (ri_Report i)"
  define e where "e = ob_EstimatedQuantity (ri_Obligation i)"
  define t where "t = ob_QuantityTolerance (ri_Obligation i)"
  define p where "p = tolPPM (floatFromNumeric t)"
  have r: "\<bar>c\<bar> \<le> 2147483648" "\<bar>e\<bar> \<le> 2147483648"
    using assms(1,2) by (auto simp: int32_def c_def e_def)
  have t: "\<not> floatFromNumeric t < 0" using floatFromNumeric_nonneg [of t] assms(3) by (simp add: t_def)
  have p: "0 \<le> p" "p \<le> 40000000" using tolPPM_bounds assms(3,4) by (simp_all add: p_def t_def)
  have d: "wrap64 (c - e) = c - e" using r by (intro wrap64_small) auto
  have nd: "wrap64 (- (c - e)) = - (c - e)" using r by (intro wrap64_small) auto
  have w1: "wrap64 (\<bar>c - e\<bar> * toleranceScale) = \<bar>c - e\<bar> * 1000000"
    using r by (subst wrap64_small) (auto simp: toleranceScale_def abs_mult)
  have "\<bar>p * e\<bar> \<le> 40000000 * 2147483648"
    unfolding abs_mult using p r by (intro mult_mono) auto
  then have w2: "wrap64 (p * e) = p * e" by (intro wrap64_small) auto
  have diff: "(if wrap64 (c - e) < 0 then wrap64 (- wrap64 (c - e)) else wrap64 (c - e)) = \<bar>c - e\<bar>"
    unfolding d nd by simp
  show ?thesis
    unfolding validateTolerance_def within_tolerance_def Let_def
    unfolding c_def [symmetric] e_def [symmetric] t_def [symmetric]
    unfolding diff if_not_P [OF t] p_def [symmetric] w1 w2 by auto
qed

section \<open>What a report may change\<close>

definition advances :: "Obligation \<Rightarrow> Obligation \<Rightarrow> bool" where
  "advances x y \<longleftrightarrow> ob_ID y = ob_ID x \<and> ob_TransactionID y = ob_TransactionID x \<and>
     ob_Deadline y = ob_Deadline x \<and> ob_RequiredFields y = ob_RequiredFields x \<and>
     ob_EstimatedQuantity y = ob_EstimatedQuantity x \<and>
     ob_QuantityTolerance y = ob_QuantityTolerance x \<and>
     (ob_State x = ObligationStateReceived \<longrightarrow> y = x) \<and>
     (ob_State y = ObligationStatePending \<longrightarrow> ob_IssuedReportID y = ob_IssuedReportID x)"

definition report_inv :: "Obligation list \<Rightarrow> bool" where
  "report_inv obs \<longleftrightarrow> source_idx_ok obs \<and> distinct (map ob_ID obs) \<and>
     list_all (\<lambda>x. ob_IssuedReportID x \<noteq> None \<longrightarrow> ob_State x = ObligationStateReceived) obs"

lemma advances_refl [simp]: "advances x x"
  by (simp add: advances_def)

lemma advances_trans: "advances x y \<Longrightarrow> advances y z \<Longrightarrow> advances x z"
  by (cases "ob_State y") (auto simp: advances_def)

lemma list_advances_refl [simp]: "list_all2 advances xs xs"
  by (simp add: list_all2_conv_all_nth)

lemma list_advances_trans:
  "list_all2 advances xs ys \<Longrightarrow> list_all2 advances ys zs \<Longrightarrow> list_all2 advances xs zs"
  using list_all2_trans [of advances advances advances] advances_trans by blast

lemma acceptRow_advances:
  "ob_State x = ObligationStatePending \<Longrightarrow> advances x (acceptRow src iid n now x)"
  by (simp add: advances_def acceptRow_def)

lemma rejectRow_advances:
  "ob_State x = ObligationStatePending \<Longrightarrow> advances x (rejectRow out src now x)"
  by (simp add: advances_def rejectRow_def)

lemma updatePending_Inr:
  assumes "updatePending oid u obs = Inr (r, obs')"
  obtains x where "x \<in> set obs" "ob_ID x = oid" "ob_State x = ObligationStatePending" "r = u x"
    and "obs' = map (\<lambda>x. if ob_ID x = oid \<and> ob_State x = ObligationStatePending then u x else x) obs"
    and "source_idx_ok obs'"
  using assms
  by (auto simp: updatePending_def Let_def split: option.splits if_splits dest!: find_Some_holds)

lemma updatePending_advances:
  assumes "updatePending oid u obs = Inr (r, obs')"
    and "\<And>x. ob_State x = ObligationStatePending \<Longrightarrow> advances x (u x)"
  shows "list_all2 advances obs obs'"
  using assms by (elim updatePending_Inr) (auto simp: list_all2_conv_all_nth)

lemma advances_ids: "list_all2 advances xs ys \<Longrightarrow> map ob_ID ys = map ob_ID xs"
  by (induction rule: list_all2_induct) (auto simp: advances_def)

lemma advances_txids: "list_all2 advances xs ys \<Longrightarrow> map ob_TransactionID ys = map ob_TransactionID xs"
  by (induction rule: list_all2_induct) (auto simp: advances_def)

lemma updatePending_inv:
  assumes "updatePending oid u obs = Inr (r, obs')" "report_inv obs"
    and adv: "\<And>x. ob_State x = ObligationStatePending \<Longrightarrow> advances x (u x)"
    and "\<And>x. ob_State x = ObligationStatePending \<Longrightarrow> ob_IssuedReportID x = None \<Longrightarrow>
           ob_IssuedReportID (u x) \<noteq> None \<longrightarrow> ob_State (u x) = ObligationStateReceived"
  shows "report_inv obs'"
proof -
  from assms(1) have src: "source_idx_ok obs'" and obs':
    "obs' = map (\<lambda>x. if ob_ID x = oid \<and> ob_State x = ObligationStatePending then u x else x) obs"
    by (auto elim: updatePending_Inr)
  have "ob_IssuedReportID y \<noteq> None \<longrightarrow> ob_State y = ObligationStateReceived" if "y \<in> set obs'" for y
    using that assms(2,4) unfolding obs' report_inv_def list_all_iff by force
  moreover have "distinct (map ob_ID obs')"
    using assms(2) advances_ids [OF updatePending_advances [OF assms(1) adv]] by (simp add: report_inv_def)
  ultimately show ?thesis using src by (simp add: report_inv_def list_all_iff)
qed

lemma acceptRow_keeps: "ob_State (acceptRow src iid n now x) = ObligationStateReceived"
  by (simp add: acceptRow_def)

lemma rejectRow_keeps: "ob_IssuedReportID (rejectRow out src now x) = ob_IssuedReportID x"
  by (simp add: rejectRow_def)

definition report_step :: "store \<Rightarrow> store \<Rightarrow> bool" where
  "report_step st st' \<longleftrightarrow> list_all2 advances (obligations st) (obligations st') \<and>
     transactions st' = transactions st \<and> claims st' = claims st \<and> tenants st' = tenants st \<and>
     (report_inv (obligations st) \<longrightarrow> report_inv (obligations st'))"

lemma report_step_refl [simp]: "report_step st st"
  by (simp add: report_step_def)

lemma report_step_trans: "report_step a b \<Longrightarrow> report_step b c \<Longrightarrow> report_step a c"
  unfolding report_step_def using list_advances_trans by auto

lemma accept_step:
  assumes "updatePending oid (acceptRow src iid n now) (obligations st) = Inr (r, obs')"
  shows "report_step st (st\<lparr>obligations := obs'\<rparr>)"
  using updatePending_advances [OF assms acceptRow_advances] updatePending_inv [OF assms _ acceptRow_advances]
  by (simp add: report_step_def acceptRow_keeps)

lemma reject_step:
  assumes "updatePending oid (rejectRow out src now) (obligations st) = Inr (r, obs')"
  shows "report_step st (st\<lparr>obligations := obs'\<rparr>)"
  using updatePending_advances [OF assms rejectRow_advances] updatePending_inv [OF assms _ rejectRow_advances]
  by (simp add: report_step_def rejectRow_keeps)

lemma persistValidation_step:
  "persistValidation q req rc st = Inr (rid, st') \<Longrightarrow> report_step st st'"
  unfolding persistValidation_def MarkValidationValidated_def
  by (auto split: if_splits sum.splits repo_error.splits intro: accept_step)

lemma persistRejection_step:
  "persistRejection q req rc outcome st = Inr st' \<Longrightarrow> report_step st st'"
  unfolding persistRejection_def MarkValidationRejected_def
  by (auto split: if_splits sum.splits repo_error.splits intro: reject_step)

definition reportInput :: "report_call \<Rightarrow> UsageReport \<Rightarrow> ReportValidationContext \<Rightarrow> ReportInput" where
  "reportInput q req rc =
     \<lparr>ri_Obligation = rc_Obligation rc, ri_TransactionID = rc_TransactionID rc,
      ri_BillingID = rc_BillingID rc, ri_CreatedAt = rc_CreatedAt rc, ri_Report = req,
      ri_Now = rq_Now q\<rparr>"

lemma runReportUsageTx_cases:
  assumes "runReportUsageTx q caller req st = Inr (r, st')"
  obtains (accept) rc rid where "LoadForReport (rp_TransactionId req) st = Inr rc"
      "authorizeForAgent caller (rc_AgentID rc) (rc_AllowBrokerRelay rc) = None"
      "persistValidation q req rc st = Inr (rid, st')" "r = Inr rid"
  | (reject) rc out e where "LoadForReport (rp_TransactionId req) st = Inr rc"
      "persistRejection q req rc out st = Inr st'" "r = Inl e"
proof (cases "LoadForReport (rp_TransactionId req) st")
  case (Inl e)
  then show ?thesis using assms by (simp add: runReportUsageTx_def split: if_splits)
next
  case (Inr rc)
  then have az: "authorizeForAgent caller (rc_AgentID rc) (rc_AllowBrokerRelay rc) = None"
    using assms by (simp add: runReportUsageTx_def split: if_splits option.splits)
  obtain out ve where v: "ValidateUsageReport (reportInput q req rc) = (out, ve)" by force
  show ?thesis
  proof (cases ve)
    case None
    then have "persistValidation q req rc st \<noteq> Inl x" for x
      using assms Inr az v by (auto simp: runReportUsageTx_def reportInput_def split: if_splits)
    then obtain rid s where "persistValidation q req rc st = Inr (rid, s)"
      by (cases "persistValidation q req rc st") auto
    with assms Inr az v None show ?thesis
      by (intro accept) (auto simp: runReportUsageTx_def reportInput_def split: if_splits)
  next
    case (Some e)
    then have "persistRejection q req rc out st \<noteq> Inl x" for x
      using assms Inr az v by (auto simp: runReportUsageTx_def reportInput_def split: if_splits)
    then obtain s where "persistRejection q req rc out st = Inr s"
      by (cases "persistRejection q req rc out st") auto
    with assms Inr az v Some show ?thesis
      by (intro reject) (auto simp: runReportUsageTx_def reportInput_def split: if_splits)
  qed
qed

lemma runReportUsageTx_step:
  "runReportUsageTx q caller req st = Inr (r, st') \<Longrightarrow> report_step st st'"
  by (elim runReportUsageTx_cases) (blast intro: persistValidation_step persistRejection_step)+

text \<open>The shape of a call that returned an id: a replay, or a commit of the transaction.\<close>

lemma ReportUsage_cases:
  obtains (same) "snd (ReportUsage q st) = st"
      "\<And>rid. fst (ReportUsage q st) = Inr rid \<Longrightarrow>
         \<exists>req x. rq_Report q = Some req \<and> rp_IdempotencyKey req \<noteq> [] \<and>
           FindAcceptedBySourceReportID (rp_TransactionId req) (rp_IdempotencyKey req)
             (obligations st) = Inr x \<and> rid = textOrEmpty (ob_IssuedReportID x)"
  | (commit) req caller r st' where "rq_Report q = Some req" "rp_IdempotencyKey req \<noteq> []"
      "rq_Caller q = Inr caller" "runReportUsageTx q caller req st = Inr (r, st')"
      "ReportUsage q st = (r, st')"
proof (cases "rq_Report q")
  case None
  then show ?thesis by (intro same) (simp_all add: ReportUsage_def)
next
  case (Some req)
  show ?thesis
  proof (cases "rp_TransactionId req = [] \<or> rp_IdempotencyKey req = [] \<or> rq_Fault q ProbeFault")
    case True
    then have "\<exists>e. ReportUsage q st = (Inl e, st)" using Some
      by (cases "rp_TransactionId req = []"; cases "rp_IdempotencyKey req = []"; cases "rq_Caller q")
        (simp_all add: ReportUsage_def)
    then show ?thesis by (intro same) auto
  next
    case ok: False
    show ?thesis
    proof (cases "rq_Caller q")
      case (Inl e)
      then show ?thesis using Some ok by (intro same) (simp_all add: ReportUsage_def)
    next
      case caller: (Inr caller)
      show ?thesis
      proof (cases "FindAcceptedBySourceReportID (rp_TransactionId req) (rp_IdempotencyKey req) (obligations st)")
        case (Inr x)
        then show ?thesis using Some ok caller by (intro same) (auto simp: ReportUsage_def)
      next
        case miss: (Inl e)
        show ?thesis
        proof (cases "runReportUsageTx q caller req st")
          case (Inl e')
          then show ?thesis using Some ok caller miss by (intro same) (simp_all add: ReportUsage_def)
        next
          case (Inr rs)
          obtain r st' where "rs = (r, st')" by force
          then have tx: "runReportUsageTx q caller req st = Inr (r, st')" using Inr by simp
          show ?thesis
          proof (cases "rq_Fault q CommitFault")
            case True
            then show ?thesis using Some ok caller miss tx by (intro same) (simp_all add: ReportUsage_def)
          next
            case False
            then show ?thesis using Some ok caller miss tx
              by (intro commit [of req caller r st']) (simp_all add: ReportUsage_def)
          qed
        qed
      qed
    qed
  qed
qed

lemma ReportUsage_step: "report_step st (snd (ReportUsage q st))"
proof (cases q st rule: ReportUsage_cases)
  case (commit req caller r st')
  then show ?thesis using runReportUsageTx_step by simp
qed simp

definition report_run :: "report_call list \<Rightarrow> store \<Rightarrow> store" where
  "report_run qs st = fold (\<lambda>q s. snd (ReportUsage q s)) qs st"

lemma report_run_step: "report_step st (report_run qs st)"
  unfolding report_run_def
proof (induction qs arbitrary: st)
  case (Cons q qs)
  show ?case unfolding fold.simps o_apply
    by (rule report_step_trans [OF ReportUsage_step Cons.IH])
qed simp

lemma report_step_nth:
  assumes "report_step st st'" "x \<in> set (obligations st)" "ob_State x = ObligationStateReceived"
  shows "x \<in> set (obligations st')"
proof -
  obtain i where "i < length (obligations st)" "obligations st ! i = x" using assms(2) by (metis in_set_conv_nth)
  then show ?thesis using assms(1,3) unfolding report_step_def list_all2_conv_all_nth advances_def
    by (metis nth_mem)
qed

lemma report_step_inv: "report_step st st' \<Longrightarrow> report_inv (obligations st) \<Longrightarrow> report_inv (obligations st')"
  by (simp add: report_step_def)

lemma source_idx_unique:
  assumes "source_idx_ok obs" "x \<in> set obs" "y \<in> set obs"
    and "ob_TransactionID x = ob_TransactionID y" "ob_SourceReportID x = Some k" "ob_SourceReportID y = Some k"
  shows "x = y"
proof -
  let ?f = "\<lambda>x. (ob_TransactionID x, ob_SourceReportID x)"
  have "inj_on ?f (set (filter (\<lambda>x. ob_SourceReportID x \<noteq> None) obs))"
    using assms(1) by (simp add: source_idx_ok_def distinct_map)
  then show ?thesis using assms(2-) by (elim inj_onD) auto
qed

lemma pgText_Some [simp]: "s \<noteq> [] \<Longrightarrow> pgText s = Some s"
  by (simp add: pgText_def)

lemma textOrEmpty_Some [simp]: "textOrEmpty (Some s) = s"
  by (simp add: textOrEmpty_def)

lemma latest_in: "latest xs = Some x \<Longrightarrow> x \<in> set xs"
  by (induction xs arbitrary: x) (auto split: option.splits if_splits)

lemma LoadForReport_row:
  assumes "LoadForReport txid st = Inr rc"
  shows "rc_Obligation rc \<in> set (obligations st) \<and> ob_TransactionID (rc_Obligation rc) = txid"
  using assms by (auto simp: LoadForReport_def ByTransaction_def split: option.splits sum.splits
      dest!: latest_in)

text \<open>A row that answers a replay of \<open>(txid, key)\<close> with \<open>rid\<close>.\<close>

definition accepted_as :: "string \<Rightarrow> string \<Rightarrow> string \<Rightarrow> Obligation \<Rightarrow> bool" where
  "accepted_as txid key rid x \<longleftrightarrow> ob_TransactionID x = txid \<and> ob_SourceReportID x = Some key \<and>
     ob_IssuedReportID x = Some rid \<and> ob_State x = ObligationStateReceived"

lemma persistValidation_accepted:
  assumes "persistValidation q req rc st = Inr (rid, st')" "report_inv (obligations st)"
    and "LoadForReport txid st = Inr rc" "rp_IdempotencyKey req \<noteq> []" "rq_Uuid q \<noteq> []"
  shows "\<exists>x \<in> set (obligations st'). accepted_as txid (rp_IdempotencyKey req) rid x"
proof -
  obtain r obs where up: "updatePending (ob_ID (rc_Obligation rc))
      (acceptRow (rp_IdempotencyKey req) (rq_Uuid q) (GetConsumedQuantity req) (rq_Now q))
      (obligations st) = Inr (r, obs)" and rid: "rid = textOrEmpty (ob_IssuedReportID r)"
    and st': "st' = st\<lparr>obligations := obs\<rparr>"
    using assms(1) unfolding persistValidation_def MarkValidationValidated_def
    by (auto split: if_splits sum.splits repo_error.splits)
  from up obtain x where x: "x \<in> set (obligations st)" "ob_ID x = ob_ID (rc_Obligation rc)"
      "ob_State x = ObligationStatePending"
      "r = acceptRow (rp_IdempotencyKey req) (rq_Uuid q) (GetConsumedQuantity req) (rq_Now q) x"
    and obs: "obs = map (\<lambda>x. if ob_ID x = ob_ID (rc_Obligation rc) \<and> ob_State x = ObligationStatePending
      then acceptRow (rp_IdempotencyKey req) (rq_Uuid q) (GetConsumedQuantity req) (rq_Now q) x else x)
      (obligations st)"
    by (rule updatePending_Inr)
  have row: "rc_Obligation rc \<in> set (obligations st)" "ob_TransactionID (rc_Obligation rc) = txid"
    using LoadForReport_row [OF assms(3)] by auto
  have "inj_on ob_ID (set (obligations st))" using assms(2) by (simp add: report_inv_def distinct_map)
  then have "x = rc_Obligation rc" using x(2) x(1) row(1) by (rule inj_onD)
  then have "accepted_as txid (rp_IdempotencyKey req) rid r"
    using assms(4,5) row(2) x(4) rid by (simp add: accepted_as_def acceptRow_def)
  moreover have "r \<in> set obs" unfolding obs set_map by (rule image_eqI [OF _ x(1)]) (simp add: x(2-4))
  ultimately show ?thesis using st' by auto
qed

lemma ReportUsage_accepted:
  assumes "ReportUsage q st = (Inr rid, st')" "report_inv (obligations st)" "rq_Uuid q \<noteq> []"
    and "rq_Report q = Some req"
  shows "\<exists>x \<in> set (obligations st'). accepted_as (rp_TransactionId req) (rp_IdempotencyKey req) rid x"
proof (cases q st rule: ReportUsage_cases)
  case same
  then obtain x where "FindAcceptedBySourceReportID (rp_TransactionId req) (rp_IdempotencyKey req)
      (obligations st) = Inr x" "rid = textOrEmpty (ob_IssuedReportID x)" "st' = st"
    using assms by fastforce
  then show ?thesis using assms(2)
    by (auto simp: FindAcceptedBySourceReportID_def accepted_as_def report_inv_def list_all_iff
        split: option.splits dest!: find_Some_holds)
next
  case (commit req' caller r st'')
  then have tx: "runReportUsageTx q caller req st = Inr (Inr rid, st')" using assms by simp
  then show ?thesis
    by (cases rule: runReportUsageTx_cases)
      (use commit assms persistValidation_accepted in auto)
qed

lemma FindAccepted_accepted:
  assumes "report_inv obs" "x \<in> set obs" "accepted_as txid key rid x" "key \<noteq> []"
  shows "FindAcceptedBySourceReportID txid key obs = Inr x"
proof -
  let ?P = "\<lambda>x. ob_TransactionID x = txid \<and> key \<noteq> [] \<and> ob_SourceReportID x = Some key \<and> ob_IssuedReportID x \<noteq> None"
  have "?P x" using assms(3,4) by (simp add: accepted_as_def)
  then have "find ?P obs \<noteq> None" using assms(2) unfolding find_None_iff by blast
  then obtain y where y: "find ?P obs = Some y" by blast
  then have "y = x"
    using find_Some_holds [OF y] assms(1-3) by (intro source_idx_unique [of obs y x key])
      (simp_all add: report_inv_def accepted_as_def)
  then show ?thesis using y by (simp add: FindAcceptedBySourceReportID_def)
qed

section \<open>Reporting an overdue obligation\<close>

definition agentCaller :: "string \<Rightarrow> Caller" where
  "agentCaller agentID =
     \<lparr>ca_KeyID = ''kid'', ca_Kind = CallerAgent, ca_AgentID = agentID, ca_PublicKey = []\<rparr>"

definition conformingReport :: "ReportValidationContext \<Rightarrow> int \<Rightarrow> UsageReport" where
  "conformingReport rc now =
     \<lparr>rp_TransactionId = rc_TransactionID rc, rp_BillingId = rc_BillingID rc,
      rp_IdempotencyKey = ''late'', rp_Exchange = ''exchange'',
      rp_Usage = Some \<lparr>us_ConsumedQuantity = ob_EstimatedQuantity (rc_Obligation rc),
        us_Function = [''ai-input'']\<rparr>,
      rp_Timestamp = Some now\<rparr>"

definition reportCall :: "string \<Rightarrow> ReportValidationContext \<Rightarrow> int \<Rightarrow> report_call" where
  "reportCall agentID rc now =
     \<lparr>rq_Report = Some (conformingReport rc now), rq_Caller = Inr (agentCaller agentID), rq_Now = now,
      rq_Uuid = ''uuid'', rq_Fault = (\<lambda>_. False)\<rparr>"

text \<open>What makes an obligation reportable: a policy whose fields the validator knows and the
  transaction can fill, a non-negative estimate and tolerance, and a clock not behind the
  transaction.\<close>

definition reportable :: "int \<Rightarrow> ReportValidationContext \<Rightarrow> bool" where
  "reportable now rc =
     (let x = rc_Obligation rc
      in rc_TransactionID rc \<noteq> [] \<and> rc_TransactionID rc = ob_TransactionID x \<and>
         list_all (\<lambda>f. f \<in> set knownReportFields \<and> (f = ''billing_id'' \<longrightarrow> rc_BillingID rc \<noteq> []))
           (ob_RequiredFields x) \<and>
         0 \<le> ob_EstimatedQuantity x \<and> int32 (ob_EstimatedQuantity x) \<and>
         0 \<le> ob_QuantityTolerance x \<and> ob_QuantityTolerance x \<le> 10 \<and>
         rc_CreatedAt rc - timestampSkewPast \<le> now)"

lemma reportHasField_conforming:
  assumes "f \<in> set knownReportFields" "f = ''billing_id'' \<longrightarrow> rc_BillingID rc \<noteq> []"
    and "rc_TransactionID rc \<noteq> []"
  shows "reportHasField (conformingReport rc now) f"
proof -
  have *: "f \<in> {''billing_id'', ''transaction_id'', ''consumed_quantity'', ''function'',
      ''exchange'', ''timestamp'', ''id''}"
    using assms(1) unfolding knownReportFields_def list.set .
  have hb: "reportHasField (conformingReport rc now) ''billing_id'' = (rc_BillingID rc \<noteq> [])"
    by (simp add: reportHasField_def knownReportFields_def conformingReport_def)
  have ht: "reportHasField (conformingReport rc now) ''transaction_id''"
    using assms(3) by (simp add: reportHasField_def knownReportFields_def conformingReport_def)
  have hr: "reportHasField (conformingReport rc now) ''consumed_quantity''"
    "reportHasField (conformingReport rc now) ''function''"
    "reportHasField (conformingReport rc now) ''exchange''"
    "reportHasField (conformingReport rc now) ''timestamp''"
    "reportHasField (conformingReport rc now) ''id''"
    by (simp_all add: reportHasField_def knownReportFields_def conformingReport_def)
  show ?thesis using * assms(2) hb ht hr by (elim insertE emptyE) (simp_all only: simp_thms)
qed

lemma validate_conforming:
  assumes "reportable now rc"
  shows "ValidateUsageReport (reportInput (reportCall a rc now) (conformingReport rc now) rc) =
     (ValidationOutcomeValidated, None)"
proof -
  let ?i = "reportInput (reportCall a rc now) (conformingReport rc now) rc"
  let ?x = "rc_Obligation rc"
  have "reportHasField (conformingReport rc now) f" if "f \<in> set (ob_RequiredFields ?x)" for f
    using that assms
    by (intro reportHasField_conforming) (auto simp: reportable_def Let_def list_all_iff)
  then have 1: "snd (validateRequiredFields ?i) = None"
    by (auto simp: validateRequiredFields_def reportInput_def find_None_iff split: option.splits
        dest!: find_Some_holds)
  have "snd (validateTolerance ?i) = None \<longleftrightarrow>
      within_tolerance (ob_EstimatedQuantity ?x) (ob_EstimatedQuantity ?x) (ob_QuantityTolerance ?x)"
    using assms validateTolerance_iff [of ?i]
    by (simp add: reportable_def Let_def reportInput_def conformingReport_def GetConsumedQuantity_def)
  then have 2: "snd (validateTolerance ?i) = None"
    using assms tolPPM_bounds [of "ob_QuantityTolerance ?x"]
    by (simp add: within_tolerance_def reportable_def Let_def)
  have 3: "snd (validateBillingID ?i) = None"
    by (simp add: validateBillingID_def reportInput_def conformingReport_def)
  have 4: "snd (validateTimestamp ?i) = None"
    using assms by (simp add: validateTimestamp_def reportInput_def conformingReport_def
        reportCall_def reportable_def Let_def timestampSkewFuture_def)
  show ?thesis using 1 2 3 4 by (simp add: ValidateUsageReport_def ok_def)
qed

lemma source_idx_txids: "distinct (map ob_TransactionID obs) \<Longrightarrow> source_idx_ok obs"
proof -
  assume "distinct (map ob_TransactionID obs)"
  then have "distinct (map ob_TransactionID (filter (\<lambda>x. ob_SourceReportID x \<noteq> None) obs))"
    by (simp add: distinct_map_filter)
  then show ?thesis unfolding source_idx_ok_def
    by (simp add: distinct_map inj_on_def)
qed

lemma updatePending_unique:
  assumes "x \<in> set obs" "ob_State x = ObligationStatePending" "distinct (map ob_ID obs)"
    and "distinct (map ob_TransactionID obs)"
    and "\<And>x. ob_State x = ObligationStatePending \<Longrightarrow> advances x (u x)"
  shows "updatePending (ob_ID x) u obs =
     Inr (u x, map (\<lambda>y. if ob_ID y = ob_ID x \<and> ob_State y = ObligationStatePending then u y else y) obs)"
proof -
  let ?hit = "\<lambda>y. ob_ID y = ob_ID x \<and> ob_State y = ObligationStatePending"
  let ?obs = "map (\<lambda>y. if ?hit y then u y else y) obs"
  have "find ?hit obs \<noteq> None" using assms(1,2) unfolding find_None_iff by blast
  then obtain y where y: "find ?hit obs = Some y" by blast
  have "inj_on ob_ID (set obs)" using assms(3) by (simp add: distinct_map)
  then have yx: "y = x" using find_Some_holds [OF y] assms(1) by (simp add: inj_on_def)
  have "list_all2 advances obs ?obs" using assms(5) by (simp add: list_all2_conv_all_nth)
  then have "map ob_TransactionID ?obs = map ob_TransactionID obs" by (rule advances_txids)
  then have "source_idx_ok ?obs" using assms(4) by (intro source_idx_txids) (simp only:)
  then show ?thesis using y yx by (simp add: updatePending_def Let_def)
qed

lemma LoadForReport_unique:
  assumes "LoadForReport (ob_TransactionID x) st = Inr rc" "x \<in> set (obligations st)"
    and "distinct (map ob_TransactionID (obligations st))"
  shows "rc_Obligation rc = x"
  using LoadForReport_row [OF assms(1)] assms(2,3) by (simp add: distinct_map inj_on_def)

lemma reportCall_simps [simp]:
  "rq_Report (reportCall a rc now) = Some (conformingReport rc now)"
  "rq_Caller (reportCall a rc now) = Inr (agentCaller a)" "rq_Now (reportCall a rc now) = now"
  "rq_Uuid (reportCall a rc now) = ''uuid''" "rq_Fault (reportCall a rc now) f = False"
  "rp_TransactionId (conformingReport rc now) = rc_TransactionID rc"
  "rp_IdempotencyKey (conformingReport rc now) = ''late''"
  by (simp_all add: reportCall_def conformingReport_def)

lemma ReportUsage_conforming:
  assumes inv: "report_inv (obligations st)" "distinct (map ob_TransactionID (obligations st))"
    and x: "x \<in> set (obligations st)" "ob_State x = ObligationStatePending"
    and rc: "LoadForReport (ob_TransactionID x) st = Inr rc" "reportable now rc" "rc_AgentID rc = a"
  shows "\<exists>n. ReportUsage (reportCall a rc now) st =
     (Inr ''uuid'', st\<lparr>obligations := map (\<lambda>y. if ob_ID y = ob_ID x \<and> ob_State y = ObligationStatePending
        then acceptRow ''late'' ''uuid'' n now y else y) (obligations st)\<rparr>)"
proof -
  have rx: "rc_Obligation rc = x" using LoadForReport_unique [OF rc(1) x(1) inv(2)] .
  have tx: "rc_TransactionID rc = ob_TransactionID x" "rc_TransactionID rc \<noteq> []"
    using rc(2) rx by (auto simp: reportable_def Let_def)
  have miss: "FindAcceptedBySourceReportID (ob_TransactionID x) ''late'' (obligations st) =
      Inl ErrObligationNotFound"
  proof -
    have "\<not> (ob_TransactionID y = ob_TransactionID x \<and> ob_IssuedReportID y \<noteq> None)"
      if "y \<in> set (obligations st)" for y
    proof
      assume y: "ob_TransactionID y = ob_TransactionID x \<and> ob_IssuedReportID y \<noteq> None"
      then have "y = x" using inv(2) that x(1) by (simp add: distinct_map inj_on_def)
      then show False using y x inv(1) by (simp add: report_inv_def list_all_iff)
    qed
    then have "find (\<lambda>y. ob_TransactionID y = ob_TransactionID x \<and> ''late'' \<noteq> [] \<and>
        ob_SourceReportID y = Some ''late'' \<and> ob_IssuedReportID y \<noteq> None) (obligations st) = None"
      unfolding find_None_iff by blast
    then show ?thesis unfolding FindAcceptedBySourceReportID_def by (simp only: option.case)
  qed
  define n where "n = GetConsumedQuantity (conformingReport rc now)"
  define obs' where "obs' = map (\<lambda>y. if ob_ID y = ob_ID x \<and> ob_State y = ObligationStatePending
      then acceptRow ''late'' ''uuid'' n now y else y) (obligations st)"
  have up: "updatePending (ob_ID x) (acceptRow ''late'' ''uuid'' n now) (obligations st) =
      Inr (acceptRow ''late'' ''uuid'' n now x, obs')" unfolding obs'_def
    using inv x by (intro updatePending_unique acceptRow_advances) (simp_all add: report_inv_def)
  have pv: "persistValidation (reportCall a rc now) (conformingReport rc now) rc st =
      Inr (''uuid'', st\<lparr>obligations := obs'\<rparr>)"
    using up by (simp add: persistValidation_def MarkValidationValidated_def rx n_def [symmetric] acceptRow_def)
  have "authorizeForAgent (agentCaller a) (rc_AgentID rc) (rc_AllowBrokerRelay rc) = None"
    using rc(3) by (simp add: authorizeForAgent_def agentCaller_def)
  then have "runReportUsageTx (reportCall a rc now) (agentCaller a) (conformingReport rc now) st =
      Inr (Inr ''uuid'', st\<lparr>obligations := obs'\<rparr>)"
    using rc(1) tx(1) pv validate_conforming [OF rc(2), of a]
    by (simp add: runReportUsageTx_def reportInput_def)
  then have "ReportUsage (reportCall a rc now) st = (Inr ''uuid'', st\<lparr>obligations := obs'\<rparr>)"
    using tx miss by (simp add: ReportUsage_def)
  then show ?thesis unfolding obs'_def by blast
qed

definition overdue_row :: "string \<Rightarrow> string \<Rightarrow> int \<Rightarrow> store \<Rightarrow> Obligation \<Rightarrow> bool" where
  "overdue_row tenantID agentID now st x =
     (ob_State x = ObligationStatePending \<and> ob_Deadline x < now \<and>
      (case txByID (ob_TransactionID x) st of
         None \<Rightarrow> False
       | Some t \<Rightarrow> tl_TenantID t = tenantID \<and> tl_AgentID t = agentID))"

lemma count_overdue:
  "CountByStateAndDueness tid aid now st (ObligationStatePending, True) =
     int (length (filter (overdue_row tid aid now st) (obligations st)))"
  by (simp add: CountByStateAndDueness_def overdue_row_def [abs_def])

lemma filter_less:
  assumes "list_all2 (\<lambda>x y. P y \<longrightarrow> P x) xs ys" "i < length xs" "P (xs ! i)" "\<not> P (ys ! i)"
  shows "length (filter P ys) < length (filter P xs)"
  using assms
proof (induction xs ys arbitrary: i rule: list_all2_induct)
  case (Cons x xs y ys)
  have le: "length (filter P ys) \<le> length (filter P xs)"
    using Cons.hyps(2) by (induction rule: list_all2_induct) auto
  show ?case
  proof (cases i)
    case 0
    then show ?thesis using Cons.prems le by simp
  next
    case (Suc j)
    then show ?thesis using Cons.prems Cons.IH [of j] Cons.hyps(1) by auto
  qed
qed simp

lemma filter_unique:
  "distinct (map f xs) \<Longrightarrow> x \<in> set xs \<Longrightarrow> filter (\<lambda>y. f y = f x) xs = [x]"
proof (induction xs)
  case (Cons y xs)
  show ?case
  proof (cases "y = x")
    case True
    have "f z \<noteq> f x" if "z \<in> set xs" for z using Cons.prems(1) True that by (auto simp: image_iff)
    then have "filter (\<lambda>y. f y = f x) xs = []" by (simp add: filter_empty_conv)
    then show ?thesis using True by simp
  next
    case False
    then have "f y \<noteq> f x" using Cons.prems by auto
    then show ?thesis using Cons False by simp
  qed
qed simp

lemma LoadForReport_same_row:
  assumes "distinct (map ob_TransactionID (obligations st))" "distinct (map ob_TransactionID (obligations st'))"
    and "y \<in> set (obligations st)" "y \<in> set (obligations st')"
    and "transactions st' = transactions st" "tenants st' = tenants st"
  shows "LoadForReport (ob_TransactionID y) st' = LoadForReport (ob_TransactionID y) st"
proof -
  have "tenantByID t st' = tenantByID t st" "txByID t st' = txByID t st" for t
    using assms(5,6) by (simp_all add: tenantByID_def txByID_def)
  then show ?thesis using filter_unique [OF assms(1,3)] filter_unique [OF assms(2,4)]
    by (simp add: LoadForReport_def ByTransaction_def split: option.splits)
qed

definition clearable :: "string \<Rightarrow> string \<Rightarrow> int \<Rightarrow> store \<Rightarrow> bool" where
  "clearable tenantID agentID now st =
     (report_inv (obligations st) \<and> distinct (map ob_TransactionID (obligations st)) \<and>
      list_all (\<lambda>x. overdue_row tenantID agentID now st x \<longrightarrow>
        (case LoadForReport (ob_TransactionID x) st of
           Inl _ \<Rightarrow> False
         | Inr rc \<Rightarrow> reportable now rc \<and> rc_AgentID rc = agentID)) (obligations st))"

text \<open>Filing one conforming report keeps the rest reportable and leaves one overdue row fewer.\<close>

lemma clear_one:
  assumes c: "clearable tid a now st" and x: "x \<in> set (obligations st)" "overdue_row tid a now st x"
  shows "\<exists>rc st'. ReportUsage (reportCall a rc now) st = (Inr ''uuid'', st') \<and> clearable tid a now st' \<and>
     length (filter (overdue_row tid a now st') (obligations st')) <
     length (filter (overdue_row tid a now st) (obligations st))"
proof -
  have inv: "report_inv (obligations st)" "distinct (map ob_TransactionID (obligations st))"
    using c by (simp_all add: clearable_def)
  have pend: "ob_State x = ObligationStatePending" using x(2) by (simp add: overdue_row_def)
  obtain rc where rc: "LoadForReport (ob_TransactionID x) st = Inr rc" "reportable now rc" "rc_AgentID rc = a"
    using c x by (cases "LoadForReport (ob_TransactionID x) st") (auto simp: clearable_def list_all_iff)
  let ?u = "\<lambda>n y. if ob_ID y = ob_ID x \<and> ob_State y = ObligationStatePending
      then acceptRow ''late'' ''uuid'' n now y else y"
  obtain n where r: "ReportUsage (reportCall a rc now) st =
      (Inr ''uuid'', st\<lparr>obligations := map (?u n) (obligations st)\<rparr>)"
    using ReportUsage_conforming [OF inv x(1) pend rc] by blast
  define st' where "st' = st\<lparr>obligations := map (?u n) (obligations st)\<rparr>"
  have same: "transactions st' = transactions st" "tenants st' = tenants st" by (simp_all add: st'_def)
  have step: "report_step st st'" using ReportUsage_step [of st "reportCall a rc now"] r by (simp add: st'_def)
  then have inv': "report_inv (obligations st')" "distinct (map ob_TransactionID (obligations st'))"
    using inv advances_txids [of "obligations st" "obligations st'"] by (auto simp: report_step_def)
  have od: "overdue_row tid a now st' = overdue_row tid a now st"
    by (rule ext) (simp add: overdue_row_def txByID_def same)
  have keep: "y \<in> set (obligations st)" if "y \<in> set (obligations st')" "overdue_row tid a now st y" for y
    using that by (auto simp: st'_def overdue_row_def acceptRow_def split: if_splits)
  have "clearable tid a now st'"
    using c inv' keep LoadForReport_same_row [OF inv(2) inv'(2) _ _ same]
    by (simp add: clearable_def list_all_iff od)
  moreover have "length (filter (overdue_row tid a now st') (obligations st')) <
      length (filter (overdue_row tid a now st) (obligations st))"
  proof -
    obtain i where i: "i < length (obligations st)" "obligations st ! i = x" using x(1) by (metis in_set_conv_nth)
    have "\<not> overdue_row tid a now st (obligations st' ! i)"
      using i pend by (simp add: st'_def overdue_row_def acceptRow_def)
    moreover have "list_all2 (\<lambda>x y. overdue_row tid a now st y \<longrightarrow> overdue_row tid a now st x)
        (obligations st) (obligations st')"
      by (simp add: st'_def list_all2_conv_all_nth overdue_row_def acceptRow_def)
    ultimately show ?thesis unfolding od using i x(2) by (intro filter_less) simp_all
  qed
  ultimately show ?thesis using r unfolding st'_def by blast
qed

lemma gate_open:
  assumes "filter (overdue_row tid a now st) (obligations st) = []"
  shows "denyIfReportingOverdue False tid a now st = None"
proof -
  have "0 \<le> CountByStateAndDueness tid a now st (ObligationStateReceived, True)"
    by (simp add: CountByStateAndDueness_def)
  moreover have "CountByStateAndDueness tid a now st (ObligationStatePending, True) = 0"
    using assms by (simp add: count_overdue)
  ultimately show ?thesis
    by (simp add: denyIfReportingOverdue_def Let_def blocks_def PastDeadline_def defaultOverdueRule_def
        wrap64_small)
qed

definition own_report :: "string \<Rightarrow> int \<Rightarrow> report_call \<Rightarrow> bool" where
  "own_report agentID now q = (rq_Caller q = Inr (agentCaller agentID) \<and> rq_Now q = now)"

lemma clear_all:
  "clearable tid a now st \<Longrightarrow> \<exists>qs. list_all (own_report a now) qs \<and>
     denyIfReportingOverdue False tid a now (report_run qs st) = None"
proof (induction "length (filter (overdue_row tid a now st) (obligations st))" arbitrary: st rule: less_induct)
  case less
  show ?case
  proof (cases "filter (overdue_row tid a now st) (obligations st)")
    case Nil
    then show ?thesis using gate_open by (intro exI [of _ "[]"]) (simp add: report_run_def)
  next
    case (Cons x xs)
    then have "x \<in> set (filter (overdue_row tid a now st) (obligations st))" by simp
    then have x: "x \<in> set (obligations st)" "overdue_row tid a now st x" by simp_all
    obtain rc st' where one: "ReportUsage (reportCall a rc now) st = (Inr ''uuid'', st')"
        "clearable tid a now st'"
        "length (filter (overdue_row tid a now st') (obligations st')) <
         length (filter (overdue_row tid a now st) (obligations st))"
      using clear_one [OF less.prems x] by blast
    obtain qs where qs: "list_all (own_report a now) qs"
        "denyIfReportingOverdue False tid a now (report_run qs st') = None"
      using less.hyps [OF one(3,2)] by blast
    have "report_run (reportCall a rc now # qs) st = report_run qs st'" by (simp add: report_run_def one(1))
    then show ?thesis using qs
      by (intro exI [of _ "reportCall a rc now # qs"]) (simp add: own_report_def)
  qed
qed

end
