(* ===== verification/Reporting_Properties.thy ===== *)
theory Reporting_Properties
  imports Reporting_Laws
begin

text \<open>
  Properties of usage reporting, with a one-obligation store as the concrete instance.
\<close>

section \<open>A small store\<close>

definition exTx :: TransactionRecord where
  "exTx = \<lparr>tl_TransactionID = ''tx1'', tl_IdempotencyKey = ''k:o'', tl_TenantID = ''t1'',
     tl_AgentID = ''a1'', tl_ResourceID = ''r'', tl_OfferID = ''o'', tl_AgentIdentityHash = [],
     tl_SignedURLHash = [], tl_Expiry = 0, tl_BillingID = Some ''b1'', tl_UnitCostDecimal = ''1'',
     tl_Currency = ''USD'', tl_CreatedAt = 0, tl_ResultPayload = None\<rparr>"

definition exOb :: Obligation where
  "exOb = \<lparr>ob_ID = ''o1'', ob_TransactionID = ''tx1'', ob_State = ObligationStatePending,
     ob_WindowSeconds = Some 60, ob_Deadline = 100, ob_ConsumedQuantity = None, ob_ReceivedAt = None,
     ob_CreatedAt = 0, ob_RequiredFields = [''consumed_quantity''], ob_EstimatedQuantity = 0,
     ob_QuantityTolerance = 1 / 5, ob_ValidationOutcome = None, ob_ValidatedAt = None,
     ob_SourceReportID = None, ob_IssuedReportID = None\<rparr>"

definition exStore :: store where
  "exStore = \<lparr>obligations = [exOb], transactions = [exTx], claims = [],
     tenants = [\<lparr>tn_ID = ''t1'', tn_Domain = ''p'', tn_ReportingPolicy = [],
       tn_AllowBrokerRelay = False, tn_FeeRateBps = 0\<rparr>]\<rparr>"

definition exCall :: "int \<Rightarrow> report_call" where
  "exCall consumed = \<lparr>rq_Report = Some \<lparr>rp_TransactionId = ''tx1'', rp_BillingId = ''b1'',
      rp_IdempotencyKey = ''r1'', rp_Exchange = ''x'',
      rp_Usage = Some \<lparr>us_ConsumedQuantity = consumed, us_Function = []\<rparr>, rp_Timestamp = None\<rparr>,
     rq_Caller = Inr (agentCaller ''a1''), rq_Now = 1000, rq_Uuid = ''u1'', rq_Fault = (\<lambda>_. False)\<rparr>"

definition exSettled :: store where
  "exSettled = exStore\<lparr>obligations := [acceptRow ''r1'' ''u1'' 0 1000 exOb]\<rparr>"






section \<open>Properties\<close>

text \<open>C13. A settled obligation is final: once a row is RECEIVED, no sequence of ReportUsage calls, by
  any callers, with any contents and any database failures, changes it in any field; the
  obligation only ever moves from PENDING to RECEIVED.\<close>

theorem ReportUsage_settled_final:
  assumes "i < length (obligations st)" "ob_State (obligations st ! i) = ObligationStateReceived"
  shows "length (obligations (report_run qs st)) = length (obligations st) \<and>
     obligations (report_run qs st) ! i = obligations st ! i"
  using report_run_step [of st qs] assms
  by (auto simp: report_step_def list_all2_conv_all_nth advances_def)

theorem ReportUsage_settled_final_witness:
  "obligations (report_run [exCall 7, exCall 0] exSettled) ! 0 = acceptRow ''r1'' ''u1'' 0 1000 exOb"
proof -
  have "0 < length (obligations exSettled)" "ob_State (obligations exSettled ! 0) = ObligationStateReceived"
    by (simp_all add: exSettled_def acceptRow_def)
  from ReportUsage_settled_final [OF this, of "[exCall 7, exCall 0]"]
  show ?thesis by (simp add: exSettled_def)
qed







text \<open>The tolerance is truncated to whole parts per million after a floating-point product: with a
  tolerance of 1.57 percent and an estimate of 10000, a consumption of 10157 lies exactly on the
  tolerance and is refused.\<close>

theorem validateTolerance_truncates:
  "\<bar>10157 - 10000\<bar> = 157 / 10000 * (10000 :: rat) \<and>
   fst (validateTolerance \<lparr>ri_Obligation = exOb\<lparr>ob_EstimatedQuantity := 10000,
       ob_QuantityTolerance := 157 / 10000\<rparr>,
     ri_TransactionID = ''tx1'', ri_BillingID = ''b1'', ri_CreatedAt = 0,
     ri_Report = the (rq_Report (exCall 10157)), ri_Now = 1000\<rparr>) = ValidationOutcomeRejectedTolerance"
proof -
  have "tolPPM (floatFromNumeric (157 / 10000)) = 15699"
    by code_simp
  moreover have "\<not> floatFromNumeric (157 / 10000) < 0"
    using floatFromNumeric_nonneg [of "157 / 10000"] by simp
  ultimately show ?thesis
    by (simp add: validateTolerance_def GetConsumedQuantity_def exCall_def exOb_def Let_def
        wrap64_small toleranceScale_def refuse_def)
qed

end
