(* ===== verification/Exchange_Authz.thy ===== *)
theory Exchange_Authz
  imports Reporting
begin

text \<open>
  Who is calling: the classification of a verified request signature into a \<open>Caller\<close>
  (\<open>service/authz.go\<close>), the resolution of the paying agent of a transaction
  (\<open>service/agent_resolution.go\<close>), the agents table (\<open>repo/agent.go\<close>), and the classification of a
  forwarding chain (\<open>service/authz_multisig.go\<close>).

  Parameters: \<open>az_FromDirectory\<close> is the host normalisation of \<open>internal/agentid\<close> (\<open>None\<close> when the
  value names no host); \<open>az_Register\<close> and \<open>az_Refresh\<close> are the two calls of the agent registry, which
  fetch a key directory over the network and write the agents table.
\<close>

record Agent =
  ag_ID :: string
  ag_PublicKey :: string
  ag_DiscoveryURL :: string
  ag_RequesterType :: string
  ag_BillingRef :: string

datatype agent_error = ErrNotAHost | ErrAgentNotFound | ErrAgentsDatabase

datatype registry_error = RegistryCallerFault | RegistryTransient

record authz_env =
  az_FromDirectory :: "string \<Rightarrow> string option"
  az_agentsWired :: bool
  az_registryWired :: bool
  az_Register :: "string \<Rightarrow> Agent list \<Rightarrow> (registry_error, Agent list) res"
  az_Refresh :: "string \<Rightarrow> Agent list \<Rightarrow> (registry_error, Agent list) res"
  az_dbFault :: bool

record VerifiedRequest =
  vr_KeyID :: string
  vr_PublicKey :: string
  vr_SignatureAgent :: string

definition agent_ByID :: "authz_env \<Rightarrow> string \<Rightarrow> Agent list \<Rightarrow> (agent_error, Agent) res" where
  "agent_ByID az agentID ags =
     (case az_FromDirectory az agentID of
        None \<Rightarrow> Inl ErrNotAHost
      | Some key \<Rightarrow>
          if az_dbFault az then Inl ErrAgentsDatabase
          else case find (\<lambda>a. ag_ID a = key) ags of
            None \<Rightarrow> Inl ErrAgentNotFound
          | Some a \<Rightarrow> Inr a)"

definition mapLazyRegisterError :: "registry_error \<Rightarrow> svc_error" where
  "mapLazyRegisterError e =
     (case e of RegistryCallerFault \<Rightarrow> Newf KindUnauthenticated | RegistryTransient \<Rightarrow> Newf KindUnavailable)"

definition resolveAgentLazily ::
  "authz_env \<Rightarrow> string \<Rightarrow> Agent list \<Rightarrow> (svc_error, Agent) res \<times> Agent list" where
  "resolveAgentLazily az callerHost ags =
     (case agent_ByID az callerHost ags of
        Inr a \<Rightarrow> (Inr a, ags)
      | Inl ErrNotAHost \<Rightarrow> (Inl (Newf KindUnauthenticated), ags)
      | Inl ErrAgentsDatabase \<Rightarrow> (Inl (Newf KindInternal), ags)
      | Inl ErrAgentNotFound \<Rightarrow>
          if \<not> az_registryWired az then (Inl (Newf KindUnauthenticated), ags)
          else case az_Register az callerHost ags of
            Inl e \<Rightarrow> (Inl (mapLazyRegisterError e), ags)
          | Inr ags' \<Rightarrow>
              (case agent_ByID az callerHost ags' of
                 Inr a \<Rightarrow> (Inr a, ags')
               | Inl ErrAgentNotFound \<Rightarrow> (Inl (Newf KindUnauthenticated), ags')
               | Inl _ \<Rightarrow> (Inl (Newf KindInternal), ags')))"

definition repinAndReload ::
  "authz_env \<Rightarrow> string \<Rightarrow> Agent \<Rightarrow> Agent list \<Rightarrow> Agent \<times> Agent list" where
  "repinAndReload az callerHost current ags =
     (if \<not> az_registryWired az then (current, ags)
      else case az_Refresh az callerHost ags of
        Inl _ \<Rightarrow> (current, ags)
      | Inr ags' \<Rightarrow>
          (case agent_ByID az callerHost ags' of
             Inl _ \<Rightarrow> (current, ags')
           | Inr reloaded \<Rightarrow> (reloaded, ags')))"

definition callerOf :: "VerifiedRequest \<Rightarrow> string \<Rightarrow> Agent \<Rightarrow> Caller" where
  "callerOf v callerHost a =
     (if ag_RequesterType a = ''BROKER''
      then \<lparr>ca_KeyID = vr_KeyID v, ca_Kind = CallerBroker, ca_AgentID = [], ca_PublicKey = vr_PublicKey v\<rparr>
      else \<lparr>ca_KeyID = vr_KeyID v, ca_Kind = CallerAgent, ca_AgentID = callerHost,
            ca_PublicKey = vr_PublicKey v\<rparr>)"

definition lookupCaller ::
  "authz_env \<Rightarrow> VerifiedRequest \<Rightarrow> Agent list \<Rightarrow> (svc_error, Caller) res \<times> Agent list" where
  "lookupCaller az v ags =
     (case az_FromDirectory az (vr_SignatureAgent v) of
        None \<Rightarrow> (Inl (Newf KindUnauthenticated), ags)
      | Some callerHost \<Rightarrow>
          (case resolveAgentLazily az callerHost ags of
             (Inl e, ags') \<Rightarrow> (Inl e, ags')
           | (Inr a, ags') \<Rightarrow>
               if ag_PublicKey a = vr_PublicKey v then (Inr (callerOf v callerHost a), ags')
               else
                 (case repinAndReload az callerHost a ags' of
                    (a', ags'') \<Rightarrow>
                      if ag_PublicKey a' = vr_PublicKey v then (Inr (callerOf v callerHost a'), ags'')
                      else (Inl (Newf KindUnauthenticated), ags''))))"

definition resolveCaller ::
  "authz_env \<Rightarrow> VerifiedRequest option \<Rightarrow> Agent list \<Rightarrow> (svc_error, Caller) res \<times> Agent list" where
  "resolveCaller az ctx ags =
     (case ctx of
        None \<Rightarrow> (Inl (Newf KindUnauthenticated), ags)
      | Some v \<Rightarrow>
          if vr_KeyID v = [] then (Inl (Newf KindUnauthenticated), ags)
          else if \<not> az_agentsWired az then (Inl (Newf KindInternal), ags)
          else lookupCaller az v ags)"

section \<open>The paying agent\<close>

record agentKey =
  ak_pub :: string
  ak_discoveryURL :: string

record resolvedAgent =
  ra_id :: string
  ra_billingRef :: string
  ra_key :: agentKey

definition resolveAgent ::
  "authz_env \<Rightarrow> string \<Rightarrow> Agent list \<Rightarrow> (svc_error, resolvedAgent) res \<times> Agent list" where
  "resolveAgent az requesterId ags =
     (case az_FromDirectory az requesterId of
        None \<Rightarrow> (Inl (WithField (Newf KindInvalidRequest) ''requester.id''), ags)
      | Some requesterID \<Rightarrow>
          if \<not> az_agentsWired az
          then (Inr \<lparr>ra_id = requesterID, ra_billingRef = [],
                  ra_key = \<lparr>ak_pub = [], ak_discoveryURL = []\<rparr>\<rparr>, ags)
          else
            (case resolveAgentLazily az requesterID ags of
               (Inl e, ags') \<Rightarrow> (Inl e, ags')
             | (Inr a, ags') \<Rightarrow>
                 (Inr \<lparr>ra_id = requesterID, ra_billingRef = ag_BillingRef a,
                    ra_key = \<lparr>ak_pub = ag_PublicKey a, ak_discoveryURL = ag_DiscoveryURL a\<rparr>\<rparr>, ags')))"

section \<open>The forwarding chain\<close>

record transportChain =
  tc_hasBroker :: bool
  tc_brokerKey :: string

definition classifyTransportChain :: "string list \<Rightarrow> transportChain" where
  "classifyTransportChain verified =
     (if 1 < length verified then \<lparr>tc_hasBroker = True, tc_brokerKey = last verified\<rparr>
      else \<lparr>tc_hasBroker = False, tc_brokerKey = []\<rparr>)"

definition authorizeTransportRelay :: "transportChain \<Rightarrow> Tenant \<Rightarrow> svc_error option" where
  "authorizeTransportRelay chain tenant =
     (if \<not> tc_hasBroker chain then None
      else if \<not> tn_AllowBrokerRelay tenant then Some (Newf KindPermissionDenied)
      else None)"

section \<open>Properties\<close>

lemma agent_ByID_Inr:
  assumes "agent_ByID az h ags = Inr a"
  shows "a \<in> set ags \<and> az_FromDirectory az h = Some (ag_ID a)"
  using assms
  by (auto simp: agent_ByID_def split: option.splits if_splits dest!: find_Some_holds)

lemma resolveAgentLazily_Inr:
  assumes "resolveAgentLazily az h ags = (Inr a, ags')"
  shows "agent_ByID az h ags' = Inr a"
proof (cases "agent_ByID az h ags")
  case (Inr b)
  then show ?thesis using assms by (simp add: resolveAgentLazily_def)
next
  case (Inl e)
  then have e: "e = ErrAgentNotFound" "az_registryWired az"
    using assms by (auto simp: resolveAgentLazily_def split: agent_error.splits if_splits)
  then obtain ags1 where r: "az_Register az h ags = Inr ags1"
    using assms Inl by (cases "az_Register az h ags") (auto simp: resolveAgentLazily_def)
  then show ?thesis using assms Inl e
    by (cases "agent_ByID az h ags1") (auto simp: resolveAgentLazily_def split: agent_error.splits)
qed

text \<open>C17. A caller is never somebody else: whenever a request is attributed to a caller, the agents table
  as the call leaves it (after a lazy registration or a re-pin) holds a row for the host the
  signature commits to whose registered key is exactly the key that verified the request; an agent
  caller acts as that host, a broker caller as nobody.\<close>

theorem lookupCaller_bound:
  assumes "lookupCaller az v ags = (Inr c, ags')"
  shows "\<exists>host a. az_FromDirectory az (vr_SignatureAgent v) = Some host \<and>
     agent_ByID az host ags' = Inr a \<and> ag_PublicKey a = vr_PublicKey v \<and>
     ca_PublicKey c = vr_PublicKey v \<and> ca_KeyID c = vr_KeyID v \<and>
     (if ag_RequesterType a = ''BROKER'' then ca_Kind c = CallerBroker \<and> ca_AgentID c = []
      else ca_Kind c = CallerAgent \<and> ca_AgentID c = host)"
proof -
  obtain host where h: "az_FromDirectory az (vr_SignatureAgent v) = Some host"
    using assms by (auto simp: lookupCaller_def split: option.splits)
  obtain a tab where ra: "resolveAgentLazily az host ags = (Inr a, tab)"
    using assms h by (auto simp: lookupCaller_def split: prod.splits sum.splits)
  have row: "agent_ByID az host tab = Inr a" using resolveAgentLazily_Inr [OF ra] .
  show ?thesis
  proof (cases "ag_PublicKey a = vr_PublicKey v")
    case True
    then have "c = callerOf v host a" "ags' = tab" using assms h ra by (simp_all add: lookupCaller_def)
    then show ?thesis using h ra row True by (auto simp: callerOf_def)
  next
    case False
    obtain b tab' where rp: "repinAndReload az host a tab = (b, tab')" by force
    then have b: "ag_PublicKey b = vr_PublicKey v" "c = callerOf v host b" "ags' = tab'"
      using assms h ra False by (auto simp: lookupCaller_def split: if_splits)
    then have "b \<noteq> a" using False by auto
    then have "agent_ByID az host tab' = Inr b"
      using rp by (auto simp: repinAndReload_def split: if_splits sum.splits)
    then show ?thesis using h b by (auto simp: callerOf_def)
  qed
qed

definition exAuthz :: authz_env where
  "exAuthz = \<lparr>az_FromDirectory = Some, az_agentsWired = True, az_registryWired = True,
     az_Register = (\<lambda>h ags. Inr (\<lparr>ag_ID = h, ag_PublicKey = ''k1'', ag_DiscoveryURL = h,
       ag_RequesterType = ''AGENT'', ag_BillingRef = []\<rparr> # ags)),
     az_Refresh = (\<lambda>h ags. Inr (\<lparr>ag_ID = h, ag_PublicKey = ''k2'', ag_DiscoveryURL = h,
       ag_RequesterType = ''AGENT'', ag_BillingRef = []\<rparr> # ags)), az_dbFault = False\<rparr>"

theorem lookupCaller_bound_witness:
  "\<exists>host a c ags'. lookupCaller exAuthz \<lparr>vr_KeyID = ''t'', vr_PublicKey = ''k2'', vr_SignatureAgent = ''a.example''\<rparr> []
       = (Inr c, ags') \<and> agent_ByID exAuthz host ags' = Inr a \<and> ag_PublicKey a = ''k2'' \<and> ca_AgentID c = host"
proof -
  let ?v = "\<lparr>vr_KeyID = ''t'', vr_PublicKey = ''k2'', vr_SignatureAgent = ''a.example''\<rparr>"
  have "\<exists>c ags'. lookupCaller exAuthz ?v [] = (Inr c, ags') \<and> ca_Kind c = CallerAgent"
    by (simp add: lookupCaller_def resolveAgentLazily_def repinAndReload_def agent_ByID_def exAuthz_def
        callerOf_def)
  then obtain c ags' where c: "lookupCaller exAuthz ?v [] = (Inr c, ags')" "ca_Kind c = CallerAgent" by blast
  from lookupCaller_bound [OF c(1)] c show ?thesis by (fastforce split: if_splits)
qed

end
