(* ===== verification/Batch_Execute.thy ===== *)
theory Batch_Execute
  imports Exchange_Authz Money
begin

text \<open>
  ExecuteTransaction, the batch pipeline of the Exchange: envelope validation
  (\<open>service/exchange_batch_validate.go\<close>), offer and acceptance verification
  (\<open>service/exchange_helpers.go\<close>, \<open>exchange.go\<close>, \<open>agent_acceptance.go\<close>, \<open>authz_multisig.go\<close>), item
  billing and persistence (\<open>exchange_batch.go\<close>, \<open>persist_intent.go\<close>), request claims, replay and
  finalization (\<open>exchange_batch_replay.go\<close>, \<open>exchange_batch_finalized.go\<close>).

  \<open>xstate\<close> is everything the pipeline reads and writes: the database tables, the evidence table, the
  agents table, the state \<open>'b\<close> of the billing adapter and a counter feeding \<open>uuid.NewString\<close>.
  \<open>benv\<close> holds the parameters: the protocol SDK (signature checks, canonical bytes, protobuf codec,
  money formatting), the URL signers, the system of record, the billing adapter, the catalog snapshot,
  which database calls fail, and what other processes do to the claims table while this one polls.
  One request reads one clock instant. Logging and the request correlation id are not modelled.
\<close>

section \<open>Messages\<close>

text \<open>A message is the record of the fields the services read, a getter on a nil submessage gives its zero
  value; \<open>of_Rest\<close> stands for the fields only the SDK reads.\<close>

record Offer =
  of_OfferId :: string
  of_Signature :: string
  of_CanonicalUrl :: string
  of_Pricing :: Pricing
  of_Title :: "string option"
  of_Expires :: int
  of_Exchange :: string
  of_Doi :: "string option"
  of_IptcGuid :: "string option"
  of_ContentHash :: "string option"
  of_Rest :: string

record TransactionItem =
  ti_Offer :: Offer
  ti_AcceptanceSignature :: string

record Requester =
  rr_Id :: string
  rr_Domain :: string

record TransactionRequest =
  tr_Ver :: string
  tr_IdempotencyKey :: string
  tr_Requester :: Requester
  tr_Items :: "TransactionItem list"
  tr_AgentRequestAcceptance :: "string option"

record TransactionResultItem =
  res_OfferId :: string
  res_TransactionId :: string
  res_BillingId :: string
  res_ResourceTitle :: "string option"
  res_Cost :: "Cost option"
  res_UnitCost :: "string option"
  res_ExpiresAt :: "int option"
  res_RetrievalEndpoint :: "string option"
  res_ReportingObligation :: "ReportingObligation option"
  res_DenialReason :: "DenialReason option"

record TransactionResponse =
  rs_Ver :: string
  rs_Items :: "TransactionResultItem list"
  rs_AgentIdentityHash :: string
  rs_TotalCost :: "Cost option"

record CatalogEntry =
  ce_ResourceID :: string
  ce_TenantID :: string
  ce_URI :: string
  ce_ResourceOwnerID :: string

record SignedURL =
  su_URL :: string
  su_Hash :: string
  su_Expiry :: int

record agentBinding =
  ab_thumbprint :: string
  ab_digest :: string
  ab_pub :: string
  ab_discoveryURL :: string
  ab_acceptanceBytes :: string

record resolvedOffer =
  ro_entry :: CatalogEntry
  ro_pricing :: PricingDoc
  ro_offerCanonicalBytes :: string

record EvidenceRecord =
  ev_TransactionID :: string
  ev_TenantID :: string
  ev_OfferID :: string
  ev_OfferJSON :: string
  ev_OfferCanonicalBytes :: string
  ev_OfferSignature :: string
  ev_AgentAcceptanceSignature :: string
  ev_AgentAcceptanceCanonicalBytes :: string
  ev_RequesterID :: string
  ev_RequesterDomain :: string
  ev_RequestIdempotencyKey :: string
  ev_AgentPublicKey :: string
  ev_AgentDiscoveryURL :: string
  ev_SignedURLFull :: string

record 'b xstate =
  x_store :: store
  x_evidence :: "EvidenceRecord list"
  x_agents :: "Agent list"
  x_billing :: 'b
  x_uuid :: nat

datatype offer_error = ErrOfferExpired | ErrOfferSignatureInvalid | ErrOfferMalformed

datatype sor_answer = SorAccountNotFound | SorTransientError | SorActive bool

datatype signer_error = ErrRSAKeyUnavailable | ErrSignerOther

datatype batch_fault =
    FaultTenant | FaultFeeOverride | FaultCount | FaultPersist | FaultEvidence | FaultClaim
  | FaultProbe | FaultReadResponse | FaultFinalize

record 'b benv =
  be_authz :: authz_env
  be_now :: int
  be_chain :: "string list"
  be_exchange :: string
  be_ProtocolVersion :: string
  be_VerifyPresentedOffer :: "Offer \<Rightarrow> int \<Rightarrow> offer_error option"
  be_CanonicalOfferBytes :: "Offer \<Rightarrow> string option"
  be_VerifyOffer :: "Offer \<Rightarrow> bool"
  be_VerifyOfferAcceptance :: "Offer \<Rightarrow> Requester \<Rightarrow> string \<Rightarrow> string \<Rightarrow> string \<Rightarrow> bool"
  be_CanonicalAcceptanceBytes :: "Offer \<Rightarrow> Requester \<Rightarrow> string \<Rightarrow> string option"
  be_VerifyRequestAcceptance :: "TransactionRequest \<Rightarrow> string \<Rightarrow> string \<Rightarrow> string \<Rightarrow> string option"
  be_ThumbprintBytes :: "string \<Rightarrow> string option"
  be_base64url :: "string \<Rightarrow> string"
  be_ParseMoney :: "string \<Rightarrow> rat option"
  be_FormatMoney :: "rat \<Rightarrow> string option"
  be_DecimalString :: "rat \<Rightarrow> string"
  be_MarshalItem :: "TransactionResultItem \<Rightarrow> string option"
  be_UnmarshalItem :: "string \<Rightarrow> TransactionResultItem option"
  be_MarshalResponse :: "TransactionResponse \<Rightarrow> string option"
  be_UnmarshalResponse :: "string \<Rightarrow> TransactionResponse option"
  be_MarshalOfferJSON :: "Offer \<Rightarrow> string option"
  be_unmarshalPolicy :: "string \<Rightarrow> reportingPolicy"
  be_shortest :: "rat \<Rightarrow> rat"
  be_ReportWindow :: int
  be_URLTTL :: int
  be_byURI :: "string \<Rightarrow> CatalogEntry option"
  be_feeOverride :: "string \<Rightarrow> string \<Rightarrow> int option"
  be_IsActive :: "string \<Rightarrow> sor_answer"
  be_URLSignerFor :: "Tenant \<Rightarrow> (signer_error, string \<Rightarrow> string \<Rightarrow> int \<Rightarrow> SignedURL option) res"
  be_Authorize :: "'b \<Rightarrow> AuthorizeRequest \<Rightarrow> 'b \<times> (billing_error, AuthorizeResult) res"
  be_Record :: "'b \<Rightarrow> string \<Rightarrow> int \<Rightarrow> string \<Rightarrow> 'b \<times> billing_error option"
  be_Release :: "'b \<Rightarrow> string \<Rightarrow> string \<Rightarrow> 'b \<times> billing_error option"
  be_uuid :: "nat \<Rightarrow> string"
  be_fault :: "batch_fault \<Rightarrow> bool"
  be_cancelled :: "nat \<Rightarrow> bool"
  be_others :: "nat \<Rightarrow> RequestClaim list \<Rightarrow> RequestClaim list"

section \<open>Envelope validation\<close>

definition maxIdempotencyKeyLen :: nat where "maxIdempotencyKeyLen = 256"
definition maxRequesterDomainLen :: nat where "maxRequesterDomainLen = 253"

fun validateItems :: "nat \<Rightarrow> string list \<Rightarrow> TransactionItem list \<Rightarrow> svc_error option" where
  "validateItems i seen [] = None"
| "validateItems i seen (item # items) =
     (let offer = ti_Offer item; id = of_OfferId offer
      in if of_Signature offer = [] then Some (Newf KindInvalidRequest)
         else if ti_AcceptanceSignature item = [] then Some (Newf KindInvalidRequest)
         else if of_CanonicalUrl offer = [] then
           Some (WithMeta (WithField (Newf KindInvalidRequest) ''items.offer.identity.canonical_url'')
             ''item_index'' (decimal i))
         else if id \<in> set seen then
           Some (WithMeta (WithField (Newf KindInvalidRequest) ''items.offer.offer_id'')
             ''item_index'' (decimal i))
         else validateItems (Suc i) (id # seen) items)"

definition validateBatchRequest :: "TransactionRequest \<Rightarrow> svc_error option" where
  "validateBatchRequest req =
     (if tr_IdempotencyKey req = [] then
        Some (WithField (Newf KindInvalidRequest) ''idempotency_key'')
      else if maxIdempotencyKeyLen < length (tr_IdempotencyKey req) then
        Some (WithField (Newf KindInvalidRequest) ''idempotency_key'')
      else if rr_Id (tr_Requester req) = [] then Some (Newf KindInvalidRequest)
      else if maxRequesterDomainLen < length (rr_Domain (tr_Requester req)) then
        Some (WithField (Newf KindInvalidRequest) ''requester.domain'')
      else if tr_Items req = [] then Some (Newf KindInvalidRequest)
      else validateItems 0 [] (tr_Items req))"

section \<open>Verification\<close>

definition verifier :: "agentKey \<Rightarrow> (svc_error, string) res" where
  "verifier k = (if length (ak_pub k) \<noteq> 32 then Inl (Newf KindInternal) else Inr (ak_pub k))"

definition agentBindingForKey ::
  "'b benv \<Rightarrow> agentKey \<Rightarrow> string \<Rightarrow> (svc_error, agentBinding) res" where
  "agentBindingForKey env key acceptanceBytes =
     (case be_ThumbprintBytes env (ak_pub key) of
        None \<Rightarrow> Inl (Newf KindInternal)
      | Some digest \<Rightarrow>
          Inr \<lparr>ab_thumbprint = be_base64url env digest, ab_digest = digest, ab_pub = ak_pub key,
            ab_discoveryURL = ak_discoveryURL key, ab_acceptanceBytes = acceptanceBytes\<rparr>)"

text \<open>The item is \<open>items[0]\<close> of the synthetic request \<open>itemRequest\<close> builds, which shares the envelope.\<close>

definition verifyAgentAcceptance ::
  "'b benv \<Rightarrow> TransactionRequest \<Rightarrow> TransactionItem \<Rightarrow> agentKey \<Rightarrow> (svc_error, agentBinding) res" where
  "verifyAgentAcceptance env req item key =
     (case verifier key of
        Inl e \<Rightarrow> Inl e
      | Inr pub \<Rightarrow>
          if \<not> be_VerifyOfferAcceptance env (ti_Offer item) (tr_Requester req) (tr_IdempotencyKey req)
                 (ti_AcceptanceSignature item) pub
          then Inl (Newf KindSignatureInvalid)
          else case be_CanonicalAcceptanceBytes env (ti_Offer item) (tr_Requester req) (tr_IdempotencyKey req) of
            None \<Rightarrow> Inl (Newf KindInternal)
          | Some bytes \<Rightarrow> agentBindingForKey env key bytes)"

definition verifyRequestAcceptance ::
  "'b benv \<Rightarrow> TransactionRequest \<Rightarrow> string \<Rightarrow> agentKey \<Rightarrow> (svc_error, agentBinding \<times> string) res" where
  "verifyRequestAcceptance env req acceptance key =
     (case verifier key of
        Inl e \<Rightarrow> Inl e
      | Inr pub \<Rightarrow>
          (case be_VerifyRequestAcceptance env req acceptance (be_exchange env) pub of
             None \<Rightarrow> Inl (Newf KindSignatureInvalid)
           | Some canonical \<Rightarrow>
               (case agentBindingForKey env key [] of
                  Inl e \<Rightarrow> Inl e
                | Inr binding \<Rightarrow> Inr (binding, canonical))))"

definition verifyPresentedOffer :: "'b benv \<Rightarrow> Offer \<Rightarrow> (svc_error, string) res" where
  "verifyPresentedOffer env offer =
     (case be_VerifyPresentedOffer env offer (be_now env) of
        None \<Rightarrow>
          (case be_CanonicalOfferBytes env offer of
             None \<Rightarrow> Inl (Newf KindInternal)
           | Some canonical \<Rightarrow> Inr canonical)
      | Some ErrOfferExpired \<Rightarrow> Inl (Newf KindOfferExpired)
      | Some ErrOfferSignatureInvalid \<Rightarrow> Inl (Newf KindSignatureInvalid)
      | Some ErrOfferMalformed \<Rightarrow> Inl (Newf KindInvalidRequest))"

definition resolveOfferForTx :: "'b benv \<Rightarrow> TransactionItem \<Rightarrow> (svc_error, resolvedOffer) res" where
  "resolveOfferForTx env item =
     (let presented = ti_Offer item
      in case verifyPresentedOffer env presented of
           Inl e \<Rightarrow> Inl e
         | Inr canonical \<Rightarrow>
             (case be_byURI env (of_CanonicalUrl presented) of
                None \<Rightarrow> Inl (Newf KindContentUnavailable)
              | Some entry \<Rightarrow>
                  (case pricingDocFromPricing (be_ParseMoney env) (of_Pricing presented) of
                     None \<Rightarrow> Inl (Newf KindInvalidRequest)
                   | Some pricing \<Rightarrow>
                       Inr \<lparr>ro_entry = entry, ro_pricing = pricing, ro_offerCanonicalBytes = canonical\<rparr>)))"

definition authorizeExecute ::
  "'b benv \<Rightarrow> TransactionRequest \<Rightarrow> TransactionItem \<Rightarrow> resolvedAgent \<Rightarrow> Tenant \<Rightarrow>
   (svc_error, agentBinding) res" where
  "authorizeExecute env req item agent tenant =
     (case authorizeTransportRelay (classifyTransportChain (be_chain env)) tenant of
        Some e \<Rightarrow> Inl e
      | None \<Rightarrow> verifyAgentAcceptance env req item (ra_key agent))"

section \<open>Billing one item\<close>

definition checkAccountActive :: "'b benv \<Rightarrow> string \<Rightarrow> svc_error option" where
  "checkAccountActive env billingRef =
     (case be_IsActive env billingRef of
        SorAccountNotFound \<Rightarrow> Some (Newf KindAccountInactive)
      | SorTransientError \<Rightarrow> None
      | SorActive active \<Rightarrow> if \<not> active then Some (Newf KindAccountInactive) else None)"

record billingResolution =
  br_tenantID :: string
  br_billingRef :: string
  br_pricing :: PricingDoc
  br_idempotencyKey :: string
  br_resourceOwnerID :: string
  br_feeRateBps :: int

text \<open>\<open>NewAmount\<close> reads back the exact decimal string of the unit cost.\<close>

definition authorizeRequestFor :: "billingResolution \<Rightarrow> AuthorizeRequest" where
  "authorizeRequestFor i =
     \<lparr>TenantID = br_tenantID i, BillingRef = br_billingRef i,
      UnitCost = \<lparr>Value = Some (pd_UnitCost (br_pricing i)), Currency = pd_Currency (br_pricing i)\<rparr>,
      Quantity = (if pd_EstQty (br_pricing i) \<le> 0 then 1 else pd_EstQty (br_pricing i)),
      Unit = pd_Unit (br_pricing i), IdempotencyKey = br_idempotencyKey i,
      ResourceOwnerID = br_resourceOwnerID i, FeeRateBps = br_feeRateBps i\<rparr>"

definition authorizeBilling ::
  "'b benv \<Rightarrow> billingResolution \<Rightarrow> 'b \<Rightarrow> (svc_error, AuthorizeResult) res \<times> 'b" where
  "authorizeBilling env i b =
     (case be_Authorize env b (authorizeRequestFor i) of
        (b', Inl e) \<Rightarrow> (Inl (Newf (billingErrorKind e)), b')
      | (b', Inr r) \<Rightarrow> if \<not> Approved r then (Inl (Newf KindBillingDenied), b') else (Inr r, b'))"

definition resolveBilling ::
  "'b benv \<Rightarrow> billingResolution \<Rightarrow> 'b \<Rightarrow> (svc_error, AuthorizeResult) res \<times> 'b" where
  "resolveBilling env i b =
     (if br_billingRef i = [] then (Inl (Newf KindAccountNotRegistered), b)
      else case checkAccountActive env (br_billingRef i) of
        Some e \<Rightarrow> (Inl e, b)
      | None \<Rightarrow> authorizeBilling env i b)"

definition hasNoReservation :: "string \<Rightarrow> bool" where
  "hasNoReservation billingID = (billingID = [])"

definition releaseHold :: "'b benv \<Rightarrow> string \<Rightarrow> string \<Rightarrow> 'b \<Rightarrow> 'b" where
  "releaseHold env billingID key b =
     (if hasNoReservation billingID then b else fst (be_Release env b billingID key))"

definition releaseDuplicateLossHold ::
  "'b benv \<Rightarrow> string \<Rightarrow> string \<Rightarrow> TransactionRecord list \<Rightarrow> 'b \<Rightarrow> 'b" where
  "releaseDuplicateLossHold env billingID derivedKey txs b =
     (if hasNoReservation billingID then b
      else if be_fault env FaultProbe then b
      else case ByIdempotencyKey derivedKey txs of
        Inl _ \<Rightarrow> b
      | Inr rec \<Rightarrow>
          if textOrEmpty (tl_BillingID rec) = billingID then b
          else releaseHold env billingID derivedKey b)"

definition isIdempotentReplay :: "svc_error \<Rightarrow> bool" where
  "isIdempotentReplay e = (kindOf e = Some KindIdempotent)"

definition mintSignedURL :: "'b benv \<Rightarrow> Tenant \<Rightarrow> CatalogEntry \<Rightarrow> string \<Rightarrow> (svc_error, SignedURL) res" where
  "mintSignedURL env tenant entry agentThumbprint =
     (case be_URLSignerFor env tenant of
        Inl ErrRSAKeyUnavailable \<Rightarrow> Inl (Newf KindFailedPrecondition)
      | Inl ErrSignerOther \<Rightarrow> Inl (Newf KindInternal)
      | Inr signURL \<Rightarrow>
          (case signURL (ce_URI entry) agentThumbprint (be_now env + be_URLTTL env) of
             None \<Rightarrow> Inl (Newf KindInternal)
           | Some surl \<Rightarrow> Inr surl))"

definition maxInt32 :: "int \<Rightarrow> int \<Rightarrow> int" where
  "maxInt32 v fallback = (if v \<le> 0 then fallback else v)"

definition buildBatchResultItem ::
  "'b benv \<Rightarrow> TransactionItem \<Rightarrow> string \<Rightarrow> string \<Rightarrow> SignedURL \<Rightarrow> PricingDoc \<Rightarrow> obligationPlan \<Rightarrow>
   TransactionResultItem" where
  "buildBatchResultItem env item transactionID billingID surl pricing plan =
     (let amountStr = be_FormatMoney env (pd_UnitCost pricing * of_int (maxInt32 (pd_EstQty pricing) 1));
          ucStr = be_FormatMoney env (pd_UnitCost pricing);
          costs = (case (amountStr, ucStr) of
             (Some a, Some u) \<Rightarrow>
               (Some \<lparr>cost_Amount = a, cost_Currency = pd_Currency pricing\<rparr>, Some u)
           | _ \<Rightarrow> (None, None))
      in \<lparr>res_OfferId = of_OfferId (ti_Offer item), res_TransactionId = transactionID,
          res_BillingId = billingID, res_ResourceTitle = of_Title (ti_Offer item),
          res_Cost = fst costs, res_UnitCost = snd costs, res_ExpiresAt = Some (su_Expiry surl),
          res_RetrievalEndpoint = Some (su_URL surl),
          res_ReportingObligation = Some (buildReportingObligation plan),
          res_DenialReason = None\<rparr>)"

section \<open>Persisting one item\<close>

record persistInput =
  pi_tenant :: Tenant
  pi_entry :: CatalogEntry
  pi_pricing :: PricingDoc
  pi_plan :: obligationPlan
  pi_req :: TransactionRequest
  pi_item :: TransactionItem
  pi_agentID :: string
  pi_billingID :: string
  pi_signed :: SignedURL
  pi_binding :: agentBinding
  pi_idempotencyKey :: string
  pi_offerCanonicalBytes :: string
  pi_transactionID :: string
  pi_resultPayload :: string

definition offerEvidence :: "'b benv \<Rightarrow> persistInput \<Rightarrow> (svc_error, EvidenceRecord) res" where
  "offerEvidence env i =
     (case be_MarshalOfferJSON env (ti_Offer (pi_item i)) of
        None \<Rightarrow> Inl (Newf KindInternal)
      | Some json \<Rightarrow>
          Inr \<lparr>ev_TransactionID = [], ev_TenantID = [],
            ev_OfferID = of_OfferId (ti_Offer (pi_item i)), ev_OfferJSON = json,
            ev_OfferCanonicalBytes = pi_offerCanonicalBytes i,
            ev_OfferSignature = of_Signature (ti_Offer (pi_item i)),
            ev_AgentAcceptanceSignature = ti_AcceptanceSignature (pi_item i),
            ev_AgentAcceptanceCanonicalBytes = ab_acceptanceBytes (pi_binding i),
            ev_RequesterID = rr_Id (tr_Requester (pi_req i)),
            ev_RequesterDomain = rr_Domain (tr_Requester (pi_req i)),
            ev_RequestIdempotencyKey = tr_IdempotencyKey (pi_req i),
            ev_AgentPublicKey = ab_pub (pi_binding i),
            ev_AgentDiscoveryURL = ab_discoveryURL (pi_binding i),
            ev_SignedURLFull = su_URL (pi_signed i)\<rparr>)"

definition buildPersistIntent ::
  "'b benv \<Rightarrow> string \<Rightarrow> persistInput \<Rightarrow> (svc_error, PersistTxIntent \<times> EvidenceRecord) res" where
  "buildPersistIntent env obligationID i =
     (case offerEvidence env i of
        Inl e \<Rightarrow> Inl e
      | Inr evidence \<Rightarrow>
          Inr (\<lparr>in_TransactionID = pi_transactionID i, in_IdempotencyKey = pi_idempotencyKey i,
             in_ObligationID = obligationID, in_TenantID = tn_ID (pi_tenant i),
             in_AgentID = pi_agentID i, in_ResourceID = ce_ResourceID (pi_entry i),
             in_OfferID = of_OfferId (ti_Offer (pi_item i)),
             in_AgentIdentityHash = ab_digest (pi_binding i), in_SignedURLHash = su_Hash (pi_signed i),
             in_Expiry = su_Expiry (pi_signed i), in_ResultPayload = Some (pi_resultPayload i),
             in_BillingID = pi_billingID i,
             in_UnitCostDecimal = be_DecimalString env (pd_UnitCost (pi_pricing i)),
             in_Currency = pd_Currency (pi_pricing i), in_State = ObligationStatePending,
             in_WindowSeconds = plan_WindowSeconds (pi_plan i),
             in_Deadline = be_now env + plan_WindowSeconds (pi_plan i) * 1000000000,
             in_RequiredFields = plan_RequiredFields (pi_plan i),
             in_EstimatedQuantity = pd_EstQty (pi_pricing i),
             in_QuantityTolerance = plan_QuantityTolerance (pi_plan i)\<rparr>, evidence))"

definition classifyTxWriteError :: "repo_error \<Rightarrow> svc_error" where
  "classifyTxWriteError e =
     (if e = ErrIdempotencyUnique then Newf KindIdempotent else Newf KindInternal)"

definition ev_CreateForOffer ::
  "string \<Rightarrow> string \<Rightarrow> EvidenceRecord \<Rightarrow> EvidenceRecord list \<Rightarrow> (repo_error, EvidenceRecord list) res" where
  "ev_CreateForOffer txID tenantID e evs =
     (if txID \<in> set (map ev_TransactionID evs) then Inl ErrUniqueViolation
      else Inr (evs @ [e\<lparr>ev_TransactionID := txID, ev_TenantID := tenantID\<rparr>]))"

text \<open>One database transaction over the log, the obligation and the evidence rows.\<close>

definition persistTransaction ::
  "'b benv \<Rightarrow> persistInput \<Rightarrow> 'b xstate \<Rightarrow> svc_error option \<times> 'b xstate" where
  "persistTransaction env i x =
     (case buildPersistIntent env (be_uuid env (x_uuid x)) i of
        Inl e \<Rightarrow> (Some e, x)
      | Inr (intent, evidence) \<Rightarrow>
          let x1 = x\<lparr>x_uuid := Suc (x_uuid x)\<rparr>; st = x_store x
          in if be_fault env FaultPersist then (Some (classifyTxWriteError ErrDatabase), x1)
             else case tl_CreateForOffer (be_now env) intent (transactions st) of
               Inl e \<Rightarrow> (Some (classifyTxWriteError e), x1)
             | Inr txs \<Rightarrow>
                 (case (if plan_Required (pi_plan i)
                        then ob_CreateForOffer (be_shortest env) (be_now env) intent (obligations st)
                        else Inr (obligations st)) of
                    Inl e \<Rightarrow> (Some (classifyTxWriteError e), x1)
                  | Inr obs \<Rightarrow>
                      if be_fault env FaultEvidence then (Some (classifyTxWriteError ErrDatabase), x1)
                      else case ev_CreateForOffer (in_TransactionID intent) (in_TenantID intent) evidence
                                  (x_evidence x) of
                        Inl e \<Rightarrow> (Some (classifyTxWriteError e), x1)
                      | Inr evs \<Rightarrow>
                          (None, x1\<lparr>x_store := st\<lparr>transactions := txs, obligations := obs\<rparr>,
                                    x_evidence := evs\<rparr>)))"

section \<open>One item\<close>

record batchItemBilling =
  bi_tenant :: Tenant
  bi_resolved :: resolvedOffer
  bi_req :: TransactionRequest
  bi_item :: TransactionItem
  bi_agentID :: string
  bi_billingRef :: string
  bi_binding :: agentBinding
  bi_derivedKey :: string
  bi_feeRateBps :: int

definition resolutionOf :: "batchItemBilling \<Rightarrow> billingResolution" where
  "resolutionOf i =
     \<lparr>br_tenantID = tn_ID (bi_tenant i), br_billingRef = bi_billingRef i,
      br_pricing = ro_pricing (bi_resolved i), br_idempotencyKey = bi_derivedKey i,
      br_resourceOwnerID = ce_ResourceOwnerID (ro_entry (bi_resolved i)),
      br_feeRateBps = bi_feeRateBps i\<rparr>"

text \<open>What follows a reservation (or none, \<open>billingID = []\<close>): sign, build, persist, settle.\<close>

definition deliverItem ::
  "'b benv \<Rightarrow> batchItemBilling \<Rightarrow> string \<Rightarrow> 'b xstate \<Rightarrow> (svc_error, TransactionResultItem) res \<times> 'b xstate" where
  "deliverItem env i billingID x =
     (let key = bi_derivedKey i; pricing = ro_pricing (bi_resolved i);
          release = (\<lambda>y. y\<lparr>x_billing := releaseHold env billingID key (x_billing y)\<rparr>)
      in case mintSignedURL env (bi_tenant i) (ro_entry (bi_resolved i)) (ab_thumbprint (bi_binding i)) of
           Inl e \<Rightarrow> (Inl e, release x)
         | Inr surl \<Rightarrow>
             let txID = be_uuid env (x_uuid x);
                 x1 = x\<lparr>x_uuid := Suc (x_uuid x)\<rparr>;
                 plan = planObligation (be_unmarshalPolicy env) (be_ReportWindow env) (bi_tenant i) pricing;
                 result = buildBatchResultItem env (bi_item i) txID billingID surl pricing plan
             in case be_MarshalItem env result of
                  None \<Rightarrow> (Inl (Newf KindInternal), release x1)
                | Some payload \<Rightarrow>
                    (case persistTransaction env
                        \<lparr>pi_tenant = bi_tenant i, pi_entry = ro_entry (bi_resolved i),
                         pi_pricing = pricing, pi_plan = plan, pi_req = bi_req i, pi_item = bi_item i,
                         pi_agentID = bi_agentID i, pi_billingID = billingID, pi_signed = surl,
                         pi_binding = bi_binding i, pi_idempotencyKey = key,
                         pi_offerCanonicalBytes = ro_offerCanonicalBytes (bi_resolved i),
                         pi_transactionID = txID, pi_resultPayload = payload\<rparr> x1 of
                       (Some e, x2) \<Rightarrow>
                         (Inl e,
                          if isIdempotentReplay e
                          then x2\<lparr>x_billing := releaseDuplicateLossHold env billingID key
                                     (transactions (x_store x2)) (x_billing x2)\<rparr>
                          else release x2)
                     | (None, x2) \<Rightarrow>
                         (Inr result,
                          if IsFree pricing then x2
                          else x2\<lparr>x_billing := fst (be_Record env (x_billing x2) billingID
                                 (pd_EstQty pricing) key)\<rparr>)))"

definition runBatchItemBilling ::
  "'b benv \<Rightarrow> batchItemBilling \<Rightarrow> 'b xstate \<Rightarrow> (svc_error, TransactionResultItem) res \<times> 'b xstate" where
  "runBatchItemBilling env i x =
     (if IsFree (ro_pricing (bi_resolved i)) then deliverItem env i [] x
      else case resolveBilling env (resolutionOf i) (x_billing x) of
        (Inl e, b) \<Rightarrow> (Inl e, x\<lparr>x_billing := b\<rparr>)
      | (Inr auth, b) \<Rightarrow> deliverItem env i (BillingID auth) (x\<lparr>x_billing := b\<rparr>))"

definition executeBatchItem ::
  "'b benv \<Rightarrow> TransactionRequest \<Rightarrow> TransactionItem \<Rightarrow> resolvedAgent \<Rightarrow> 'b xstate \<Rightarrow>
   (svc_error, TransactionResultItem \<times> string) res \<times> 'b xstate" where
  "executeBatchItem env req item agent x =
     (case resolveOfferForTx env item of
        Inl e \<Rightarrow> (Inl e, x)
      | Inr resolved \<Rightarrow>
          (case (if be_fault env FaultTenant then None
                 else tenantByID (ce_TenantID (ro_entry resolved)) (x_store x)) of
             None \<Rightarrow> (Inl (Newf KindInternal), x)
           | Some tenant \<Rightarrow>
               (case authorizeExecute env req item agent tenant of
                  Inl e \<Rightarrow> (Inl e, x)
                | Inr binding \<Rightarrow>
                    (case denyIfReportingOverdue (be_fault env FaultCount) (tn_ID tenant) (ra_id agent)
                            (be_now env) (x_store x) of
                       Some e \<Rightarrow> (Inl e, x)
                     | None \<Rightarrow>
                         if be_fault env FaultFeeOverride then (Inl (Newf KindInternal), x)
                         else
                           (case runBatchItemBilling env
                               \<lparr>bi_tenant = tenant, bi_resolved = resolved, bi_req = req, bi_item = item,
                                bi_agentID = ra_id agent, bi_billingRef = ra_billingRef agent,
                                bi_binding = binding,
                                bi_derivedKey = DerivedItemKey (tr_IdempotencyKey req)
                                  (of_OfferId (ti_Offer item)),
                                bi_feeRateBps = ResolveFeeRateBps (tn_FeeRateBps tenant)
                                  (be_feeOverride env (tn_ID tenant)
                                    (ce_ResourceOwnerID (ro_entry resolved)))\<rparr> x of
                              (Inl e, x') \<Rightarrow> (Inl e, x')
                            | (Inr result, x') \<Rightarrow> (Inr (result, ab_thumbprint binding), x'))))))"

end
