(* ===== verification/Batch_Admission.thy ===== *)
theory Batch_Admission
  imports Batch_Execute Sha256
begin

text \<open>
  The request level of ExecuteTransaction: replay from the transaction log, admission and the
  request claim (\<open>service/exchange_batch_replay.go\<close>), the finalized response and the bounded wait for
  it (\<open>service/exchange_batch_finalized.go\<close>), the item loop and \<open>executeBatch\<close>
  (\<open>service/exchange_batch.go\<close>). A response of \<open>None\<close> with no error is Go's \<open>ok = false\<close>.
\<close>

section \<open>Responses\<close>

definition batchDenialResult :: "TransactionItem \<Rightarrow> svc_error \<Rightarrow> TransactionResultItem option" where
  "batchDenialResult item e =
     (case DenialReasonForKind e of
        (_, False) \<Rightarrow> None
      | (reason, True) \<Rightarrow>
          Some \<lparr>res_OfferId = of_OfferId (ti_Offer item), res_TransactionId = [], res_BillingId = [],
            res_ResourceTitle = None, res_Cost = None, res_UnitCost = None, res_ExpiresAt = None,
            res_RetrievalEndpoint = None, res_ReportingObligation = None,
            res_DenialReason = Some reason\<rparr>)"

definition buildBatchTxResponse ::
  "'b benv \<Rightarrow> TransactionResultItem list \<Rightarrow> string \<Rightarrow> (svc_error, TransactionResponse) res" where
  "buildBatchTxResponse env items agentThumbprint =
     (case BatchTotal (be_ParseMoney env) (be_FormatMoney env) (map res_Cost items) of
        Inl _ \<Rightarrow> Inl (Newf KindInternal)
      | Inr total_cost \<Rightarrow>
          Inr \<lparr>rs_Ver = be_ProtocolVersion env, rs_Items = items,
            rs_AgentIdentityHash = agentThumbprint, rs_TotalCost = total_cost\<rparr>)"

section \<open>Replay from the transaction log\<close>

text \<open>The loop over the items: the decoded results and the identity hashes of the rows found.\<close>

fun replayRows ::
  "'b benv \<Rightarrow> string \<Rightarrow> TransactionItem list \<Rightarrow> TransactionRecord list \<Rightarrow>
   (svc_error, (TransactionResultItem \<times> string) list) res" where
  "replayRows env requestKey [] txs = Inr []"
| "replayRows env requestKey (item # items) txs =
     (if be_fault env FaultProbe then Inl (Newf KindInternal)
      else case ByIdempotencyKey (DerivedItemKey requestKey (of_OfferId (ti_Offer item))) txs of
        Inl _ \<Rightarrow> replayRows env requestKey items txs
      | Inr rec \<Rightarrow>
          if textOrEmpty (tl_ResultPayload rec) = [] then Inl (Newf KindIdempotent)
          else case be_UnmarshalItem env (textOrEmpty (tl_ResultPayload rec)) of
            None \<Rightarrow> Inl (Newf KindInternal)
          | Some result \<Rightarrow>
              (case replayRows env requestKey items txs of
                 Inl e \<Rightarrow> Inl e
               | Inr rows \<Rightarrow> Inr ((result, tl_AgentIdentityHash rec) # rows)))"

definition replayBatchResponse ::
  "'b benv \<Rightarrow> TransactionRequest \<Rightarrow> agentBinding \<Rightarrow> TransactionRecord list \<Rightarrow>
   (svc_error, TransactionResponse option) res" where
  "replayBatchResponse env req binding txs =
     (case replayRows env (tr_IdempotencyKey req) (tr_Items req) txs of
        Inl e \<Rightarrow> Inl e
      | Inr rows \<Rightarrow>
          if rows = [] then Inr None
          else if length rows \<noteq> length (tr_Items req) then Inl (Newf KindIdempotent)
          else if list_ex (\<lambda>h. ab_digest binding \<noteq> h) (map snd rows) then Inl (Newf KindPermissionDenied)
          else case buildBatchTxResponse env (map fst rows) (ab_thumbprint binding) of
            Inl e \<Rightarrow> Inl e
          | Inr resp \<Rightarrow> Inr (Some resp))"

section \<open>The finalized response\<close>

definition finalizedWaitPolls :: nat where "finalizedWaitPolls = 60"

definition serveFinalizedResponse ::
  "'b benv \<Rightarrow> agentBinding \<Rightarrow> string \<Rightarrow> (svc_error, TransactionResponse option) res" where
  "serveFinalizedResponse env binding payload =
     (case be_UnmarshalResponse env payload of
        None \<Rightarrow> Inl (Newf KindInternal)
      | Some resp \<Rightarrow>
          if rs_AgentIdentityHash resp \<noteq> [] \<and> rs_AgentIdentityHash resp \<noteq> ab_thumbprint binding
          then Inl (Newf KindPermissionDenied)
          else Inr (Some resp))"

definition finalizedResponse ::
  "'b benv \<Rightarrow> TransactionRequest \<Rightarrow> string \<Rightarrow> agentBinding \<Rightarrow> RequestClaim list \<Rightarrow>
   (svc_error, TransactionResponse option) res" where
  "finalizedResponse env req agentID binding cs =
     (if be_fault env FaultReadResponse then Inl (Newf KindInternal)
      else
        let payload = textOrEmpty (RequestResponse agentID (tr_IdempotencyKey req) cs)
        in if payload = [] then Inr None else serveFinalizedResponse env binding payload)"

function awaitFinalizedFrom ::
  "'b benv \<Rightarrow> TransactionRequest \<Rightarrow> string \<Rightarrow> agentBinding \<Rightarrow> nat \<Rightarrow> RequestClaim list \<Rightarrow>
   (svc_error, TransactionResponse option) res \<times> RequestClaim list" where
  "awaitFinalizedFrom env req agentID binding poll cs =
     (case finalizedResponse env req agentID binding cs of
        Inl e \<Rightarrow> (Inl e, cs)
      | Inr (Some resp) \<Rightarrow> (Inr (Some resp), cs)
      | Inr None \<Rightarrow>
          if finalizedWaitPolls \<le> poll then (Inr None, cs)
          else if be_cancelled env poll then (Inr None, cs)
          else awaitFinalizedFrom env req agentID binding (Suc poll) (be_others env poll cs))"
  by pat_completeness auto
termination
  by (relation "measure (\<lambda>(_, _, _, _, poll, _). finalizedWaitPolls - poll)") auto

declare awaitFinalizedFrom.simps [simp del]

definition awaitFinalizedResponse ::
  "'b benv \<Rightarrow> TransactionRequest \<Rightarrow> string \<Rightarrow> agentBinding \<Rightarrow> RequestClaim list \<Rightarrow>
   (svc_error, TransactionResponse option) res \<times> RequestClaim list" where
  "awaitFinalizedResponse env req agentID binding cs = awaitFinalizedFrom env req agentID binding 0 cs"

definition setClaims :: "RequestClaim list \<Rightarrow> 'b xstate \<Rightarrow> 'b xstate" where
  "setClaims cs x = x\<lparr>x_store := (x_store x)\<lparr>claims := cs\<rparr>\<rparr>"

definition serveLostClaim ::
  "'b benv \<Rightarrow> TransactionRequest \<Rightarrow> string \<Rightarrow> agentBinding \<Rightarrow> 'b xstate \<Rightarrow>
   (svc_error, TransactionResponse option) res \<times> 'b xstate" where
  "serveLostClaim env req agentID binding x =
     (let cs = claims (x_store x);
          await = (case awaitFinalizedResponse env req agentID binding cs of (r, cs') \<Rightarrow> (r, setClaims cs' x))
      in case finalizedResponse env req agentID binding cs of
           Inl e \<Rightarrow> (Inl e, x)
         | Inr (Some resp) \<Rightarrow> (Inr (Some resp), x)
         | Inr None \<Rightarrow>
             (case replayBatchResponse env req binding (transactions (x_store x)) of
                Inr (Some resp) \<Rightarrow> (Inr (Some resp), x)
              | Inl e \<Rightarrow> if \<not> isIdempotentReplay e then (Inl e, x) else await
              | Inr None \<Rightarrow> await))"

definition selectFinalizedBatchResponse ::
  "'b benv \<Rightarrow> TransactionResponse \<Rightarrow> bool \<Rightarrow> string \<Rightarrow> bool \<Rightarrow> bool \<Rightarrow> (svc_error, TransactionResponse) res" where
  "selectFinalizedBatchResponse env local won stored finalizeErr readErr =
     (if finalizeErr then Inl (Newf KindInternal)
      else if won then Inr local
      else if readErr then Inl (Newf KindInternal)
      else if stored = [] then Inl (Newf KindInternal)
      else case be_UnmarshalResponse env stored of
        None \<Rightarrow> Inl (Newf KindInternal)
      | Some winner \<Rightarrow> Inr winner)"

definition finalizeBatchResponse ::
  "'b benv \<Rightarrow> TransactionRequest \<Rightarrow> string \<Rightarrow> TransactionResponse \<Rightarrow> 'b xstate \<Rightarrow>
   (svc_error, TransactionResponse) res \<times> 'b xstate" where
  "finalizeBatchResponse env req agentID resp x =
     (case be_MarshalResponse env resp of
        None \<Rightarrow> (Inl (Newf KindInternal), x)
      | Some payload \<Rightarrow>
          if be_fault env FaultFinalize
          then (selectFinalizedBatchResponse env resp False [] True False, x)
          else
            (case FinalizeRequest agentID (tr_IdempotencyKey req) payload (claims (x_store x)) of
               (won, cs) \<Rightarrow>
                 if won then (selectFinalizedBatchResponse env resp True [] False False, setClaims cs x)
                 else
                   (selectFinalizedBatchResponse env resp False
                      (textOrEmpty (RequestResponse agentID (tr_IdempotencyKey req) cs)) False
                      (be_fault env FaultReadResponse), setClaims cs x)))"

section \<open>Admission\<close>

record admission =
  ad_resp :: "TransactionResponse option"
  ad_done :: bool
  ad_claimed :: bool
  ad_binding :: agentBinding

definition zeroBinding :: agentBinding where
  "zeroBinding = \<lparr>ab_thumbprint = [], ab_digest = [], ab_pub = [], ab_discoveryURL = [],
     ab_acceptanceBytes = []\<rparr>"

fun proveRequesterPossession ::
  "'b benv \<Rightarrow> TransactionRequest \<Rightarrow> agentKey \<Rightarrow> TransactionItem list \<Rightarrow> agentBinding option" where
  "proveRequesterPossession env req key [] = None"
| "proveRequesterPossession env req key (item # items) =
     (case verifyAgentAcceptance env req item key of
        Inr binding \<Rightarrow> Some binding
      | Inl _ \<Rightarrow> proveRequesterPossession env req key items)"

definition resolveRelayTenant :: "'b benv \<Rightarrow> TransactionItem \<Rightarrow> string option" where
  "resolveRelayTenant env item =
     (if \<not> be_VerifyOffer env (ti_Offer item) then None
      else if of_CanonicalUrl (ti_Offer item) = [] then None
      else map_option ce_TenantID (be_byURI env (of_CanonicalUrl (ti_Offer item))))"

fun relayAcceptances :: "'b benv \<Rightarrow> TransactionRequest \<Rightarrow> agentKey \<Rightarrow> TransactionItem list \<Rightarrow> svc_error option" where
  "relayAcceptances env req key [] = None"
| "relayAcceptances env req key (item # items) =
     (case verifyAgentAcceptance env req item key of
        Inl e \<Rightarrow> Some e
      | Inr _ \<Rightarrow> relayAcceptances env req key items)"

fun relayTenants :: "'b benv \<Rightarrow> transportChain \<Rightarrow> TransactionItem list \<Rightarrow> store \<Rightarrow> svc_error option" where
  "relayTenants env chain [] st = None"
| "relayTenants env chain (item # items) st =
     (case resolveRelayTenant env item of
        None \<Rightarrow> Some (Newf KindPermissionDenied)
      | Some tenantID \<Rightarrow>
          (case (if be_fault env FaultTenant then None else tenantByID tenantID st) of
             None \<Rightarrow> Some (Newf KindInternal)
           | Some tenant \<Rightarrow>
               (case authorizeTransportRelay chain tenant of
                  Some e \<Rightarrow> Some e
                | None \<Rightarrow> relayTenants env chain items st)))"

definition relayPolicyGate ::
  "'b benv \<Rightarrow> TransactionRequest \<Rightarrow> resolvedAgent \<Rightarrow> store \<Rightarrow> svc_error option" where
  "relayPolicyGate env req agent st =
     (let chain = classifyTransportChain (be_chain env)
      in if \<not> tc_hasBroker chain then None
         else case relayAcceptances env req (ra_key agent) (tr_Items req) of
           Some e \<Rightarrow> Some e
         | None \<Rightarrow> relayTenants env chain (tr_Items req) st)"

text \<open>The 32 bytes of \<open>sha256.Sum256\<close> over the canonical request.\<close>

definition claimDigest :: "string \<Rightarrow> string" where
  "claimDigest canonical = map char_of (sha256 canonical)"

text \<open>The tail every admission path shares: answer from the log rows, or let the request execute.\<close>

definition probeRows ::
  "'b benv \<Rightarrow> TransactionRequest \<Rightarrow> agentBinding \<Rightarrow> bool \<Rightarrow> 'b xstate \<Rightarrow> (svc_error, admission) res \<times> 'b xstate" where
  "probeRows env req binding claimed x =
     (case replayBatchResponse env req binding (transactions (x_store x)) of
        Inl e \<Rightarrow> (Inl e, x)
      | Inr resp \<Rightarrow>
          (Inr \<lparr>ad_resp = resp, ad_done = (resp \<noteq> None), ad_claimed = claimed, ad_binding = binding\<rparr>, x))"

definition admitBatchRequest ::
  "'b benv \<Rightarrow> TransactionRequest \<Rightarrow> resolvedAgent \<Rightarrow> 'b xstate \<Rightarrow> (svc_error, admission) res \<times> 'b xstate" where
  "admitBatchRequest env req agent x =
     (case tr_AgentRequestAcceptance req of
        None \<Rightarrow>
          (case proveRequesterPossession env req (ra_key agent) (tr_Items req) of
             None \<Rightarrow>
               (Inr \<lparr>ad_resp = None, ad_done = False, ad_claimed = False, ad_binding = zeroBinding\<rparr>, x)
           | Some binding \<Rightarrow>
               (case relayPolicyGate env req agent (x_store x) of
                  Some e \<Rightarrow> (Inl e, x)
                | None \<Rightarrow> probeRows env req binding False x))
      | Some acceptance \<Rightarrow>
          (case verifyRequestAcceptance env req acceptance (ra_key agent) of
             Inl e \<Rightarrow> (Inl e, x)
           | Inr (binding, canonical) \<Rightarrow>
               (case relayPolicyGate env req agent (x_store x) of
                  Some e \<Rightarrow> (Inl e, x)
                | None \<Rightarrow>
                    if be_fault env FaultClaim then (Inl (Newf KindInternal), x)
                    else
                      (case ClaimRequest (ra_id agent) (tr_IdempotencyKey req) (claimDigest canonical)
                              (claims (x_store x)) of
                         ((won, stored), cs) \<Rightarrow>
                           let x1 = setClaims cs x
                           in if \<not> won \<and> stored \<noteq> claimDigest canonical then (Inl (Newf KindIdempotent), x1)
                              else if \<not> won then
                                (case serveLostClaim env req (ra_id agent) binding x1 of
                                   (Inl e, x2) \<Rightarrow> (Inl e, x2)
                                 | (Inr (Some resp), x2) \<Rightarrow>
                                     (Inr \<lparr>ad_resp = Some resp, ad_done = True, ad_claimed = True,
                                        ad_binding = binding\<rparr>, x2)
                                 | (Inr None, x2) \<Rightarrow> probeRows env req binding True x2)
                              else probeRows env req binding True x1))))"

section \<open>The item loop and the request\<close>

record batchOutcome =
  bo_results :: "TransactionResultItem list"
  bo_sharedThumbprint :: string
  bo_recovered :: "TransactionResponse option"

fun runItems ::
  "'b benv \<Rightarrow> TransactionRequest \<Rightarrow> resolvedAgent \<Rightarrow> agentBinding \<Rightarrow> TransactionItem list \<Rightarrow>
   batchOutcome \<Rightarrow> 'b xstate \<Rightarrow> (svc_error, batchOutcome) res \<times> 'b xstate" where
  "runItems env req agent binding [] out x = (Inr out, x)"
| "runItems env req agent binding (item # items) out x =
     (case executeBatchItem env req item agent x of
        (Inr (result, thumb), x1) \<Rightarrow>
          runItems env req agent binding items
            (out\<lparr>bo_results := bo_results out @ [result],
                 bo_sharedThumbprint :=
                   (if bo_sharedThumbprint out = [] then thumb else bo_sharedThumbprint out)\<rparr>) x1
      | (Inl e, x1) \<Rightarrow>
          (case batchDenialResult item e of
             Some d \<Rightarrow>
               runItems env req agent binding items (out\<lparr>bo_results := bo_results out @ [d]\<rparr>) x1
           | None \<Rightarrow>
               if isIdempotentReplay e then
                 (case serveLostClaim env req (ra_id agent) binding x1 of
                    (Inl e', x2) \<Rightarrow> (Inl e', x2)
                  | (Inr (Some resp), x2) \<Rightarrow>
                      (Inr \<lparr>bo_results = [], bo_sharedThumbprint = [], bo_recovered = Some resp\<rparr>, x2)
                  | (Inr None, x2) \<Rightarrow> (Inl e, x2))
               else (Inl e, x1)))"

definition runBatchItems ::
  "'b benv \<Rightarrow> TransactionRequest \<Rightarrow> resolvedAgent \<Rightarrow> agentBinding \<Rightarrow> 'b xstate \<Rightarrow>
   (svc_error, batchOutcome) res \<times> 'b xstate" where
  "runBatchItems env req agent binding x =
     runItems env req agent binding (tr_Items req)
       \<lparr>bo_results = [], bo_sharedThumbprint = [], bo_recovered = None\<rparr> x"

definition executeBatch ::
  "'b benv \<Rightarrow> TransactionRequest \<Rightarrow> 'b xstate \<Rightarrow> (svc_error, TransactionResponse) res \<times> 'b xstate" where
  "executeBatch env req x =
     (case validateBatchRequest req of
        Some e \<Rightarrow> (Inl e, x)
      | None \<Rightarrow>
          (case resolveAgent (be_authz env) (rr_Id (tr_Requester req)) (x_agents x) of
             (Inl e, ags) \<Rightarrow> (Inl e, x\<lparr>x_agents := ags\<rparr>)
           | (Inr agent, ags) \<Rightarrow>
               (case admitBatchRequest env req agent (x\<lparr>x_agents := ags\<rparr>) of
                  (Inl e, x1) \<Rightarrow> (Inl e, x1)
                | (Inr adm, x1) \<Rightarrow>
                    (case (if ad_done adm then ad_resp adm else None) of
                       Some resp \<Rightarrow> (Inr resp, x1)
                     | None \<Rightarrow>
                         (case runBatchItems env req agent (ad_binding adm) x1 of
                            (Inl e, x2) \<Rightarrow> (Inl e, x2)
                          | (Inr out, x2) \<Rightarrow>
                              (case bo_recovered out of
                                 Some resp \<Rightarrow> (Inr resp, x2)
                               | None \<Rightarrow>
                                   (case buildBatchTxResponse env (bo_results out)
                                           (bo_sharedThumbprint out) of
                                      Inl e \<Rightarrow> (Inl e, x2)
                                    | Inr resp \<Rightarrow>
                                        if \<not> ad_claimed adm then (Inr resp, x2)
                                        else finalizeBatchResponse env req (ra_id agent) resp x2)))))))"

end
