(* ===== verification/Batch_Laws.thy ===== *)
theory Batch_Laws
  imports Batch_Admission InMemory_Laws
begin

text \<open>
  Laws of the transaction pipeline: what one item does to the tables and to the ledger, branch by
  branch; the contract \<open>billing_pipeline\<close> under which no hold outlives its request, interpreted on the
  in-memory ledger; how results correspond to log rows and how a replay reads them back; the
  request claim, its finalized response and the wait for it.
\<close>

section \<open>What one item does to the tables\<close>

lemma isIdempotentReplay_Newf [simp]: "isIdempotentReplay (Newf k) \<longleftrightarrow> k = KindIdempotent"
  by (simp add: isIdempotentReplay_def)

lemma classifyTxWriteError_replay [simp]:
  "isIdempotentReplay (classifyTxWriteError e) \<longleftrightarrow> e = ErrIdempotencyUnique"
  by (simp add: classifyTxWriteError_def)

lemma ob_CreateForOffer_error:
  "ob_CreateForOffer sho now intent obs = Inl e \<Longrightarrow> e \<noteq> ErrIdempotencyUnique"
  by (auto simp: ob_CreateForOffer_def numericFromFloat_def numeric54_def Let_def
      split: sum.splits if_splits)

lemma ev_CreateForOffer_error: "ev_CreateForOffer t n e evs = Inl err \<Longrightarrow> err \<noteq> ErrIdempotencyUnique"
  by (auto simp: ev_CreateForOffer_def split: if_splits)

lemma buildPersistIntent_error:
  "buildPersistIntent env oid i = Inl e \<Longrightarrow> \<not> isIdempotentReplay e"
  by (auto simp: buildPersistIntent_def offerEvidence_def split: option.splits sum.splits)

lemma buildPersistIntent_fields:
  "buildPersistIntent env oid i = Inr (intent, ev) \<Longrightarrow>
     in_TransactionID intent = pi_transactionID i \<and> in_IdempotencyKey intent = pi_idempotencyKey i \<and>
     in_AgentID intent = pi_agentID i \<and> in_OfferID intent = of_OfferId (ti_Offer (pi_item i)) \<and>
     in_BillingID intent = pi_billingID i \<and> in_ResultPayload intent = Some (pi_resultPayload i) \<and>
     in_TenantID intent = tn_ID (pi_tenant i) \<and> in_AgentIdentityHash intent = ab_digest (pi_binding i)"
  by (auto simp: buildPersistIntent_def split: sum.splits)

text \<open>The row a committed item leaves in the transaction log.\<close>

definition row_of :: "persistInput \<Rightarrow> TransactionRecord \<Rightarrow> bool" where
  "row_of i t \<longleftrightarrow> tl_TransactionID t = pi_transactionID i \<and> tl_IdempotencyKey t = pi_idempotencyKey i \<and>
     tl_AgentID t = pi_agentID i \<and> tl_OfferID t = of_OfferId (ti_Offer (pi_item i)) \<and>
     tl_BillingID t = pgText (pi_billingID i) \<and> tl_ResultPayload t = Some (pi_resultPayload i) \<and>
     tl_TenantID t = tn_ID (pi_tenant i) \<and> tl_AgentIdentityHash t = ab_digest (pi_binding i)"

lemma tl_CreateForOffer_cases:
  assumes "tl_CreateForOffer now intent txs = r"
  obtains (pk) "r = Inl ErrUniqueViolation"
  | (dup) "r = Inl ErrIdempotencyUnique" "in_IdempotencyKey intent \<in> tl_IdempotencyKey ` set txs"
  | (row) t where "r = Inr (txs @ [t])" "in_IdempotencyKey intent \<notin> tl_IdempotencyKey ` set txs"
      "in_TransactionID intent \<notin> tl_TransactionID ` set txs"
      "tl_TransactionID t = in_TransactionID intent" "tl_IdempotencyKey t = in_IdempotencyKey intent"
      "tl_AgentID t = in_AgentID intent" "tl_OfferID t = in_OfferID intent"
      "tl_BillingID t = pgText (in_BillingID intent)" "tl_ResultPayload t = in_ResultPayload intent"
      "tl_TenantID t = in_TenantID intent" "tl_AgentIdentityHash t = in_AgentIdentityHash intent"
  using assms by (auto simp: tl_CreateForOffer_def split: if_splits)

definition same_tables :: "'b xstate \<Rightarrow> 'b xstate \<Rightarrow> bool" where
  "same_tables x x' \<longleftrightarrow> x_store x' = x_store x \<and> x_evidence x' = x_evidence x \<and> x_agents x' = x_agents x"

definition one_row :: "persistInput \<Rightarrow> 'b xstate \<Rightarrow> 'b xstate \<Rightarrow> bool" where
  "one_row i x x' \<longleftrightarrow>
     (\<exists>t. transactions (x_store x') = transactions (x_store x) @ [t] \<and> row_of i t) \<and>
     pi_idempotencyKey i \<notin> tl_IdempotencyKey ` set (transactions (x_store x)) \<and>
     claims (x_store x') = claims (x_store x) \<and> tenants (x_store x') = tenants (x_store x) \<and>
     x_agents x' = x_agents x"

lemma persistTransaction_cases:
  assumes "persistTransaction env i x = (r, x')"
  obtains (failed) e where "r = Some e" "same_tables x x'" "x_billing x' = x_billing x"
      "isIdempotentReplay e \<Longrightarrow>
         pi_idempotencyKey i \<in> tl_IdempotencyKey ` set (transactions (x_store x))"
  | (stored) "r = None" "one_row i x x'" "x_billing x' = x_billing x"
proof (cases "buildPersistIntent env (be_uuid env (x_uuid x)) i")
  case (Inl e)
  then show thesis using assms failed buildPersistIntent_error [OF Inl]
    by (auto simp: persistTransaction_def same_tables_def)
next
  case (Inr p)
  obtain intent ev where p: "buildPersistIntent env (be_uuid env (x_uuid x)) i = Inr (intent, ev)"
    using Inr by (cases p) simp
  note f = buildPersistIntent_fields [OF p]
  note eq = assms [unfolded persistTransaction_def p Let_def, simplified]
  show thesis
  proof (cases "be_fault env FaultPersist")
    case True
    then show thesis using eq failed by (auto simp: same_tables_def)
  next
    case nofault: False
    obtain c where c: "tl_CreateForOffer (be_now env) intent (transactions (x_store x)) = c" by simp
    then show thesis
    proof (cases rule: tl_CreateForOffer_cases)
      case pk
      then show thesis using eq nofault c failed by (auto simp: same_tables_def)
    next
      case dup
      then show thesis using eq nofault c failed f by (auto simp: same_tables_def)
    next
      case (row t)
      have rowof: "row_of i t" using row(4-) f by (simp add: row_of_def)
      show thesis
      proof (cases "\<exists>e. r = Some e")
        case True
        then show thesis using eq nofault c row(1) failed
          by (auto simp: same_tables_def split: sum.splits if_splits
              dest: ob_CreateForOffer_error ev_CreateForOffer_error)
      next
        case False
        then show thesis using eq nofault c row(1,2) rowof f stored
          by (auto simp: one_row_def split: sum.splits if_splits)
      qed
    qed
  qed
qed


lemma mintSignedURL_error: "mintSignedURL env tn en th = Inl e \<Longrightarrow> \<not> isIdempotentReplay e"
  by (auto simp: mintSignedURL_def split: sum.splits signer_error.splits option.splits)

lemma buildBatchResultItem_sel [simp]:
  "res_OfferId (buildBatchResultItem env item t b su p pl) = of_OfferId (ti_Offer item)"
  "res_TransactionId (buildBatchResultItem env item t b su p pl) = t"
  "res_BillingId (buildBatchResultItem env item t b su p pl) = b"
  "res_DenialReason (buildBatchResultItem env item t b su p pl) = None"
  by (simp_all add: buildBatchResultItem_def Let_def)

text \<open>The result an item delivers, against the row \<open>i'\<close> describes.\<close>

definition delivered :: "'b benv \<Rightarrow> persistInput \<Rightarrow> TransactionResultItem \<Rightarrow> bool" where
  "delivered env i' result \<longleftrightarrow> res_OfferId result = of_OfferId (ti_Offer (pi_item i')) \<and>
     res_TransactionId result = pi_transactionID i' \<and> res_BillingId result = pi_billingID i' \<and>
     res_DenialReason result = None \<and> be_MarshalItem env result = Some (pi_resultPayload i')"

definition input_of :: "batchItemBilling \<Rightarrow> string \<Rightarrow> persistInput \<Rightarrow> bool" where
  "input_of i bid i' \<longleftrightarrow> pi_idempotencyKey i' = bi_derivedKey i \<and> pi_billingID i' = bid \<and>
     pi_agentID i' = bi_agentID i \<and> pi_item i' = bi_item i \<and> pi_tenant i' = bi_tenant i \<and>
     pi_binding i' = bi_binding i"

lemma same_tables_trans: "same_tables x y \<Longrightarrow> same_tables y z \<Longrightarrow> same_tables x z"
  by (simp add: same_tables_def)

lemma same_tables_upd [simp]:
  "same_tables x (x\<lparr>x_uuid := n\<rparr>)" "same_tables x (x\<lparr>x_billing := b\<rparr>)" "same_tables x x"
  "same_tables x (y\<lparr>x_billing := b\<rparr>) \<longleftrightarrow> same_tables x y"
  "same_tables (x\<lparr>x_uuid := n\<rparr>) y \<longleftrightarrow> same_tables x y"
  "same_tables (x\<lparr>x_billing := b\<rparr>) y \<longleftrightarrow> same_tables x y"
  by (simp_all add: same_tables_def)

lemma one_row_upd [simp]:
  "one_row i x (y\<lparr>x_billing := b\<rparr>) \<longleftrightarrow> one_row i x y"
  "one_row i (x\<lparr>x_uuid := n\<rparr>) y \<longleftrightarrow> one_row i x y"
  "one_row i (x\<lparr>x_billing := b\<rparr>) y \<longleftrightarrow> one_row i x y"
  by (simp_all add: one_row_def)

lemma deliverItem_cases:
  assumes "deliverItem env i bid x = (r, x')"
  obtains (undone) e where "r = Inl e" "\<not> isIdempotentReplay e" "same_tables x x'"
      "x_billing x' = releaseHold env bid (bi_derivedKey i) (x_billing x)"
  | (lost) e where "r = Inl e" "isIdempotentReplay e" "same_tables x x'"
      "bi_derivedKey i \<in> tl_IdempotencyKey ` set (transactions (x_store x))"
      "x_billing x' = releaseDuplicateLossHold env bid (bi_derivedKey i) (transactions (x_store x)) (x_billing x)"
  | (made) i' result where "r = Inr result" "one_row i' x x'" "input_of i bid i'" "delivered env i' result"
      "x_billing x' = (if IsFree (ro_pricing (bi_resolved i)) then x_billing x
         else fst (be_Record env (x_billing x) bid (pd_EstQty (ro_pricing (bi_resolved i))) (bi_derivedKey i)))"
proof (cases "mintSignedURL env (bi_tenant i) (ro_entry (bi_resolved i)) (ab_thumbprint (bi_binding i))")
  case (Inl e)
  then show thesis using assms undone [of e] mintSignedURL_error [OF Inl]
    by (auto simp: deliverItem_def Let_def)
next
  case (Inr surl)
  define pl where "pl = planObligation (be_unmarshalPolicy env) (be_ReportWindow env) (bi_tenant i)
    (ro_pricing (bi_resolved i))"
  define res where "res = buildBatchResultItem env (bi_item i) (be_uuid env (x_uuid x)) bid surl
    (ro_pricing (bi_resolved i)) pl"
  note eq = assms [unfolded deliverItem_def Inr Let_def sum.case, folded pl_def, folded res_def]
  show thesis
  proof (cases "be_MarshalItem env res")
    case None
    then show thesis using eq undone by auto
  next
    case (Some payload)
    define i' where "i' = \<lparr>pi_tenant = bi_tenant i, pi_entry = ro_entry (bi_resolved i),
      pi_pricing = ro_pricing (bi_resolved i), pi_plan = pl, pi_req = bi_req i, pi_item = bi_item i,
      pi_agentID = bi_agentID i, pi_billingID = bid, pi_signed = surl, pi_binding = bi_binding i,
      pi_idempotencyKey = bi_derivedKey i, pi_offerCanonicalBytes = ro_offerCanonicalBytes (bi_resolved i),
      pi_transactionID = be_uuid env (x_uuid x), pi_resultPayload = payload\<rparr>"
    have io: "input_of i bid i'" "delivered env i' res"
      using Some by (simp_all add: i'_def input_of_def delivered_def res_def)
    obtain p x2 where p: "persistTransaction env i' (x\<lparr>x_uuid := Suc (x_uuid x)\<rparr>) = (p, x2)"
      by (cases "persistTransaction env i' (x\<lparr>x_uuid := Suc (x_uuid x)\<rparr>)")
    note eq2 = eq [unfolded Some option.case, folded i'_def, unfolded p prod.case]
    from p show thesis
    proof (cases rule: persistTransaction_cases)
      case (failed e)
      have k: "pi_idempotencyKey i' = bi_derivedKey i" by (simp add: i'_def)
      show thesis
      proof (cases "isIdempotentReplay e")
        case True
        moreover have "transactions (x_store x2) = transactions (x_store x)"
          using failed(2) by (simp add: same_tables_def)
        ultimately show thesis using eq2 failed lost [of e] k by auto
      next
        case False
        then show thesis using eq2 failed undone [of e] by auto
      qed
    next
      case stored
      then show thesis using eq2 io made [of res i'] by (auto split: if_splits)
    qed
  qed
qed

lemma resolveOfferForTx_pricing:
  "resolveOfferForTx env item = Inr ro \<Longrightarrow>
     pricingDocFromPricing (be_ParseMoney env) (of_Pricing (ti_Offer item)) = Some (ro_pricing ro)"
  by (auto simp: resolveOfferForTx_def Let_def split: sum.splits option.splits)

definition item_key :: "TransactionRequest \<Rightarrow> TransactionItem \<Rightarrow> string" where
  "item_key req item = DerivedItemKey (tr_IdempotencyKey req) (of_OfferId (ti_Offer item))"

lemma verifyAgentAcceptance_binding:
  "verifyAgentAcceptance env req item key = Inr b \<Longrightarrow>
     be_ThumbprintBytes env (ak_pub key) = Some (ab_digest b) \<and> ab_thumbprint b = be_base64url env (ab_digest b)"
  by (auto simp: verifyAgentAcceptance_def agentBindingForKey_def split: sum.splits option.splits if_splits)

lemma authorizeExecute_binding:
  "authorizeExecute env req item agent tenant = Inr b \<Longrightarrow>
     be_ThumbprintBytes env (ak_pub (ra_key agent)) = Some (ab_digest b) \<and>
     ab_thumbprint b = be_base64url env (ab_digest b)"
  by (auto simp: authorizeExecute_def dest: verifyAgentAcceptance_binding split: option.splits)

lemma executeBatchItem_cases:
  assumes "executeBatchItem env req item agent x = (r, x')"
  obtains (refused) e where "r = Inl e" "x' = x"
  | (billed) i r' where "runBatchItemBilling env i x = (r', x')" "bi_item i = item"
      "bi_agentID i = ra_id agent" "bi_derivedKey i = item_key req item" "bi_billingRef i = ra_billingRef agent"
      "pricingDocFromPricing (be_ParseMoney env) (of_Pricing (ti_Offer item)) = Some (ro_pricing (bi_resolved i))"
      "be_ThumbprintBytes env (ak_pub (ra_key agent)) = Some (ab_digest (bi_binding i))"
      "ab_thumbprint (bi_binding i) = be_base64url env (ab_digest (bi_binding i))"
      "r = (case r' of Inl e \<Rightarrow> Inl e | Inr result \<Rightarrow> Inr (result, ab_thumbprint (bi_binding i)))"
proof (cases "resolveOfferForTx env item")
  case (Inl e)
  then show thesis using assms refused by (auto simp: executeBatchItem_def)
next
  case ro: (Inr ro)
  show thesis
  proof (cases "if be_fault env FaultTenant then None else tenantByID (ce_TenantID (ro_entry ro)) (x_store x)")
    case None
    then show thesis using assms refused by (auto simp: executeBatchItem_def ro)
  next
    case tenant: (Some tenant)
    note eq = assms [unfolded executeBatchItem_def ro sum.case tenant option.case]
    show thesis
    proof (cases "authorizeExecute env req item agent tenant")
      case (Inl e)
      then show thesis using eq refused by auto
    next
      case ab: (Inr binding)
      note eq2 = eq [unfolded ab sum.case]
      show thesis
      proof (cases "denyIfReportingOverdue (be_fault env FaultCount) (tn_ID tenant) (ra_id agent)
                      (be_now env) (x_store x) = None \<and> \<not> be_fault env FaultFeeOverride")
        case False
        then show thesis using eq2 refused by (auto split: option.splits if_splits)
      next
        case True
        define i where "i = \<lparr>bi_tenant = tenant, bi_resolved = ro, bi_req = req, bi_item = item,
          bi_agentID = ra_id agent, bi_billingRef = ra_billingRef agent, bi_binding = binding,
          bi_derivedKey = DerivedItemKey (tr_IdempotencyKey req) (of_OfferId (ti_Offer item)),
          bi_feeRateBps = ResolveFeeRateBps (tn_FeeRateBps tenant)
            (be_feeOverride env (tn_ID tenant) (ce_ResourceOwnerID (ro_entry ro)))\<rparr>"
        obtain r' y where run: "runBatchItemBilling env i x = (r', y)"
          by (cases "runBatchItemBilling env i x")
        have "(case r' of Inl e \<Rightarrow> (Inl e, y) | Inr result \<Rightarrow> (Inr (result, ab_thumbprint binding), y)) = (r, x')"
          using eq2 True run by (simp add: i_def cong: sum.case_cong)
        then show thesis
          using billed [of i r'] run resolveOfferForTx_pricing [OF ro] authorizeExecute_binding [OF ab]
          by (auto simp: i_def item_key_def split: sum.splits)
      qed
    qed
  qed
qed

lemma runBatchItemBilling_cases:
  assumes "runBatchItemBilling env i x = (r, x')"
  obtains (free) "IsFree (ro_pricing (bi_resolved i))" "deliverItem env i [] x = (r, x')"
  | (refused) e where "\<not> IsFree (ro_pricing (bi_resolved i))" "r = Inl e" "same_tables x x'"
      "x_billing x' = x_billing x \<or> (\<exists>b' y. be_Authorize env (x_billing x) (authorizeRequestFor (resolutionOf i)) =
         (b', y) \<and> x_billing x' = b' \<and> (\<forall>a. y = Inr a \<longrightarrow> \<not> Approved a))"
  | (reserved) b' a where "\<not> IsFree (ro_pricing (bi_resolved i))"
      "be_Authorize env (x_billing x) (authorizeRequestFor (resolutionOf i)) = (b', Inr a)" "Approved a"
      "deliverItem env i (BillingID a) (x\<lparr>x_billing := b'\<rparr>) = (r, x')"
proof (cases "IsFree (ro_pricing (bi_resolved i))")
  case True
  then show thesis using assms free by (simp add: runBatchItemBilling_def)
next
  case False
  show thesis
  proof (cases "bi_billingRef i = [] \<or> checkAccountActive env (bi_billingRef i) \<noteq> None")
    case True
    then show thesis using assms False refused
      by (auto simp: runBatchItemBilling_def resolveBilling_def resolutionOf_def split: if_splits)
  next
    case go: False
    obtain b' y where y: "be_Authorize env (x_billing x) (authorizeRequestFor (resolutionOf i)) = (b', y)"
      by (cases "be_Authorize env (x_billing x) (authorizeRequestFor (resolutionOf i))")
    have rb: "resolveBilling env (resolutionOf i) (x_billing x) = authorizeBilling env (resolutionOf i) (x_billing x)"
      using go by (auto simp: resolveBilling_def resolutionOf_def)
    show thesis
    proof (cases "\<exists>a. y = Inr a \<and> Approved a")
      case True
      then show thesis using assms False rb y reserved
        by (auto simp: runBatchItemBilling_def authorizeBilling_def)
    next
      case no: False
      have "\<exists>e. authorizeBilling env (resolutionOf i) (x_billing x) = (Inl e, b')"
        using no y by (cases y) (auto simp: authorizeBilling_def)
      then show thesis using assms False rb y no refused
        by (auto simp: runBatchItemBilling_def)
    qed
  qed
qed

definition rowIDs :: "string set \<Rightarrow> TransactionRecord list \<Rightarrow> string set" where
  "rowIDs K txs = {bid. \<exists>t \<in> set txs. tl_IdempotencyKey t \<in> K \<and> tl_BillingID t = Some bid}"

lemma rowIDs_append:
  "rowIDs K (txs @ [t]) = rowIDs K txs \<union> (if tl_IdempotencyKey t \<in> K then set_option (tl_BillingID t) else {})"
  by (auto simp: rowIDs_def)

lemma rowIDs_mono: "K \<subseteq> K' \<Longrightarrow> rowIDs K txs \<subseteq> rowIDs K' txs"
  by (auto simp: rowIDs_def)

lemma ByIdempotencyKey_found:
  "k \<in> tl_IdempotencyKey ` set txs \<Longrightarrow>
     \<exists>t \<in> set txs. tl_IdempotencyKey t = k \<and> ByIdempotencyKey k txs = Inr t"
  unfolding ByIdempotencyKey_def
  by (cases "find (\<lambda>t. tl_IdempotencyKey t = k) txs")
     (auto simp: find_None_iff dest!: find_Some_holds)

section \<open>What the request level leaves alone\<close>

definition only_claims :: "'b xstate \<Rightarrow> 'b xstate \<Rightarrow> bool" where
  "only_claims x x' \<longleftrightarrow> (\<exists>cs. x' = setClaims cs x)"

lemma only_claims_refl [simp]: "only_claims x x"
proof -
  have "x = setClaims (claims (x_store x)) x" by (simp add: setClaims_def)
  then show ?thesis unfolding only_claims_def by blast
qed

lemma only_claims_setClaims [simp]: "only_claims x (setClaims cs x)"
  by (auto simp: only_claims_def)

lemma only_claims_trans: "only_claims x y \<Longrightarrow> only_claims y z \<Longrightarrow> only_claims x z"
  by (auto simp: only_claims_def setClaims_def)

lemma only_claims_frame:
  "only_claims x x' \<Longrightarrow> x_billing x' = x_billing x \<and> transactions (x_store x') = transactions (x_store x) \<and>
     obligations (x_store x') = obligations (x_store x) \<and> tenants (x_store x') = tenants (x_store x) \<and>
     x_evidence x' = x_evidence x \<and> x_agents x' = x_agents x"
  by (auto simp: only_claims_def setClaims_def)

lemma serveLostClaim_frame: "only_claims x (snd (serveLostClaim env req agentID binding x))"
  by (auto simp: serveLostClaim_def Let_def split: sum.splits option.splits prod.splits)

lemma probeRows_frame [simp]: "snd (probeRows env req binding claimed x) = x"
  by (simp add: probeRows_def split: sum.splits)

lemma admitBatchRequest_frame: "only_claims x (snd (admitBatchRequest env req agent x))"
proof (cases "tr_AgentRequestAcceptance req")
  case None
  then show ?thesis
    by (auto simp: admitBatchRequest_def split: option.splits)
next
  case (Some acceptance)
  show ?thesis
  proof (cases "\<exists>binding canonical. verifyRequestAcceptance env req acceptance (ra_key agent) = Inr (binding, canonical) \<and>
      relayPolicyGate env req agent (x_store x) = None \<and> \<not> be_fault env FaultClaim")
    case False
    then show ?thesis using Some by (auto simp: admitBatchRequest_def split: sum.splits option.splits)
  next
    case True
    then obtain binding canonical where t:
      "verifyRequestAcceptance env req acceptance (ra_key agent) = Inr (binding, canonical)"
      "relayPolicyGate env req agent (x_store x) = None" "\<not> be_fault env FaultClaim" by blast
    obtain won stored cs where c: "ClaimRequest (ra_id agent) (tr_IdempotencyKey req) (claimDigest canonical)
        (claims (x_store x)) = ((won, stored), cs)"
      by (metis prod.collapse)
    obtain r x2 where l: "serveLostClaim env req (ra_id agent) binding (setClaims cs x) = (r, x2)"
      by (cases "serveLostClaim env req (ra_id agent) binding (setClaims cs x)")
    have "only_claims x x2"
      using serveLostClaim_frame [of "setClaims cs x" env req "ra_id agent" binding] l
      by (auto intro: only_claims_trans [of x "setClaims cs x"])
    then show ?thesis using Some t c l
      by (auto simp: admitBatchRequest_def Let_def split: sum.splits option.splits)
  qed
qed

lemma finalizeBatchResponse_frame: "only_claims x (snd (finalizeBatchResponse env req agentID resp x))"
  by (auto simp: finalizeBatchResponse_def split: option.splits prod.splits)

lemma executeBatchItem_tables:
  assumes "executeBatchItem env req item agent x = (r, x')"
  obtains (none) e where "r = Inl e" "same_tables x x'"
  | (row) i' result thumb where "r = Inr (result, thumb)" "one_row i' x x'" "delivered env i' result"
      "pi_idempotencyKey i' = item_key req item" "pi_item i' = item" "pi_agentID i' = ra_id agent"
      "be_ThumbprintBytes env (ak_pub (ra_key agent)) = Some (ab_digest (pi_binding i'))"
      "thumb = be_base64url env (ab_digest (pi_binding i'))"
  using assms
proof (cases rule: executeBatchItem_cases)
  case (refused e)
  then show thesis using none by simp
next
  case (billed i r')
  have del: thesis if "deliverItem env i bid y = (r', x')" "\<And>z. same_tables y z = same_tables x z"
    "\<And>i z. one_row i y z = one_row i x z" for bid y
    using that(1)
  proof (cases rule: deliverItem_cases)
    case (made i' result)
    then show thesis
      using that(2,3) billed row [of result "ab_thumbprint (bi_binding i)" i'] by (simp add: input_of_def)
  qed (use that(2) billed none in auto)
  from billed(1) show thesis
  proof (cases rule: runBatchItemBilling_cases)
    case free
    then show thesis using del [OF free(2)] by simp
  next
    case (refused e)
    then show thesis using billed none by simp
  next
    case (reserved b' a)
    then show thesis using del [OF reserved(4)] by simp
  qed
qed

lemma validateItems_distinct:
  "validateItems i seen items = None \<Longrightarrow>
     distinct (map (of_OfferId \<circ> ti_Offer) items) \<and> set seen \<inter> (of_OfferId \<circ> ti_Offer) ` set items = {}"
  by (induction i seen items rule: validateItems.induct) (auto simp: Let_def split: if_splits)

lemma validateBatchRequest_keys:
  assumes "validateBatchRequest req = None"
  shows "distinct (map (item_key req) (tr_Items req))"
proof -
  have "distinct (map (of_OfferId \<circ> ti_Offer) (tr_Items req))"
    using assms validateItems_distinct [of 0 "[]"] by (auto simp: validateBatchRequest_def split: if_splits)
  then show ?thesis by (auto simp: distinct_map item_key_def DerivedItemKey_offer inj_on_def)
qed

section \<open>No hold outlives its request\<close>

definition prices_ok :: "'b benv \<Rightarrow> TransactionItem list \<Rightarrow> bool" where
  "prices_ok env items \<longleftrightarrow> (\<forall>item \<in> set items.
     case pricingDocFromPricing (be_ParseMoney env) (of_Pricing (ti_Offer item)) of
       None \<Rightarrow> True | Some d \<Rightarrow> 0 \<le> pd_UnitCost d)"

lemma prices_ok_ConsD:
  "prices_ok env (item # items) \<Longrightarrow> prices_ok env [item] \<and> prices_ok env items"
  by (auto simp: prices_ok_def)

lemma prices_okD:
  "prices_ok env [item] \<Longrightarrow>
     pricingDocFromPricing (be_ParseMoney env) (of_Pricing (ti_Offer item)) = Some d \<Longrightarrow> 0 \<le> pd_UnitCost d"
  by (simp add: prices_ok_def)

locale billing_pipeline = billing_adapter inv ok live "be_Authorize env" "be_Record env" "be_Release env"
  for inv :: "'s \<Rightarrow> bool" and ok :: "'s \<Rightarrow> AuthorizeRequest \<Rightarrow> bool" and live :: "'s \<Rightarrow> string set"
    and env :: "'s benv" +
  fixes room :: "nat \<Rightarrow> 's \<Rightarrow> bool"
  assumes room_ok: "inv s \<Longrightarrow> room (Suc n) s \<Longrightarrow> Value (UnitCost rq) = Some v \<Longrightarrow> 0 \<le> v \<Longrightarrow> ok s rq"
    and room_less: "room (Suc n) s \<Longrightarrow> room n s"
    and room_authorize: "room (Suc n) s \<Longrightarrow> room n (fst (be_Authorize env s rq))"
    and room_record: "room n s \<Longrightarrow> room n (fst (be_Record env s b q k))"
    and room_release: "room n s \<Longrightarrow> room n (fst (be_Release env s b k))"
    and authorize_id: "inv s \<Longrightarrow> ok s rq \<Longrightarrow> be_Authorize env s rq = (s', Inr r) \<Longrightarrow> Approved r \<Longrightarrow>
      BillingID r \<noteq> []"
begin

lemma releaseHold_laws:
  assumes "inv s" "room n s"
  shows "inv (releaseHold env bid k s)" "room n (releaseHold env bid k s)"
    "live (releaseHold env bid k s) = (if bid = [] then live s else live s - {bid})"
  using assms by (simp_all add: releaseHold_def hasNoReservation_def release_inv room_release release_live)

lemma releaseDuplicateLossHold_laws:
  assumes "inv s" "room n s" "\<not> be_fault env FaultProbe" "k \<in> tl_IdempotencyKey ` set txs" "bid \<noteq> []"
  shows "inv (releaseDuplicateLossHold env bid k txs s)" "room n (releaseDuplicateLossHold env bid k txs s)"
    "live (releaseDuplicateLossHold env bid k txs s) \<subseteq> (live s - {bid}) \<union> rowIDs {k} txs"
proof -
  obtain t where t: "t \<in> set txs" "tl_IdempotencyKey t = k" "ByIdempotencyKey k txs = Inr t"
    using ByIdempotencyKey_found [OF assms(4)] by blast
  have "bid \<in> rowIDs {k} txs" if "textOrEmpty (tl_BillingID t) = bid"
    using t that assms(5) by (auto simp: rowIDs_def textOrEmpty_def split: option.splits)
  then show "live (releaseDuplicateLossHold env bid k txs s) \<subseteq> (live s - {bid}) \<union> rowIDs {k} txs"
    using t(3) assms(3,5) releaseHold_laws(3) [OF assms(1,2)]
    by (auto simp: releaseDuplicateLossHold_def hasNoReservation_def)
  show "inv (releaseDuplicateLossHold env bid k txs s)" "room n (releaseDuplicateLossHold env bid k txs s)"
    using t(3) assms releaseHold_laws(1,2) [OF assms(1,2)] by (simp_all add: releaseDuplicateLossHold_def)
qed

lemma deliver_laws:
  assumes run: "deliverItem env i bid x = (r, x')" and s: "inv (x_billing x)" "room n (x_billing x)"
    and probe: "\<not> be_fault env FaultProbe"
    and bid: "bid = [] \<longleftrightarrow> IsFree (ro_pricing (bi_resolved i))"
  shows "inv (x_billing x') \<and> room n (x_billing x') \<and>
    live (x_billing x') \<subseteq> (if bid = [] then live (x_billing x) else live (x_billing x) - {bid}) \<union>
      rowIDs {bi_derivedKey i} (transactions (x_store x))"
  using run
proof (cases rule: deliverItem_cases)
  case undone
  then show ?thesis using releaseHold_laws [OF s] by auto
next
  case lost
  show ?thesis
  proof (cases "bid = []")
    case True
    then show ?thesis using lost s by (simp add: releaseDuplicateLossHold_def hasNoReservation_def)
  next
    case False
    then show ?thesis using lost releaseDuplicateLossHold_laws [OF s probe lost(4) False] by simp
  qed
next
  case made
  then show ?thesis using s bid by (auto simp: record_inv room_record record_live)
qed

lemma item_laws:
  assumes run: "executeBatchItem env req item agent x = (r, x')"
    and s: "inv (x_billing x)" "room (Suc n) (x_billing x)" and probe: "\<not> be_fault env FaultProbe"
    and price: "prices_ok env [item]"
  shows "inv (x_billing x') \<and> room n (x_billing x') \<and>
    live (x_billing x') \<subseteq> live (x_billing x) \<union> rowIDs {item_key req item} (transactions (x_store x))"
  using run
proof (cases rule: executeBatchItem_cases)
  case refused
  then show ?thesis using s room_less by auto
next
  case (billed i r')
  note less = room_less [OF s(2)]
  from billed(1) show ?thesis
  proof (cases rule: runBatchItemBilling_cases)
    case free
    then show ?thesis using deliver_laws [OF free(2) s(1) less probe] billed(4) by simp
  next
    case (refused e)
    have "x_billing x' = x_billing x" using refused(4) authorize_refused [OF s(1)] by blast
    then show ?thesis using s less by simp
  next
    case (reserved b' a)
    have okr: "ok (x_billing x) (authorizeRequestFor (resolutionOf i))"
      by (rule room_ok [OF s]) (use prices_okD [OF price billed(6)] in \<open>simp_all add: authorizeRequestFor_def resolutionOf_def\<close>)
    have b': "inv b'" "room n b'"
      using authorize_inv [OF s(1) okr] room_authorize [OF s(2)] reserved(2) by (metis fst_conv)+
    have "BillingID a \<noteq> []" by (rule authorize_id [OF s(1) okr reserved(2,3)])
    then show ?thesis
      using deliver_laws [OF reserved(4), of n] b' probe reserved(1) billed(4)
        authorize_approved [OF s(1) okr reserved(2,3)] by auto
  qed
qed

lemma items_laws:
  assumes "runItems env req agent binding items out x = (r, x')"
    and "inv (x_billing x)" "room (length items) (x_billing x)" "\<not> be_fault env FaultProbe"
    and "prices_ok env items"
    and "distinct (map (item_key req) items)"
  shows "inv (x_billing x') \<and>
    live (x_billing x') \<subseteq> live (x_billing x) \<union> rowIDs (item_key req ` set items) (transactions (x_store x))"
  using assms
proof (induction items arbitrary: out x)
  case (Cons item items)
  note price = prices_ok_ConsD [OF Cons.prems(5)]
  obtain r1 x1 where e: "executeBatchItem env req item agent x = (r1, x1)"
    by (cases "executeBatchItem env req item agent x")
  have step: "inv (x_billing x1) \<and> room (length items) (x_billing x1) \<and>
    live (x_billing x1) \<subseteq> live (x_billing x) \<union> rowIDs {item_key req item} (transactions (x_store x))"
    by (rule item_laws [OF e Cons.prems(2) _ Cons.prems(4)]) (use Cons.prems(3) price in simp_all)
  have tx: "rowIDs (item_key req ` set items) (transactions (x_store x1)) \<subseteq>
      rowIDs (item_key req ` set items) (transactions (x_store x))"
    using e
  proof (cases rule: executeBatchItem_tables)
    case none
    then show ?thesis by (simp add: same_tables_def)
  next
    case (row i' result thumb)
    then obtain t where t: "transactions (x_store x1) = transactions (x_store x) @ [t]" "row_of i' t"
      by (auto simp: one_row_def)
    have "tl_IdempotencyKey t \<notin> item_key req ` set items"
      using t(2) row(4) Cons.prems(6) by (auto simp: row_of_def)
    then show ?thesis by (simp add: t(1) rowIDs_append)
  qed
  have head: "live (x_billing x1) \<union> rowIDs (item_key req ` set items) (transactions (x_store x1)) \<subseteq>
      live (x_billing x) \<union> rowIDs (item_key req ` set (item # items)) (transactions (x_store x))"
    using step tx rowIDs_mono [of "{item_key req item}" "item_key req ` set (item # items)"]
      rowIDs_mono [of "item_key req ` set items" "item_key req ` set (item # items)"] by fastforce
  have rest: ?case if "runItems env req agent binding items out' x1 = (r, x')" for out'
  proof -
    have "inv (x_billing x') \<and> live (x_billing x') \<subseteq> live (x_billing x1) \<union>
        rowIDs (item_key req ` set items) (transactions (x_store x1))"
      by (rule Cons.IH [OF that]) (use step price Cons.prems(4,6) in simp_all)
    then show ?thesis using head by blast
  qed
  have stop: ?case if "only_claims x1 x'"
    using only_claims_frame [OF that] step head by auto
  show ?case
  proof (cases r1)
    case (Inr p)
    then show ?thesis using Cons.prems(1) e rest by (cases p) auto
  next
    case (Inl err)
    have fr: "only_claims x1 (snd (serveLostClaim env req (ra_id agent) binding x1))"
      by (rule serveLostClaim_frame)
    show ?thesis
    proof (cases "batchDenialResult item err")
      case None
      then have "only_claims x1 x'" using Cons.prems(1) e Inl fr
        by (auto split: if_splits prod.splits sum.splits option.splits)
      then show ?thesis by (rule stop)
    next
      case (Some d)
      then show ?thesis using Cons.prems(1) e Inl rest by auto
    qed
  qed
qed simp

lemma batch_laws:
  assumes "executeBatch env req x = (r, x')"
    and "inv (x_billing x)" "room (length (tr_Items req)) (x_billing x)" "\<not> be_fault env FaultProbe"
    and "prices_ok env (tr_Items req)"
  shows "inv (x_billing x') \<and> live (x_billing x') \<subseteq> live (x_billing x) \<union>
    rowIDs (item_key req ` set (tr_Items req)) (transactions (x_store x))"
proof -
  obtain ra ags where ra: "resolveAgent (be_authz env) (rr_Id (tr_Requester req)) (x_agents x) = (ra, ags)"
    by (cases "resolveAgent (be_authz env) (rr_Id (tr_Requester req)) (x_agents x)")
  have still: ?thesis if "x_billing x' = x_billing x"
    using that assms(2) by simp
  show ?thesis
  proof (cases "validateBatchRequest req")
    case (Some e)
    then show ?thesis using assms(1) still by (simp add: executeBatch_def)
  next
    case ok_req: None
    note eq = assms(1) [unfolded executeBatch_def ok_req ra option.case prod.case]
    show ?thesis
    proof (cases ra)
      case (Inl e)
      then show ?thesis using eq still by auto
    next
      case (Inr agent)
      obtain adm x1 where adm: "admitBatchRequest env req agent (x\<lparr>x_agents := ags\<rparr>) = (adm, x1)"
        by (cases "admitBatchRequest env req agent (x\<lparr>x_agents := ags\<rparr>)")
      have x1: "x_billing x1 = x_billing x" "transactions (x_store x1) = transactions (x_store x)"
        using only_claims_frame [OF admitBatchRequest_frame [of "x\<lparr>x_agents := ags\<rparr>" env req agent]] adm
        by simp_all
      note eq1 = eq [unfolded Inr sum.case adm prod.case]
      show ?thesis
      proof (cases "\<exists>a. adm = Inr a \<and> (if ad_done a then ad_resp a else None) = None")
        case False
        then have "x_billing x' = x_billing x"
          using eq1 x1(1) by (auto split: sum.splits if_splits option.splits)
        then show ?thesis by (rule still)
      next
        case True
        then obtain a where a: "adm = Inr a" "(if ad_done a then ad_resp a else None) = None" by blast
        obtain o2 x2 where run: "runBatchItems env req agent (ad_binding a) x1 = (o2, x2)"
          by (cases "runBatchItems env req agent (ad_binding a) x1")
        have laws: "inv (x_billing x2) \<and> live (x_billing x2) \<subseteq> live (x_billing x) \<union>
            rowIDs (item_key req ` set (tr_Items req)) (transactions (x_store x))"
          using items_laws [OF run [unfolded runBatchItems_def]] assms(2-5) x1
            validateBatchRequest_keys [OF ok_req] by simp
        have "x_billing x' = x_billing x2"
          using eq1 a run only_claims_frame [OF finalizeBatchResponse_frame [of x2 env req "ra_id agent"]]
          by (auto split: sum.splits option.splits if_splits) (metis snd_conv)+
        then show ?thesis using laws by simp
      qed
    qed
  qed
qed

end

section \<open>Results and rows\<close>

text \<open>How a delivered result is recorded in the log, and what a result says of its item.\<close>

definition recorded_as ::
  "'b benv \<Rightarrow> TransactionRequest \<Rightarrow> resolvedAgent \<Rightarrow> TransactionItem \<times> TransactionResultItem \<Rightarrow>
   TransactionRecord \<Rightarrow> bool" where
  "recorded_as env req agent p t \<longleftrightarrow> (case p of (item, r) \<Rightarrow>
     tl_IdempotencyKey t = item_key req item \<and> tl_OfferID t = res_OfferId r \<and>
     tl_TransactionID t = res_TransactionId r \<and> tl_BillingID t = pgText (res_BillingId r) \<and>
     tl_AgentID t = ra_id agent \<and> tl_ResultPayload t = be_MarshalItem env r \<and> tl_ResultPayload t \<noteq> None \<and>
     Some (tl_AgentIdentityHash t) = be_ThumbprintBytes env (ak_pub (ra_key agent)))"

definition result_for :: "TransactionItem \<Rightarrow> TransactionResultItem \<Rightarrow> bool" where
  "result_for item r \<longleftrightarrow> res_OfferId r = of_OfferId (ti_Offer item) \<and>
     (res_DenialReason r \<noteq> None \<longrightarrow> res_TransactionId r = [] \<and> res_BillingId r = [] \<and>
        res_RetrievalEndpoint r = None)"

definition deliveredPairs :: "(TransactionItem \<times> TransactionResultItem) list \<Rightarrow> (TransactionItem \<times> TransactionResultItem) list" where
  "deliveredPairs = filter (\<lambda>p. res_DenialReason (snd p) = None)"

lemma batchDenialResult_Some:
  "batchDenialResult item e = Some d \<Longrightarrow> result_for item d \<and> res_DenialReason d \<noteq> None"
  by (auto simp: batchDenialResult_def result_for_def split: prod.splits bool.splits)

lemma executeBatchItem_recorded:
  assumes "executeBatchItem env req item agent x = (Inr (result, thumb), x')"
  shows "result_for item result \<and> res_DenialReason result = None \<and>
    (\<exists>t. transactions (x_store x') = transactions (x_store x) @ [t] \<and> recorded_as env req agent (item, result) t) \<and>
    item_key req item \<notin> tl_IdempotencyKey ` set (transactions (x_store x))"
  using assms
proof (cases rule: executeBatchItem_tables)
  case (row i' r th)
  then show ?thesis
    by (auto simp: one_row_def row_of_def delivered_def recorded_as_def result_for_def)
qed simp

lemma runItems_rows:
  assumes "runItems env req agent binding items out x = (Inr out', x')" "bo_recovered out' = None"
    and "distinct (map tl_IdempotencyKey (transactions (x_store x)))"
  shows "\<exists>rs new. bo_results out' = bo_results out @ rs \<and> list_all2 result_for items rs \<and>
    transactions (x_store x') = transactions (x_store x) @ new \<and>
    list_all2 (recorded_as env req agent) (deliveredPairs (zip items rs)) new \<and>
    distinct (map tl_IdempotencyKey (transactions (x_store x')))"
  using assms
proof (induction items arbitrary: out x)
  case Nil
  then show ?case by (auto simp: deliveredPairs_def)
next
  case (Cons item items)
  obtain r1 x1 where e: "executeBatchItem env req item agent x = (r1, x1)"
    by (cases "executeBatchItem env req item agent x")
  show ?case
  proof (cases r1)
    case (Inr p)
    obtain result thumb where p: "p = (result, thumb)" by (cases p)
    from executeBatchItem_recorded [OF e [unfolded Inr p]] obtain t where t:
      "transactions (x_store x1) = transactions (x_store x) @ [t]" "recorded_as env req agent (item, result) t"
      "result_for item result" "res_DenialReason result = None"
      "item_key req item \<notin> tl_IdempotencyKey ` set (transactions (x_store x))" by blast
    have d: "distinct (map tl_IdempotencyKey (transactions (x_store x1)))"
      using t(1,2,5) Cons.prems(3) by (simp add: recorded_as_def)
    have run: "runItems env req agent binding items
        (out\<lparr>bo_results := bo_results out @ [result],
             bo_sharedThumbprint := (if bo_sharedThumbprint out = [] then thumb else bo_sharedThumbprint out)\<rparr>)
        x1 = (Inr out', x')"
      using Cons.prems(1) e Inr p by simp
    obtain rs new where ih: "bo_results out' = (bo_results out @ [result]) @ rs" "list_all2 result_for items rs"
      "transactions (x_store x') = transactions (x_store x1) @ new"
      "list_all2 (recorded_as env req agent) (deliveredPairs (zip items rs)) new"
      "distinct (map tl_IdempotencyKey (transactions (x_store x')))"
      using Cons.IH [OF run Cons.prems(2) d] by auto
    show ?thesis
      by (rule exI [of _ "result # rs"], rule exI [of _ "t # new"])
        (use ih t in \<open>simp add: deliveredPairs_def\<close>)
  next
    case (Inl err)
    have same: "transactions (x_store x1) = transactions (x_store x)"
      using e Inl by (cases rule: executeBatchItem_tables) (simp_all add: same_tables_def)
    show ?thesis
    proof (cases "batchDenialResult item err")
      case None
      then show ?thesis using Cons.prems(1,2) e Inl
        by (auto split: if_splits prod.splits sum.splits option.splits)
    next
      case (Some d)
      have run: "runItems env req agent binding items (out\<lparr>bo_results := bo_results out @ [d]\<rparr>) x1 = (Inr out', x')"
        using Cons.prems(1) e Inl Some by simp
      obtain rs new where ih: "bo_results out' = (bo_results out @ [d]) @ rs" "list_all2 result_for items rs"
        "transactions (x_store x') = transactions (x_store x1) @ new"
        "list_all2 (recorded_as env req agent) (deliveredPairs (zip items rs)) new"
        "distinct (map tl_IdempotencyKey (transactions (x_store x')))"
        using Cons.IH [OF run Cons.prems(2)] Cons.prems(3) same by auto
      show ?thesis
        by (rule exI [of _ "d # rs"], rule exI [of _ new])
          (use ih same batchDenialResult_Some [OF Some] in \<open>auto simp: deliveredPairs_def\<close>)
    qed
  qed
qed

lemma runItems_keeps_thumb:
  assumes "runItems env req agent binding items out x = (Inr out', x')" "bo_recovered out' = None"
    and "be_ThumbprintBytes env (ak_pub (ra_key agent)) = Some d"
    and "bo_sharedThumbprint out = be_base64url env d"
  shows "bo_sharedThumbprint out' = be_base64url env d"
  using assms(1,2,4)
proof (induction items arbitrary: out x)
  case (Cons item items)
  obtain r1 x1 where e: "executeBatchItem env req item agent x = (r1, x1)"
    by (cases "executeBatchItem env req item agent x")
  show ?case
  proof (cases r1)
    case (Inr p)
    obtain result thumb where p: "p = (result, thumb)" by (cases p)
    have "thumb = be_base64url env d"
      using e [unfolded Inr p] assms(3) by (cases rule: executeBatchItem_tables) simp_all
    then show ?thesis using Cons.IH [OF _ Cons.prems(2)] Cons.prems(1,3) e Inr p by simp
  next
    case (Inl err)
    show ?thesis
    proof (cases "batchDenialResult item err")
      case None
      then show ?thesis using Cons.prems(1,2) e Inl
        by (auto split: if_splits prod.splits sum.splits option.splits)
    next
      case (Some d)
      then show ?thesis using Cons.IH [OF _ Cons.prems(2)] Cons.prems(1,3) e Inl by simp
    qed
  qed
qed simp

lemma runItems_first_thumb:
  assumes "runItems env req agent binding (item # items) out x = (Inr out', x')" "bo_recovered out' = None"
    and "executeBatchItem env req item agent x = (Inr (result, thumb), x1)" "bo_sharedThumbprint out = []"
  shows "\<exists>d. be_ThumbprintBytes env (ak_pub (ra_key agent)) = Some d \<and> bo_sharedThumbprint out' = be_base64url env d"
  using assms(3)
proof (cases rule: executeBatchItem_tables)
  case (row i' r th)
  then show ?thesis
    using runItems_keeps_thumb [OF _ assms(2), of env req agent binding items _ x1] assms(1,3,4) by auto
qed simp

section \<open>Replay from the log\<close>

lemma find_distinct_key:
  "distinct (map f xs) \<Longrightarrow> t \<in> set xs \<Longrightarrow> f t = k \<Longrightarrow> find (\<lambda>y. f y = k) xs = Some t"
  by (induction xs) auto

lemma replayRows_recorded:
  assumes "list_all2 (recorded_as env req agent) (zip items rs) rows" "length rs = length items"
    and "set rows \<subseteq> set txs" "distinct (map tl_IdempotencyKey txs)" "\<not> be_fault env2 FaultProbe"
    and "\<And>r p. r \<in> set rs \<Longrightarrow> be_MarshalItem env r = Some p \<Longrightarrow> p \<noteq> [] \<and> be_UnmarshalItem env2 p = Some r"
  shows "replayRows env2 (tr_IdempotencyKey req) items txs = Inr (zip rs (map tl_AgentIdentityHash rows))"
  using assms(1-3,6)
proof (induction items arbitrary: rs rows)
  case Nil
  then show ?case by simp
next
  case (Cons item items)
  obtain r rs' where rs: "rs = r # rs'" using Cons.prems(2) by (cases rs) auto
  obtain t rows' where rows: "rows = t # rows'" "recorded_as env req agent (item, r) t"
    "list_all2 (recorded_as env req agent) (zip items rs') rows'"
    using Cons.prems(1) rs by (auto simp: list_all2_Cons1)
  obtain p where p: "tl_ResultPayload t = Some p" "be_MarshalItem env r = Some p"
    using rows(2) that by (cases "be_MarshalItem env r") (auto simp: recorded_as_def)
  have codec: "p \<noteq> []" "be_UnmarshalItem env2 p = Some r" using Cons.prems(4) [of r p] p rs by auto
  have key: "ByIdempotencyKey (DerivedItemKey (tr_IdempotencyKey req) (of_OfferId (ti_Offer item))) txs = Inr t"
    using find_distinct_key [OF assms(4), of t] rows(2) Cons.prems(3) rows(1)
    by (simp add: ByIdempotencyKey_def recorded_as_def item_key_def)
  have ih: "replayRows env2 (tr_IdempotencyKey req) items txs = Inr (zip rs' (map tl_AgentIdentityHash rows'))"
    by (rule Cons.IH [OF rows(3)]) (use Cons.prems rs rows(1) in auto)
  show ?case using assms(5) key ih codec p rs rows(1) by (simp add: textOrEmpty_def)
qed

lemma runItems_extends:
  assumes "runItems env req agent binding items out x = (Inr out', x')" "bo_recovered out' = None"
  shows "\<exists>rs. bo_results out' = bo_results out @ rs"
  using assms
proof (induction items arbitrary: out x)
  case (Cons item items)
  obtain r1 x1 where e: "executeBatchItem env req item agent x = (r1, x1)"
    by (cases "executeBatchItem env req item agent x")
  have ext: "\<exists>rs. bo_results out' = bo_results out @ rs"
    if "runItems env req agent binding items o1 x1 = (Inr out', x')" "bo_results o1 = bo_results out @ ys" for o1 ys
    using Cons.IH [OF that(1) Cons.prems(2)] that(2) by auto
  show ?case
  proof (cases r1)
    case (Inr p)
    then show ?thesis using Cons.prems(1) e ext by (cases p) auto
  next
    case (Inl err)
    then show ?thesis
    proof (cases "batchDenialResult item err")
      case None
      then show ?thesis using Cons.prems(1,2) e Inl
        by (auto split: if_splits prod.splits sum.splits option.splits)
    next
      case (Some d)
      then show ?thesis using Cons.prems(1) e Inl ext by auto
    qed
  qed
qed simp

lemma runBatchItems_thumb:
  assumes "runBatchItems env req agent binding x = (Inr out, x')" "bo_recovered out = None"
    and "tr_Items req \<noteq> []" "\<forall>r \<in> set (bo_results out). res_DenialReason r = None"
  shows "\<exists>d. be_ThumbprintBytes env (ak_pub (ra_key agent)) = Some d \<and> bo_sharedThumbprint out = be_base64url env d"
proof -
  obtain item items where it: "tr_Items req = item # items" using assms(3) by (cases "tr_Items req") auto
  define o0 where "o0 = \<lparr>bo_results = [], bo_sharedThumbprint = [], bo_recovered = None\<rparr>"
  have run: "runItems env req agent binding (item # items) o0 x = (Inr out, x')"
    using assms(1) it by (simp add: runBatchItems_def o0_def)
  obtain r1 x1 where e: "executeBatchItem env req item agent x = (r1, x1)"
    by (cases "executeBatchItem env req item agent x")
  show ?thesis
  proof (cases r1)
    case (Inr p)
    obtain result thumb where p: "p = (result, thumb)" by (cases p)
    show ?thesis
      by (rule runItems_first_thumb [OF run assms(2) e [unfolded Inr p]]) (simp add: o0_def)
  next
    case (Inl err)
    show ?thesis
    proof (cases "batchDenialResult item err")
      case None
      then show ?thesis using run assms(2) e Inl
        by (auto split: if_splits prod.splits sum.splits option.splits)
    next
      case (Some d)
      then obtain rs where "bo_results out = [d] @ rs"
        using runItems_extends [OF _ assms(2), of env req agent binding items "o0\<lparr>bo_results := [d]\<rparr>" x1 x']
          run e Inl by (auto simp: o0_def)
      then show ?thesis using assms(4) batchDenialResult_Some [OF Some] by simp
    qed
  qed
qed

lemma delivered_replay:
  assumes run: "runBatchItems env req agent b0 x = (Inr out, x')" and rec: "bo_recovered out = None"
    and items: "tr_Items req \<noteq> []" and all: "\<forall>r \<in> set (bo_results out). res_DenialReason r = None"
    and dist: "distinct (map tl_IdempotencyKey (transactions (x_store x)))"
    and codec: "\<forall>r \<in> set (bo_results out). \<forall>p. be_MarshalItem env r = Some p \<longrightarrow> p \<noteq> [] \<and> be_UnmarshalItem env p = Some r"
    and probe: "\<not> f FaultProbe"
    and binding: "agentBindingForKey env (ra_key agent) bytes = Inr binding"
    and resp: "buildBatchTxResponse env (bo_results out) (bo_sharedThumbprint out) = Inr resp"
  shows "replayBatchResponse (env\<lparr>be_now := n, be_fault := f\<rparr>) req binding (transactions (x_store x')) = Inr (Some resp)"
proof -
  let ?env = "env\<lparr>be_now := n, be_fault := f\<rparr>"
  obtain rs new where rows: "bo_results out = rs" "list_all2 result_for (tr_Items req) rs"
    "transactions (x_store x') = transactions (x_store x) @ new"
    "list_all2 (recorded_as env req agent) (deliveredPairs (zip (tr_Items req) rs)) new"
    "distinct (map tl_IdempotencyKey (transactions (x_store x')))"
    using runItems_rows [OF run [unfolded runBatchItems_def] rec dist] by auto
  have len: "length rs = length (tr_Items req)" using rows(2) by (simp add: list_all2_lengthD)
  have "deliveredPairs (zip (tr_Items req) rs) = zip (tr_Items req) rs"
    unfolding deliveredPairs_def by (rule filter_True) (use all rows(1) in \<open>auto dest: set_zip_rightD\<close>)
  then have rec_as: "list_all2 (recorded_as env req agent) (zip (tr_Items req) rs) new" using rows(4) by simp
  then have ln: "length new = length rs" using len by (auto dest: list_all2_lengthD)
  have rep: "replayRows ?env (tr_IdempotencyKey req) (tr_Items req) (transactions (x_store x')) =
      Inr (zip rs (map tl_AgentIdentityHash new))"
    by (rule replayRows_recorded [OF rec_as len]) (use rows codec probe in auto)
  obtain d where d: "be_ThumbprintBytes env (ak_pub (ra_key agent)) = Some d"
    "bo_sharedThumbprint out = be_base64url env d"
    using runBatchItems_thumb [OF run rec items all] by blast
  have b: "ab_digest binding = d" "ab_thumbprint binding = be_base64url env d"
    using binding d(1) by (auto simp: agentBindingForKey_def)
  have "\<forall>t \<in> set new. tl_AgentIdentityHash t = d"
    using rec_as d(1) len ln by (auto simp: list_all2_conv_all_nth recorded_as_def in_set_conv_nth split: prod.splits)
  then have hashes: "\<not> list_ex (\<lambda>h. ab_digest binding \<noteq> h) (map tl_AgentIdentityHash new)"
    using b by (auto simp: list_ex_iff)
  have "buildBatchTxResponse ?env rs (be_base64url env d) = Inr resp"
    using resp rows(1) d(2) by (simp add: buildBatchTxResponse_def split: sum.splits)
  moreover have "zip rs (map tl_AgentIdentityHash new) \<noteq> []" using items len ln by (cases rs; cases new) auto
  ultimately show ?thesis
    using rep hashes len ln b by (simp add: replayBatchResponse_def)
qed

section \<open>The finalized response\<close>

lemma executeBatch_claimed:
  assumes run: "executeBatch env req x = (r, x')"
    and val: "validateBatchRequest req = None"
    and ra: "resolveAgent (be_authz env) (rr_Id (tr_Requester req)) (x_agents x) = (Inr agent, ags)"
    and acc: "tr_AgentRequestAcceptance req = Some acceptance"
    and stored: "RequestResponse (ra_id agent) (tr_IdempotencyKey req) (claims (x_store x)) = Some p" "p \<noteq> []"
  shows "x' = x\<lparr>x_agents := ags\<rparr> \<and> (\<forall>resp. r = Inr resp \<longrightarrow> be_UnmarshalResponse env p = Some resp)"
proof -
  obtain c where c: "getClaim (ra_id agent) (tr_IdempotencyKey req) (claims (x_store x)) = Some c"
    "cl_ResponsePayload c = Some p"
    using stored(1) by (auto simp: RequestResponse_def split: option.splits)
  have claim: "ClaimRequest (ra_id agent) (tr_IdempotencyKey req) d (claims (x_store x)) =
      ((False, cl_ItemsDigest c), claims (x_store x))" for d
    using c by (simp add: ClaimRequest_def)
  let ?x = "x\<lparr>x_agents := ags\<rparr>"
  have id: "setClaims (claims (x_store x)) ?x = ?x" by (simp add: setClaims_def)
  have fin: "\<exists>w. finalizedResponse env req (ra_id agent) b (claims (x_store x)) = w \<and> w \<noteq> Inr None \<and>
      (\<forall>resp. w = Inr (Some resp) \<longrightarrow> be_UnmarshalResponse env p = Some resp)" for b
    using stored by (auto simp: finalizedResponse_def textOrEmpty_def serveFinalizedResponse_def Let_def
        split: option.splits)
  have lost: "\<exists>w. serveLostClaim env req (ra_id agent) b ?x = (w, ?x) \<and> w \<noteq> Inr None \<and>
      (\<forall>resp. w = Inr (Some resp) \<longrightarrow> be_UnmarshalResponse env p = Some resp)" for b
    using fin [of b] by (auto simp: serveLostClaim_def Let_def split: sum.splits option.splits)
  have adm: "\<exists>w. admitBatchRequest env req agent ?x = (w, ?x) \<and>
      (\<forall>a. w = Inr a \<longrightarrow> ad_done a \<and> (\<exists>resp. ad_resp a = Some resp \<and> be_UnmarshalResponse env p = Some resp))"
  proof (cases "verifyRequestAcceptance env req acceptance (ra_key agent)")
    case (Inl e)
    then show ?thesis using acc by (simp add: admitBatchRequest_def)
  next
    case (Inr bc)
    obtain b canonical where bc: "bc = (b, canonical)" by (cases bc)
    obtain w where w: "serveLostClaim env req (ra_id agent) b ?x = (w, ?x)" "w \<noteq> Inr None"
      "\<forall>resp. w = Inr (Some resp) \<longrightarrow> be_UnmarshalResponse env p = Some resp" using lost [of b] by blast
    show ?thesis using w acc Inr bc claim [of "claimDigest canonical"] id
      by (auto simp: admitBatchRequest_def Let_def split: sum.splits option.splits)
  qed
  then show ?thesis using run val ra by (auto simp: executeBatch_def split: sum.splits option.splits)
qed

definition claims_pk :: "RequestClaim list \<Rightarrow> bool" where
  "claims_pk cs \<longleftrightarrow> distinct (map (\<lambda>c. (cl_AgentID c, cl_IdempotencyKey c)) cs)"

lemma FinalizeRequest_claims_pk: "claims_pk (snd (FinalizeRequest a k p cs)) \<longleftrightarrow> claims_pk cs"
proof -
  have "map (\<lambda>c. (cl_AgentID c, cl_IdempotencyKey c)) (snd (FinalizeRequest a k p cs)) =
      map (\<lambda>c. (cl_AgentID c, cl_IdempotencyKey c)) cs"
    by (auto simp: FinalizeRequest_def Let_def)
  then show ?thesis by (simp add: claims_pk_def)
qed

lemma ClaimRequest_claims_pk:
  assumes "claims_pk cs"
  shows "claims_pk (snd (ClaimRequest a k d cs))"
proof (cases "getClaim a k cs")
  case None
  then have "(a, k) \<notin> (\<lambda>c. (cl_AgentID c, cl_IdempotencyKey c)) ` set cs"
    by (auto simp: getClaim_def find_None_iff)
  then show ?thesis using assms None by (simp add: ClaimRequest_def claims_pk_def)
qed (use assms in \<open>simp add: ClaimRequest_def\<close>)

lemma getClaim_pk:
  assumes "claims_pk cs" "c \<in> set cs" "cl_AgentID c = a" "cl_IdempotencyKey c = k"
  shows "getClaim a k cs = Some c"
  using find_distinct_key [of "\<lambda>c. (cl_AgentID c, cl_IdempotencyKey c)" cs c "(a, k)"] assms
  by (simp add: claims_pk_def getClaim_def)

lemma FinalizeRequest_outcome:
  assumes "claims_pk cs"
  shows "FinalizeRequest a k p cs = (won, cs') \<Longrightarrow>
    (won \<longleftrightarrow> (\<exists>c. getClaim a k cs = Some c \<and> cl_ResponsePayload c = None)) \<and>
    RequestResponse a k cs' = (if won then Some p else RequestResponse a k cs)"
proof -
  assume f: "FinalizeRequest a k p cs = (won, cs')"
  have w: "won \<longleftrightarrow> (\<exists>c. getClaim a k cs = Some c \<and> cl_ResponsePayload c = None)"
  proof
    assume won
    then obtain c where "c \<in> set cs" "cl_AgentID c = a" "cl_IdempotencyKey c = k" "cl_ResponsePayload c = None"
      using f by (auto simp: FinalizeRequest_def Let_def list_ex_iff)
    then show "\<exists>c. getClaim a k cs = Some c \<and> cl_ResponsePayload c = None" using getClaim_pk [OF assms] by blast
  next
    assume "\<exists>c. getClaim a k cs = Some c \<and> cl_ResponsePayload c = None"
    then show won using f by (auto simp: FinalizeRequest_def Let_def list_ex_iff getClaim_def dest!: find_Some_holds)
  qed
  have "cs' = snd (FinalizeRequest a k p cs)" using f by simp
  then show ?thesis using w
    by (auto simp: RequestResponse_def getClaim_FinalizeRequest split: option.splits)
qed

lemma finalizeBatchResponse_cases:
  assumes "finalizeBatchResponse env req aid resp x = (Inr r, x')" "claims_pk (claims (x_store x))"
  obtains (won) payload where "be_MarshalResponse env resp = Some payload" "r = resp"
      "RequestResponse aid (tr_IdempotencyKey req) (claims (x_store x')) = Some payload"
      "claims_pk (claims (x_store x'))"
  | (lost) payload where "RequestResponse aid (tr_IdempotencyKey req) (claims (x_store x)) = Some payload"
      "RequestResponse aid (tr_IdempotencyKey req) (claims (x_store x')) = Some payload"
      "be_UnmarshalResponse env payload = Some r" "claims_pk (claims (x_store x'))"
proof -
  obtain payload where m: "be_MarshalResponse env resp = Some payload" "\<not> be_fault env FaultFinalize"
    using assms(1) by (auto simp: finalizeBatchResponse_def selectFinalizedBatchResponse_def
        split: option.splits if_splits)
  obtain w cs where f: "FinalizeRequest aid (tr_IdempotencyKey req) payload (claims (x_store x)) = (w, cs)"
    by (cases "FinalizeRequest aid (tr_IdempotencyKey req) payload (claims (x_store x))")
  have pk: "claims_pk cs" using FinalizeRequest_claims_pk [of aid _ payload "claims (x_store x)"] f assms(2)
    by (metis snd_conv)
  note oc = FinalizeRequest_outcome [OF assms(2) f]
  have x': "x' = setClaims cs x" using assms(1) m f by (auto simp: finalizeBatchResponse_def split: if_splits)
  then have cl: "claims (x_store x') = cs" by (simp add: setClaims_def)
  show thesis
  proof (cases w)
    case True
    then show thesis using won [of payload] assms(1) m f oc cl pk
      by (simp add: finalizeBatchResponse_def selectFinalizedBatchResponse_def)
  next
    case False
    then have sel: "selectFinalizedBatchResponse env resp False
        (textOrEmpty (RequestResponse aid (tr_IdempotencyKey req) cs)) False (be_fault env FaultReadResponse) = Inr r"
      using assms(1) m f by (simp add: finalizeBatchResponse_def)
    then obtain p where p: "RequestResponse aid (tr_IdempotencyKey req) cs = Some p" "be_UnmarshalResponse env p = Some r"
      by (cases "RequestResponse aid (tr_IdempotencyKey req) cs")
         (auto simp: selectFinalizedBatchResponse_def textOrEmpty_def split: if_splits option.splits)
    have "RequestResponse aid (tr_IdempotencyKey req) (claims (x_store x)) = Some p"
      using conjunct2 [OF oc] False p(1) by metis
    then show thesis using lost [of p] p cl pk by blast
  qed
qed

lemma finalizeBatchResponse_stored:
  assumes "finalizeBatchResponse env req aid resp x = (Inr r, x')" "claims_pk (claims (x_store x))"
    and "RequestResponse aid (tr_IdempotencyKey req) (claims (x_store x)) = Some p"
  shows "be_UnmarshalResponse env p = Some r"
proof -
  obtain payload where m: "be_MarshalResponse env resp = Some payload" "\<not> be_fault env FaultFinalize"
    using assms(1) by (auto simp: finalizeBatchResponse_def selectFinalizedBatchResponse_def
        split: option.splits if_splits)
  obtain w cs where f: "FinalizeRequest aid (tr_IdempotencyKey req) payload (claims (x_store x)) = (w, cs)"
    by (cases "FinalizeRequest aid (tr_IdempotencyKey req) payload (claims (x_store x))")
  have "\<not> w" using FinalizeRequest_outcome [OF assms(2) f] assms(3)
    by (auto simp: RequestResponse_def split: option.splits)
  moreover from this have "RequestResponse aid (tr_IdempotencyKey req) cs = Some p"
    using conjunct2 [OF FinalizeRequest_outcome [OF assms(2) f]] assms(3) by metis
  ultimately show ?thesis using assms(1) m f
    by (auto simp: finalizeBatchResponse_def selectFinalizedBatchResponse_def textOrEmpty_def
        split: option.splits if_splits)
qed

lemma awaitFinalizedFrom_later:
  assumes "\<And>m. m < n \<Longrightarrow> \<not> be_cancelled env (poll + m)" "\<not> be_fault env FaultReadResponse" "poll + n \<le> finalizedWaitPolls"
    and "\<And>m. m < n \<Longrightarrow> textOrEmpty (RequestResponse aid (tr_IdempotencyKey req) (tables m)) = []"
    and "\<And>m. m < n \<Longrightarrow> tables (Suc m) = be_others env (poll + m) (tables m)"
    and "RequestResponse aid (tr_IdempotencyKey req) (tables n) = Some p" "p \<noteq> []"
  shows "awaitFinalizedFrom env req aid binding poll (tables 0) =
    (serveFinalizedResponse env binding p, tables n)"
  using assms
proof (induction n arbitrary: poll tables)
  case 0
  then show ?case
    by (subst awaitFinalizedFrom.simps)
       (auto simp: finalizedResponse_def textOrEmpty_def serveFinalizedResponse_def Let_def split: option.splits)
next
  case (Suc n)
  have ih: "awaitFinalizedFrom env req aid binding (Suc poll) (tables 1) =
      (serveFinalizedResponse env binding p, tables (Suc n))"
  proof -
    have c: "\<not> be_cancelled env (Suc poll + m)" if "m < n" for m
      using Suc.prems(1) [of "Suc m"] that by simp
    have t: "textOrEmpty (RequestResponse aid (tr_IdempotencyKey req) (tables (Suc m))) = []" if "m < n" for m
      using Suc.prems(4) [of "Suc m"] that by simp
    have s: "tables (Suc (Suc m)) = be_others env (Suc poll + m) (tables (Suc m))" if "m < n" for m
      using Suc.prems(5) [of "Suc m"] that by simp
    show ?thesis
      using Suc.IH [of "Suc poll" "\<lambda>m. tables (Suc m)", OF c Suc.prems(2) _ t s Suc.prems(6,7)] Suc.prems(3) by simp
  qed
  have "finalizedResponse env req aid binding (tables 0) = Inr None"
    using Suc.prems(2) Suc.prems(4) [of 0] by (simp add: finalizedResponse_def)
  moreover have "\<not> finalizedWaitPolls \<le> poll" "\<not> be_cancelled env poll" "tables 1 = be_others env poll (tables 0)"
    using Suc.prems(3) Suc.prems(1) [of 0] Suc.prems(5) [of 0] by auto
  ultimately show ?case using ih by (subst awaitFinalizedFrom.simps) simp
qed

section \<open>The pipeline over the in-memory ledger\<close>

definition imEnv :: "ledger benv \<Rightarrow> ledger benv" where
  "imEnv env = env\<lparr>be_Authorize := im_Authorize, be_Record := im_Record, be_Release := im_Release\<rparr>"

definition im_room :: "nat \<Rightarrow> ledger \<Rightarrow> bool" where
  "im_room n a \<longleftrightarrow> nextIdx a + n < 2 ^ 64"

lemma imEnv_sel [simp]:
  "be_Authorize (imEnv env) = im_Authorize" "be_Record (imEnv env) = im_Record"
  "be_Release (imEnv env) = im_Release" "be_ParseMoney (imEnv env) = be_ParseMoney env"
  "be_fault (imEnv env) = be_fault env"
  by (simp_all add: imEnv_def)

lemma im_room_less: "im_room (Suc n) a \<Longrightarrow> im_room n a"
  by (simp add: im_room_def)

lemma im_room_authorize:
  assumes "im_room (Suc n) a"
  shows "im_room n (fst (im_Authorize a rq))"
proof -
  obtain a' y where y: "im_Authorize a rq = (a', y)" by (cases "im_Authorize a rq")
  have "wrapu64 (nextIdx a + 1) = nextIdx a + 1" using assms by (simp add: im_room_def)
  then show ?thesis using im_Authorize_frame [OF y] y assms by (auto simp: im_room_def frame_def held_def)
qed

lemma decimal06_not_empty: "decimal06 n \<noteq> []"
proof
  assume "decimal06 n = []"
  then have "length (decimal06 n) = 0" by simp
  then show False by (simp add: decimal06_def pad_left_def)
qed

lemma issuedID_not_empty: "issuedID a b \<Longrightarrow> b \<noteq> []"
  by (auto simp: issuedID_def decimal06_not_empty)

lemma im_Authorize_id:
  assumes "im_inv a" "im_Authorize a rq = (a', Inr r)" "Approved r"
  shows "BillingID r \<noteq> []"
  using assms(2)
proof (cases rule: im_Authorize_cases)
  case (replay b)
  then obtain res where "map_of (reserved a) b = Some res"
    using assms(1) unfolding im_inv_def inv_auth_def by blast
  then have "issuedID a b" using assms(1) inv_ids_issued unfolding im_inv_def by blast
  then show ?thesis using issuedID_not_empty replay(2) by auto
next
  case (hold bal v)
  then show ?thesis by (simp add: freshID_def decimal06_not_empty)
qed (use assms(3) in auto)

interpretation imp: billing_pipeline im_inv im_ok im_live "imEnv env" im_room for env
proof unfold_locales
  show "BillingID r \<noteq> []" if "im_inv s" "im_ok s rq" "be_Authorize (imEnv env) s rq = (s', Inr r)" "Approved r"
    for s rq s' r
    using im_Authorize_id [OF that(1) _ that(4)] that(3) by simp
  show "s' = s" if "be_Authorize (imEnv env) s rq = (s', y)" "\<forall>r. y = Inr r \<longrightarrow> \<not> Approved r" for s rq s' y
    using im_Authorize_refused [of s rq s' y] that by simp
  show "im_room n (fst (be_Record (imEnv env) s b q k))" if "im_room n s" for n s b q k
    using im_Record_frame [of s b q k] that by (cases "im_Record s b q k") (simp add: im_room_def frame_def)
  show "im_room n (fst (be_Release (imEnv env) s b k))" if "im_room n s" for n s b k
    using im_Release_frame [of s b k] that by (cases "im_Release s b k") (simp add: im_room_def frame_def)
  show "im_ok s rq" if "im_room (Suc n) s" "Value (UnitCost rq) = Some v" "0 \<le> v" for n s rq v
    using that by (simp add: im_ok_def im_room_def)
qed (simp_all add: inv_intros im_Record_live im_Release_live im_Authorize_approved_live im_room_authorize im_room_less)

end
