(* ===== verification/Batch_Properties.thy ===== *)
theory Batch_Properties
  imports Batch_Laws InMemory_Properties
begin

text \<open>
  Properties of ExecuteTransaction: no leaked hold over the in-memory ledger, results against the
  transaction log, replay from the log, and the finalized response of a request key. The witnesses
  run a small deployment with one tenant, one catalog entry and one agent.
\<close>

section \<open>A deployment to evaluate on\<close>

definition xb_key :: string where "xb_key = replicate 32 (CHR ''k'')"

definition xb_entry :: CatalogEntry where
  "xb_entry = \<lparr>ce_ResourceID = ''r1'', ce_TenantID = ''t1'', ce_URI = ''https://pub.example/a'',
     ce_ResourceOwnerID = ''owner''\<rparr>"

definition xb_authz :: authz_env where
  "xb_authz = \<lparr>az_FromDirectory = Some, az_agentsWired = True, az_registryWired = False,
     az_Register = (\<lambda>h ags. Inl RegistryTransient), az_Refresh = (\<lambda>h ags. Inl RegistryTransient),
     az_dbFault = False\<rparr>"

definition xb_result :: TransactionResultItem where
  "xb_result = \<lparr>res_OfferId = ''o1'', res_TransactionId = ''0'', res_BillingId = ''bill-1'',
     res_ResourceTitle = None, res_Cost = Some \<lparr>cost_Amount = ''6'', cost_Currency = ''USD''\<rparr>,
     res_UnitCost = Some ''3'', res_ExpiresAt = Some 160, res_RetrievalEndpoint = Some ''signed'',
     res_ReportingObligation = Some \<lparr>ro_Required = False, ro_Endpoint = None, ro_WindowSeconds = None, ro_RequiredFields = []\<rparr>,
     res_DenialReason = None\<rparr>"

definition xb_response :: TransactionResponse where
  "xb_response = \<lparr>rs_Ver = ''1.0'', rs_Items = [xb_result], rs_AgentIdentityHash = ''thumb'', rs_TotalCost = Some \<lparr>cost_Amount = ''6'', cost_Currency = ''USD''\<rparr>\<rparr>"

definition xb_env :: "'b benv" where
  "xb_env = \<lparr>be_authz = xb_authz, be_now = 100, be_chain = [''agent''], be_exchange = ''x.example'',
     be_ProtocolVersion = ''1.0'', be_VerifyPresentedOffer = (\<lambda>off now. None),
     be_CanonicalOfferBytes = (\<lambda>off. Some ''offer''), be_VerifyOffer = (\<lambda>off. True),
     be_VerifyOfferAcceptance = (\<lambda>off rq key sig pub. sig = ''sig'' \<and> pub = xb_key),
     be_CanonicalAcceptanceBytes = (\<lambda>off rq key. Some ''acc''),
     be_VerifyRequestAcceptance = (\<lambda>req acc x pub. if acc = ''ack'' \<and> pub = xb_key then Some ''canonical'' else None),
     be_ThumbprintBytes = (\<lambda>pub. Some ''digest''), be_base64url = (\<lambda>d. ''thumb''),
     be_ParseMoney = (\<lambda>s. if s = ''3'' then Some 3 else if s = ''6'' then Some 6 else None),
     be_FormatMoney = (\<lambda>r. Some (if r = 3 then ''3'' else ''6'')), be_DecimalString = (\<lambda>r. ''3''),
     be_MarshalItem = (\<lambda>r. Some ''item''), be_UnmarshalItem = (\<lambda>p. Some xb_result),
     be_MarshalResponse = (\<lambda>r. Some ''resp''), be_UnmarshalResponse = (\<lambda>p. Some xb_response),
     be_MarshalOfferJSON = (\<lambda>off. Some ''{}''), be_unmarshalPolicy = (\<lambda>s. emptyPolicy),
     be_shortest = (\<lambda>r. r), be_ReportWindow = 3600, be_URLTTL = 60, be_byURI = (\<lambda>u. Some xb_entry),
     be_feeOverride = (\<lambda>t r. None), be_IsActive = (\<lambda>b. SorActive True),
     be_URLSignerFor = (\<lambda>tn. Inr (\<lambda>u th ex. Some \<lparr>su_URL = ''signed'', su_Hash = ''h'', su_Expiry = ex\<rparr>)),
     be_Authorize = (\<lambda>b rq. (b, Inl ErrBackendUnavailable)), be_Record = (\<lambda>b i q k. (b, None)),
     be_Release = (\<lambda>b i k. (b, None)), be_uuid = decimal,
     be_fault = (\<lambda>f. False), be_cancelled = (\<lambda>n. False), be_others = (\<lambda>n cs. cs)\<rparr>"

definition xb_paid :: "nat benv" where
  "xb_paid = xb_env\<lparr>be_Authorize := (\<lambda>b rq. if b = 0 then (b + 1, Inr (approved ''bill-1'')) else (b, Inr (denied ''no'')))\<rparr>"

definition xb_offer :: "string \<Rightarrow> Offer" where
  "xb_offer i = \<lparr>of_OfferId = i, of_Signature = ''os'', of_CanonicalUrl = ''https://pub.example/a'',
     of_Pricing = \<lparr>pr_Model = ''per_unit'', pr_Rate = ''3'', pr_Currency = ''USD'', pr_Unit = ''page'',
       pr_EstimatedQuantity = Some 2, pr_Metering = Some PRICING_METERING_NONE, pr_UnitCost = None\<rparr>,
     of_Title = None, of_Expires = 1000, of_Exchange = ''x.example'', of_Doi = None, of_IptcGuid = None,
     of_ContentHash = None, of_Rest = []\<rparr>"

definition xb_item :: "string \<Rightarrow> TransactionItem" where
  "xb_item i = \<lparr>ti_Offer = xb_offer i, ti_AcceptanceSignature = ''sig''\<rparr>"

definition xb_req :: "string list \<Rightarrow> string option \<Rightarrow> TransactionRequest" where
  "xb_req is acc = \<lparr>tr_Ver = ''1.0'', tr_IdempotencyKey = ''k'', tr_Requester = \<lparr>rr_Id = ''agent'', rr_Domain = ''agent''\<rparr>,
     tr_Items = map xb_item is, tr_AgentRequestAcceptance = acc\<rparr>"

definition xb_agent :: Agent where
  "xb_agent = \<lparr>ag_ID = ''agent'', ag_PublicKey = xb_key, ag_DiscoveryURL = ''agent'',
     ag_RequesterType = ''AGENT'', ag_BillingRef = ''acct''\<rparr>"

definition xb_state :: "'b \<Rightarrow> RequestClaim list \<Rightarrow> 'b xstate" where
  "xb_state b cs = \<lparr>x_store = \<lparr>obligations = [], transactions = [], claims = cs,
     tenants = [\<lparr>tn_ID = ''t1'', tn_Domain = ''t1.example'', tn_ReportingPolicy = [], tn_AllowBrokerRelay = True,
       tn_FeeRateBps = 100\<rparr>]\<rparr>, x_evidence = [], x_agents = [xb_agent], x_billing = b, x_uuid = 0\<rparr>"

section \<open>Statements\<close>



text \<open>C19. What a batch answers is what it recorded: an executed batch returns one result per item in
  item order, each under its item's offer id; a denied item carries no transaction, no charge and
  no delivery; the log grows by exactly one row per delivered result, in order, under the item's
  derived key and with the result's transaction id, billing id, agent and stored payload; and no
  two rows of the log ever share a key.\<close>

theorem runBatchItems_rows:
  assumes "runBatchItems env req agent binding x = (Inr out, x')" "bo_recovered out = None"
    "distinct (map tl_IdempotencyKey (transactions (x_store x)))"
  shows "list_all2 result_for (tr_Items req) (bo_results out) \<and>
    (\<exists>new. transactions (x_store x') = transactions (x_store x) @ new \<and>
      list_all2 (recorded_as env req agent) (deliveredPairs (zip (tr_Items req) (bo_results out))) new) \<and>
    distinct (map tl_IdempotencyKey (transactions (x_store x')))"
  using runItems_rows [OF assms(1) [unfolded runBatchItems_def] assms(2,3)] by auto

definition xb_resolved :: resolvedAgent where
  "xb_resolved = \<lparr>ra_id = ''agent'', ra_billingRef = ''acct'', ra_key = \<lparr>ak_pub = xb_key, ak_discoveryURL = ''agent''\<rparr>\<rparr>"

definition xb_run2 :: "(svc_error, batchOutcome) res \<times> nat xstate" where
  "xb_run2 = runBatchItems xb_paid (xb_req [''o1'', ''o2''] None) xb_resolved zeroBinding (xb_state 0 [])"

lemma xb_run2_result:
  "map_sum id (\<lambda>out. (map res_DenialReason (bo_results out), bo_recovered out)) (fst xb_run2) =
     Inr ([None, Some DENIAL_REASON_INSUFFICIENT_BALANCE], None)"
  by code_simp

theorem runBatchItems_rows_witness:
  "\<exists>out x'. xb_run2 = (Inr out, x') \<and>
     map res_DenialReason (bo_results out) = [None, Some DENIAL_REASON_INSUFFICIENT_BALANCE] \<and>
     length (transactions (x_store x')) = 1"
proof -
  obtain a x' where a: "xb_run2 = (a, x')" by (cases xb_run2)
  then obtain out where run: "xb_run2 = (Inr out, x')" and out: "bo_recovered out = None"
    "map res_DenialReason (bo_results out) = [None, Some DENIAL_REASON_INSUFFICIENT_BALANCE]"
    using xb_run2_result [unfolded a fst_conv] by (cases a) auto
  have "\<exists>new. transactions (x_store x') = new \<and>
      length (deliveredPairs (zip [xb_item ''o1'', xb_item ''o2''] (bo_results out))) = length new"
    using runBatchItems_rows [OF run [unfolded xb_run2_def] out(1)]
    by (auto simp: xb_state_def xb_req_def dest: list_all2_lengthD)
  moreover obtain r1 r2 where "bo_results out = [r1, r2]" "res_DenialReason r1 = None" "res_DenialReason r2 \<noteq> None"
    using out(2) by (auto simp: map_eq_Cons_conv)
  ultimately have "length (transactions (x_store x')) = 1" by (auto simp: deliveredPairs_def)
  then show ?thesis by (intro exI [of _ out] exI [of _ x'] conjI run out(2))
qed

text \<open>C20. Replay round trip: when every item of an executed batch was delivered, a retry by the same
  agent, at any later time, reads back from the transaction log exactly the response the execution
  built, given that the item codec decodes the payloads it encoded.\<close>

theorem replay_returns_delivered:
  assumes "runBatchItems env req agent b0 x = (Inr out, x')" "bo_recovered out = None"
    "tr_Items req \<noteq> []" "\<forall>r \<in> set (bo_results out). res_DenialReason r = None"
    "distinct (map tl_IdempotencyKey (transactions (x_store x)))"
    "\<forall>r \<in> set (bo_results out). \<forall>p. be_MarshalItem env r = Some p \<longrightarrow>
       p \<noteq> [] \<and> be_UnmarshalItem env p = Some r"
    "\<not> f FaultProbe" "agentBindingForKey env (ra_key agent) bytes = Inr binding"
    "buildBatchTxResponse env (bo_results out) (bo_sharedThumbprint out) = Inr resp"
  shows "replayBatchResponse (env\<lparr>be_now := n, be_fault := f\<rparr>) req binding (transactions (x_store x')) =
    Inr (Some resp)"
  by (rule delivered_replay [OF assms(1-6) _ assms(8,9)]) (rule assms(7))

definition xb_run1 :: "(svc_error, batchOutcome) res \<times> nat xstate" where
  "xb_run1 = runBatchItems xb_paid (xb_req [''o1''] None) xb_resolved zeroBinding (xb_state 0 [])"

lemma xb_run1_result:
  "fst xb_run1 = Inr \<lparr>bo_results = [xb_result], bo_sharedThumbprint = ''thumb'', bo_recovered = None\<rparr>"
  by code_simp

lemma xb_codec: "res_DenialReason xb_result = None" "be_MarshalItem xb_paid r = Some ''item''"
  "be_UnmarshalItem xb_paid p = Some xb_result"
  by (simp_all add: xb_result_def xb_paid_def xb_env_def)

lemma xb_response_built: "buildBatchTxResponse xb_paid [xb_result] ''thumb'' = Inr xb_response"
  by code_simp

theorem replay_returns_delivered_witness:
  "\<exists>binding. agentBindingForKey xb_paid (ra_key xb_resolved) [] = Inr binding \<and>
     replayBatchResponse (xb_paid\<lparr>be_now := 500, be_fault := (\<lambda>g. g = FaultClaim)\<rparr>) (xb_req [''o1''] None) binding
       (transactions (x_store (snd xb_run1))) = Inr (Some xb_response)"
proof -
  have "\<exists>x'. xb_run1 = (Inr \<lparr>bo_results = [xb_result], bo_sharedThumbprint = ''thumb'', bo_recovered = None\<rparr>, x')"
    using xb_run1_result by (metis prod.collapse)
  then obtain x' where run: "xb_run1 = (Inr \<lparr>bo_results = [xb_result], bo_sharedThumbprint = ''thumb'', bo_recovered = None\<rparr>, x')"
    by blast
  obtain binding where b: "agentBindingForKey xb_paid (ra_key xb_resolved) [] = Inr binding"
    by (simp add: agentBindingForKey_def xb_paid_def xb_env_def)
  have "replayBatchResponse (xb_paid\<lparr>be_now := 500, be_fault := (\<lambda>g. g = FaultClaim)\<rparr>) (xb_req [''o1''] None) binding
      (transactions (x_store x')) = Inr (Some xb_response)"
    by (rule replay_returns_delivered [OF run [unfolded xb_run1_def] _ _ _ _ _ _ b])
      (simp_all add: xb_req_def xb_state_def xb_response_built xb_codec)
  then show ?thesis unfolding run snd_conv using b by blast
qed

text \<open>C21. A finalized answer is final: once a response is stored for an agent's request key, any later
  call of that agent under the key with a request acceptance, whatever its items, either fails or returns that
  stored response, and it touches no ledger, log, obligation, evidence or claim.\<close>

theorem executeBatch_finalized_stable:
  assumes "executeBatch env req x = (r, x')" "validateBatchRequest req = None"
    "resolveAgent (be_authz env) (rr_Id (tr_Requester req)) (x_agents x) = (Inr agent, ags)"
    "tr_AgentRequestAcceptance req = Some acceptance"
    "RequestResponse (ra_id agent) (tr_IdempotencyKey req) (claims (x_store x)) = Some p" "p \<noteq> []"
  shows "x' = x\<lparr>x_agents := ags\<rparr> \<and> (\<forall>resp. r = Inr resp \<longrightarrow> be_UnmarshalResponse env p = Some resp)"
  by (rule executeBatch_claimed [OF assms])

definition xb_claims :: "string option \<Rightarrow> RequestClaim list" where
  "xb_claims p = [\<lparr>cl_AgentID = ''agent'', cl_IdempotencyKey = ''k'', cl_ItemsDigest = claimDigest ''canonical'',
     cl_ResponsePayload = p\<rparr>]"

theorem executeBatch_finalized_stable_witness:
  "\<exists>r. executeBatch xb_paid (xb_req [''o9''] (Some ''ack'')) (xb_state 0 (xb_claims (Some ''resp''))) =
     (r, xb_state 0 (xb_claims (Some ''resp''))) \<and> (\<forall>resp. r = Inr resp \<longrightarrow> resp = xb_response)"
proof -
  let ?req = "xb_req [''o9''] (Some ''ack'')" and ?x = "xb_state 0 (xb_claims (Some ''resp''))"
  obtain r x' where run: "executeBatch xb_paid ?req ?x = (r, x')" by (cases "executeBatch xb_paid ?req ?x")
  have val: "validateBatchRequest ?req = None" by code_simp
  have ra: "resolveAgent (be_authz xb_paid) (rr_Id (tr_Requester ?req)) (x_agents ?x) = (Inr xb_resolved, x_agents ?x)"
    by (simp add: resolveAgent_def resolveAgentLazily_def agent_ByID_def xb_paid_def xb_env_def xb_authz_def
        xb_state_def xb_agent_def xb_req_def xb_resolved_def)
  have stored: "RequestResponse (ra_id xb_resolved) (tr_IdempotencyKey ?req) (claims (x_store ?x)) = Some ''resp''"
    by (simp add: RequestResponse_def getClaim_def xb_resolved_def xb_req_def xb_state_def xb_claims_def)
  have "tr_AgentRequestAcceptance ?req = Some ''ack''" by (simp add: xb_req_def)
  from executeBatch_finalized_stable [OF run val ra this stored] run show ?thesis
    by (auto simp: xb_state_def xb_paid_def xb_env_def)
qed

text \<open>One answer per request key: whichever of two executions stores its response first, both
  return the same response; the one that loses the store returns the winner's.\<close>

theorem finalize_agreement:
  assumes "finalizeBatchResponse env req aid resp1 x = (Inr r1, x1)" "claims_pk (claims (x_store x))"
    "finalizeBatchResponse env2 req aid resp2 x1 = (Inr r2, x2)"
    "be_UnmarshalResponse env2 = be_UnmarshalResponse env"
    "\<forall>p. be_MarshalResponse env resp1 = Some p \<longrightarrow> be_UnmarshalResponse env p = Some resp1"
  shows "r2 = r1"
proof -
  obtain p where p: "RequestResponse aid (tr_IdempotencyKey req) (claims (x_store x1)) = Some p"
    "be_UnmarshalResponse env p = Some r1" "claims_pk (claims (x_store x1))"
    using assms(1,2) by (cases rule: finalizeBatchResponse_cases) (use assms(5) in auto)
  show ?thesis using finalizeBatchResponse_stored [OF assms(3) p(3,1)] p(2) assms(4) by simp
qed

theorem finalize_agreement_witness:
  "\<exists>x1 x2. finalizeBatchResponse xb_paid (xb_req [''o1''] (Some ''ack'')) ''agent'' xb_response (xb_state 0 (xb_claims None)) = (Inr xb_response, x1) \<and>
     finalizeBatchResponse xb_paid (xb_req [''o1''] (Some ''ack'')) ''agent'' (xb_response\<lparr>rs_Items := []\<rparr>) x1 = (Inr xb_response, x2)"
proof -
  let ?req = "xb_req [''o1''] (Some ''ack'')" and ?x = "xb_state (0 :: nat) (xb_claims None)" and ?x1 = "xb_state (0 :: nat) (xb_claims (Some ''resp''))"
  have one: "finalizeBatchResponse xb_paid ?req ''agent'' xb_response ?x = (Inr xb_response, ?x1)"
    by (simp add: finalizeBatchResponse_def selectFinalizedBatchResponse_def FinalizeRequest_def xb_paid_def xb_env_def
        xb_state_def xb_claims_def xb_req_def setClaims_def)
  obtain r2 x2 where two: "finalizeBatchResponse xb_paid ?req ''agent'' (xb_response\<lparr>rs_Items := []\<rparr>) ?x1 = (Inr r2, x2)"
    by (simp add: finalizeBatchResponse_def selectFinalizedBatchResponse_def FinalizeRequest_def xb_paid_def xb_env_def
        xb_state_def xb_claims_def xb_req_def setClaims_def RequestResponse_def getClaim_def textOrEmpty_def)
  have "r2 = xb_response"
    by (rule finalize_agreement [OF one _ two])
      (simp_all add: claims_pk_def xb_state_def xb_claims_def xb_paid_def xb_env_def)
  then show ?thesis using one two by blast
qed

text \<open>C22. A losing request is answered: if the execution that holds the claim stores its response by
  the n-th poll of the bounded wait, and the caller has not gone away, the wait ends there and
  serves that stored response.\<close>

theorem awaitFinalizedResponse_delivers:
  assumes "n \<le> finalizedWaitPolls" "\<And>m. m < n \<Longrightarrow> \<not> be_cancelled env m" "\<not> be_fault env FaultReadResponse"
    "\<And>m. m < n \<Longrightarrow> textOrEmpty (RequestResponse aid (tr_IdempotencyKey req) (tables m)) = []"
    "\<And>m. m < n \<Longrightarrow> tables (Suc m) = be_others env m (tables m)"
    "RequestResponse aid (tr_IdempotencyKey req) (tables n) = Some p" "p \<noteq> []"
    "be_UnmarshalResponse env p = Some resp" "rs_AgentIdentityHash resp = ab_thumbprint binding"
  shows "awaitFinalizedResponse env req aid binding (tables 0) = (Inr (Some resp), tables n)"
  using awaitFinalizedFrom_later [of n env 0 aid req tables p binding] assms
  by (simp add: awaitFinalizedResponse_def serveFinalizedResponse_def)

definition xb_polls :: "nat \<Rightarrow> RequestClaim list" where
  "xb_polls m = xb_claims (if m < 3 then None else Some ''resp'')"

definition xb_wait :: "nat benv" where
  "xb_wait = xb_paid\<lparr>be_others := (\<lambda>n cs. if n = 2 then snd (FinalizeRequest ''agent'' ''k'' ''resp'' cs) else cs)\<rparr>"

theorem awaitFinalizedResponse_delivers_witness:
  "awaitFinalizedResponse xb_wait (xb_req [''o1''] (Some ''ack'')) ''agent'' (zeroBinding\<lparr>ab_thumbprint := ''thumb''\<rparr>)
     (xb_claims None) = (Inr (Some xb_response), xb_claims (Some ''resp''))"
proof -
  have "awaitFinalizedResponse xb_wait (xb_req [''o1''] (Some ''ack'')) ''agent'' (zeroBinding\<lparr>ab_thumbprint := ''thumb''\<rparr>)
      (xb_polls 0) = (Inr (Some xb_response), xb_polls 3)"
    by (rule awaitFinalizedResponse_delivers [where p = "''resp''"])
      (auto simp: finalizedWaitPolls_def xb_wait_def xb_paid_def xb_env_def xb_polls_def xb_claims_def xb_req_def
        textOrEmpty_def RequestResponse_def getClaim_def FinalizeRequest_def xb_response_def less_Suc_eq numeral_3_eq_3)
  then show ?thesis by (simp add: xb_polls_def)
qed

end
