(* ===== verification/Broker_Registry.thy ===== *)
theory Broker_Registry
  imports Exchange_Store "HOL-Library.Product_Lexorder" "HOL-Library.List_Lexorder" "HOL-Library.Char_ord" "HOL-Library.Multiset"
begin

text \<open>
  The Broker's exchange registry: the rows and statements of \<open>repo/exchange.go\<close> and
  \<open>db/queries/exchanges.sql\<close>, the bootstrap of \<open>registry/loader.go\<close> and the health refresher of
  \<open>registry/refresher.go\<close>. The table is a list of rows; a violated constraint is an error. Text
  columns order bytewise. Fetching a well-known and asking for \<open>/healthz\<close> are parameters; the
  probes of one pass run concurrently, each ends in one UPDATE, and \<open>order\<close> is the order in which
  these land. Time stamps and logging are not modelled.
\<close>

section \<open>Rows\<close>

record Exchange =
  xr_ID :: string
  xr_Domain :: string
  xr_Endpoint :: string
  xr_TrustLevel :: string
  xr_Healthy :: bool
  xr_SupportedProfiles :: "string list"
  xr_Priority :: int

definition TrustLevelDiscovered :: string where "TrustLevelDiscovered = ''DISCOVERED''"
definition TrustLevelVerified :: string where "TrustLevelVerified = ''VERIFIED''"
definition TrustLevelPreferred :: string where "TrustLevelPreferred = ''PREFERRED''"
definition TrustLevelBlocked :: string where "TrustLevelBlocked = ''BLOCKED''"

text \<open>The labels of the column's enum in their declared order, which is their sort order.\<close>

definition trust_level_enum :: "string list" where
  "trust_level_enum = [TrustLevelDiscovered, TrustLevelVerified, TrustLevelPreferred, TrustLevelBlocked]"

datatype Admission = AdmissionBlocked | AdmissionDown | AdmissionLive

definition row_Admission :: "Exchange \<Rightarrow> Admission" where
  "row_Admission e =
     (if xr_TrustLevel e = TrustLevelBlocked then AdmissionBlocked
      else if \<not> xr_Healthy e then AdmissionDown
      else AdmissionLive)"

datatype registry_fault = ErrNotFound | ErrConstraint | ErrRegistryRead

section \<open>Statements\<close>

definition CanonicalEndpoint :: "string \<Rightarrow> string" where
  "CanonicalEndpoint endpoint = trim_right (CHR ''/'') endpoint"

fun enum_index :: "string list \<Rightarrow> string \<Rightarrow> nat" where
  "enum_index [] s = 0"
| "enum_index (x # xs) s = (if x = s then 0 else Suc (enum_index xs s))"

definition ListUnblocked :: "Exchange list \<Rightarrow> Exchange list" where
  "ListUnblocked reg =
     sort_key (\<lambda>r. (- xr_Priority r, enum_index trust_level_enum (xr_TrustLevel r), xr_ID r))
       (filter (\<lambda>r. xr_TrustLevel r \<noteq> TrustLevelBlocked) reg)"

definition GetByDomain :: "string \<Rightarrow> Exchange list \<Rightarrow> (registry_fault, Exchange) res" where
  "GetByDomain domain reg =
     (case find (\<lambda>r. xr_Domain r = domain) reg of None \<Rightarrow> Inl ErrNotFound | Some r \<Rightarrow> Inr r)"


definition SetProbeResult :: "string \<Rightarrow> string \<Rightarrow> bool \<Rightarrow> Exchange list \<Rightarrow> Exchange list" where
  "SetProbeResult exchangeID endpoint healthy reg =
     map (\<lambda>r. if xr_ID r = exchangeID
              then r\<lparr>xr_Healthy := healthy, xr_Endpoint := CanonicalEndpoint endpoint\<rparr> else r) reg"

section \<open>Bootstrap\<close>

record BootstrapEntry =
  bs_ID :: string
  bs_Domain :: string
  bs_Endpoint :: string
  bs_TrustLevel :: string
  bs_SupportedProfiles :: "string list"
  bs_Priority :: int

definition validateEntry :: "BootstrapEntry \<Rightarrow> BootstrapEntry option" where
  "validateEntry e =
     (if bs_ID e = [] then None
      else if bs_Domain e = [] then None
      else if bs_Endpoint e = [] then None
      else Some (if bs_TrustLevel e = [] then e\<lparr>bs_TrustLevel := ''DISCOVERED''\<rparr> else e))"

fun validateEntries :: "BootstrapEntry list \<Rightarrow> BootstrapEntry list option" where
  "validateEntries [] = Some []"
| "validateEntries (e # es) =
     (case validateEntry e of
        None \<Rightarrow> None
      | Some e' \<Rightarrow> (case validateEntries es of None \<Rightarrow> None | Some es' \<Rightarrow> Some (e' # es')))"

text \<open>\<open>decode\<close> is the YAML decoder; its error is \<open>None\<close>.\<close>

definition LoadFromReader :: "('r \<Rightarrow> BootstrapEntry list option) \<Rightarrow> 'r \<Rightarrow> BootstrapEntry list option" where
  "LoadFromReader decode r =
     (case decode r of None \<Rightarrow> None | Some entries \<Rightarrow> validateEntries entries)"



section \<open>The health refresher\<close>

record refresh_env =
  rf_ResolveEndpoint :: "string \<Rightarrow> string option"
  rf_httpStatus :: "string \<Rightarrow> nat option"
  rf_writeFails :: "string \<Rightarrow> bool"

definition ping :: "refresh_env \<Rightarrow> string \<Rightarrow> bool" where
  "ping env endpoint = (rf_httpStatus env (endpoint @ ''/healthz'') = Some 200)"

definition probe :: "refresh_env \<Rightarrow> string \<Rightarrow> string \<times> bool" where
  "probe env domain =
     (case rf_ResolveEndpoint env domain of
        None \<Rightarrow> ([], False)
      | Some advertised \<Rightarrow>
          let endpoint = CanonicalEndpoint advertised in (endpoint, ping env endpoint))"

definition refreshOne :: "refresh_env \<Rightarrow> Exchange \<Rightarrow> Exchange list \<Rightarrow> Exchange list" where
  "refreshOne env m reg =
     (case probe env (xr_Domain m) of
        (found, healthy) \<Rightarrow>
          let endpoint = (if found \<noteq> [] then found else xr_Endpoint m)
          in if xr_Healthy m = healthy \<and> xr_Endpoint m = endpoint then reg
             else if rf_writeFails env (xr_ID m) then reg
             else SetProbeResult (xr_ID m) endpoint healthy reg)"

definition RefreshOnce ::
  "refresh_env \<Rightarrow> (Exchange list \<Rightarrow> Exchange list) \<Rightarrow> Exchange list \<Rightarrow> Exchange list" where
  "RefreshOnce env order reg = fold (refreshOne env) (order (ListUnblocked reg)) reg"

section \<open>Well-formed registries\<close>

definition registry_wf :: "Exchange list \<Rightarrow> bool" where
  "registry_wf reg \<longleftrightarrow> distinct (map xr_ID reg) \<and> distinct (map xr_Domain reg) \<and>
     (\<forall>r \<in> set reg. CanonicalEndpoint (xr_Endpoint r) = xr_Endpoint r \<and> xr_TrustLevel r \<in> set trust_level_enum)"

lemma CanonicalEndpoint_idem [simp]: "CanonicalEndpoint (CanonicalEndpoint e) = CanonicalEndpoint e"
  by (simp add: CanonicalEndpoint_def)









section \<open>One refresher pass\<close>

definition refreshedRow :: "refresh_env \<Rightarrow> Exchange \<Rightarrow> Exchange" where
  "refreshedRow env r =
     (if xr_TrustLevel r = TrustLevelBlocked \<or> rf_writeFails env (xr_ID r) then r
      else case rf_ResolveEndpoint env (xr_Domain r) of
        None \<Rightarrow> r\<lparr>xr_Healthy := False\<rparr>
      | Some advertised \<Rightarrow>
          let e = CanonicalEndpoint advertised
          in r\<lparr>xr_Healthy := ping env e, xr_Endpoint := (if e = [] then xr_Endpoint r else e)\<rparr>)"

lemma refreshOne_row:
  assumes "distinct (map xr_ID reg)" "m \<in> set reg" "xr_TrustLevel m \<noteq> TrustLevelBlocked"
    "CanonicalEndpoint (xr_Endpoint m) = xr_Endpoint m"
    "reg' = map (\<lambda>r. if xr_ID r \<in> D then refreshedRow env r else r) reg" "xr_ID m \<notin> D"
  shows "refreshOne env m reg' = map (\<lambda>r. if xr_ID r \<in> insert (xr_ID m) D then refreshedRow env r else r) reg"
proof -
  have uniq: "r = m" if "r \<in> set reg" "xr_ID r = xr_ID m" for r
    using assms(1,2) that by (auto simp: distinct_map inj_on_def)
  have keep: "xr_ID (refreshedRow env r) = xr_ID r" for r
    by (simp add: refreshedRow_def Let_def split: option.splits)
  obtain found h where pr: "probe env (xr_Domain m) = (found, h)" by (cases "probe env (xr_Domain m)")
  define e where "e = (if found \<noteq> [] then found else xr_Endpoint m)"
  have row: "refreshedRow env m = (if rf_writeFails env (xr_ID m) then m else m\<lparr>xr_Healthy := h, xr_Endpoint := e\<rparr>)"
    using pr assms(3) by (auto simp: refreshedRow_def probe_def e_def Let_def split: option.splits)
  have ce: "CanonicalEndpoint e = e"
    using pr assms(4) by (auto simp: e_def probe_def Let_def split: option.splits)
  have step: "refreshOne env m reg' = (if (xr_Healthy m = h \<and> xr_Endpoint m = e) \<or> rf_writeFails env (xr_ID m) then reg'
      else map (\<lambda>r. if xr_ID r = xr_ID m then r\<lparr>xr_Healthy := h, xr_Endpoint := e\<rparr> else r) reg')"
    using pr ce by (simp add: refreshOne_def Let_def SetProbeResult_def e_def [symmetric])
  show ?thesis
  proof (cases "(xr_Healthy m = h \<and> xr_Endpoint m = e) \<or> rf_writeFails env (xr_ID m)")
    case True
    then have "refreshedRow env m = m" using row by auto
    then have "(if xr_ID r \<in> D then refreshedRow env r else r) =
        (if xr_ID r \<in> insert (xr_ID m) D then refreshedRow env r else r)" if "r \<in> set reg" for r
      using uniq [OF that] assms(6) by auto
    then show ?thesis using step True assms(5) by simp
  next
    case False
    then have "refreshedRow env m = m\<lparr>xr_Healthy := h, xr_Endpoint := e\<rparr>" using row by auto
    then have "(if xr_ID (if xr_ID r \<in> D then refreshedRow env r else r) = xr_ID m
          then (if xr_ID r \<in> D then refreshedRow env r else r)\<lparr>xr_Healthy := h, xr_Endpoint := e\<rparr>
          else (if xr_ID r \<in> D then refreshedRow env r else r)) =
        (if xr_ID r \<in> insert (xr_ID m) D then refreshedRow env r else r)" if "r \<in> set reg" for r
      using uniq [OF that] assms(6) keep by auto
    then show ?thesis using step False assms(5) by simp
  qed
qed

lemma fold_refresh:
  assumes "registry_wf reg" "set ms \<subseteq> {r \<in> set reg. xr_TrustLevel r \<noteq> TrustLevelBlocked}" "distinct (map xr_ID ms)"
    "xr_ID ` set ms \<inter> D = {}" "reg' = map (\<lambda>r. if xr_ID r \<in> D then refreshedRow env r else r) reg"
  shows "fold (refreshOne env) ms reg' =
    map (\<lambda>r. if xr_ID r \<in> D \<union> xr_ID ` set ms then refreshedRow env r else r) reg"
  using assms(2-)
proof (induction ms arbitrary: D reg')
  case (Cons m ms)
  have "refreshOne env m reg' = map (\<lambda>r. if xr_ID r \<in> insert (xr_ID m) D then refreshedRow env r else r) reg"
    by (rule refreshOne_row) (use assms(1) Cons.prems in \<open>auto simp: registry_wf_def\<close>)
  then have "fold (refreshOne env) ms (refreshOne env m reg') =
      map (\<lambda>r. if xr_ID r \<in> insert (xr_ID m) D \<union> xr_ID ` set ms then refreshedRow env r else r) reg"
    by (intro Cons.IH) (use Cons.prems in auto)
  then show ?case by simp
qed simp

text \<open>C25. One refresher pass, whatever the order in which its concurrent probes finish: every row the
  operator has not blocked ends up with the health its own probe found and with the address its
  well-known advertises, or keeps its stored address when the well-known does not resolve; blocked
  rows are never contacted and never change.\<close>

theorem RefreshOnce_exact:
  assumes "registry_wf reg" "\<And>ms. mset (order ms) = mset ms"
  shows "RefreshOnce env order reg = map (refreshedRow env) reg"
proof -
  let ?ms = "order (ListUnblocked reg)"
  have set: "set ?ms = {r \<in> set reg. xr_TrustLevel r \<noteq> TrustLevelBlocked}"
    using arg_cong [OF assms(2), of set_mset "ListUnblocked reg"] by (auto simp: ListUnblocked_def)
  have ids: "distinct (map xr_ID (filter (\<lambda>r. xr_TrustLevel r \<noteq> TrustLevelBlocked) reg))"
    using assms(1) by (auto simp: registry_wf_def distinct_map intro: inj_on_subset)
  have "mset (map xr_ID ?ms) = mset (map xr_ID (filter (\<lambda>r. xr_TrustLevel r \<noteq> TrustLevelBlocked) reg))"
    using assms(2) [of "ListUnblocked reg"] by (simp add: ListUnblocked_def)
  then have dist: "distinct (map xr_ID ?ms)" using ids by (metis mset_eq_imp_distinct_iff)
  have "RefreshOnce env order reg = map (\<lambda>r. if xr_ID r \<in> xr_ID ` set ?ms then refreshedRow env r else r) reg"
    using fold_refresh [OF assms(1), of ?ms "{}" reg env] set dist by (simp add: RefreshOnce_def)
  also have "\<dots> = map (refreshedRow env) reg"
  proof (rule map_cong [OF refl])
    fix r assume r: "r \<in> set reg"
    show "(if xr_ID r \<in> xr_ID ` set ?ms then refreshedRow env r else r) = refreshedRow env r"
      using r set by (cases "xr_TrustLevel r = TrustLevelBlocked") (auto simp: refreshedRow_def)
  qed
  finally show ?thesis .
qed

definition ex_registry :: "Exchange list" where
  "ex_registry =
     [\<lparr>xr_ID = ''a'', xr_Domain = ''a.example'', xr_Endpoint = ''https://a.example'', xr_TrustLevel = ''VERIFIED'',
       xr_Healthy = True, xr_SupportedProfiles = [], xr_Priority = 1\<rparr>,
      \<lparr>xr_ID = ''b'', xr_Domain = ''b.example'', xr_Endpoint = ''https://b.example'', xr_TrustLevel = ''BLOCKED'',
       xr_Healthy = True, xr_SupportedProfiles = [], xr_Priority = 9\<rparr>]"

lemma ex_registry_wf: "registry_wf ex_registry"
  by (simp add: registry_wf_def ex_registry_def CanonicalEndpoint_def trim_right_def trust_level_enum_def
      TrustLevelDiscovered_def TrustLevelVerified_def TrustLevelPreferred_def TrustLevelBlocked_def)

theorem RefreshOnce_exact_witness:
  "map xr_Healthy (RefreshOnce \<lparr>rf_ResolveEndpoint = (\<lambda>d. None), rf_httpStatus = (\<lambda>u. None), rf_writeFails = (\<lambda>i. False)\<rparr> rev ex_registry)
     = [False, True]"
  using RefreshOnce_exact [OF ex_registry_wf, of rev]
  by (simp add: ex_registry_def refreshedRow_def TrustLevelBlocked_def)

end
