(* ===== verification/Replay_Store.thy ===== *)
theory Replay_Store
  imports Sha256
begin

text \<open>
  The replay stores of \<open>internal/replay/store.go\<close>: the in-memory store, the key it hashes a
  signature to, and the adapter to the two-argument interface. The Redis store is a service and is
  not modelled; \<open>replay_store\<close> states what the relay relies on of any store. Instants and durations
  are nanoseconds. The mutex makes each call one step.
\<close>

section \<open>Operations\<close>

definition ReplayTTL :: int where "ReplayTTL = 5 * 60 * 1000000000"

definition replayKey :: "string \<Rightarrow> string \<Rightarrow> string" where
  "replayKey keyID signature = sha256_hex (keyID @ [NUL] @ signature)"

text \<open>Go's map as an association list with distinct keys.\<close>

record MemoryStore =
  ms_seen :: "(string \<times> int) list"

definition NewMemoryStore :: MemoryStore where "NewMemoryStore = \<lparr>ms_seen = []\<rparr>"

definition sweepLocked :: "int \<Rightarrow> MemoryStore \<Rightarrow> MemoryStore" where
  "sweepLocked now s = s\<lparr>ms_seen := filter (\<lambda>(k, ex). now < ex) (ms_seen s)\<rparr>"

definition SeenOrAdd :: "int \<Rightarrow> string \<Rightarrow> string \<Rightarrow> int \<Rightarrow> MemoryStore \<Rightarrow> bool \<times> MemoryStore" where
  "SeenOrAdd now keyID signature ttl s =
     (let key = replayKey keyID signature
      in case map_of (ms_seen s) key of
           Some ex \<Rightarrow>
             if now < ex then (True, s)
             else (False, sweepLocked now (s\<lparr>ms_seen := AList.update key (now + ttl) (ms_seen s)\<rparr>))
         | None \<Rightarrow> (False, sweepLocked now (s\<lparr>ms_seen := AList.update key (now + ttl) (ms_seen s)\<rparr>)))"

definition Seen :: "int \<Rightarrow> string \<Rightarrow> string \<Rightarrow> MemoryStore \<Rightarrow> bool" where
  "Seen now keyID signature s =
     (case map_of (ms_seen s) (replayKey keyID signature) of None \<Rightarrow> False | Some ex \<Rightarrow> now < ex)"

definition ca_Seen :: "int \<Rightarrow> string \<Rightarrow> MemoryStore \<Rightarrow> bool" where
  "ca_Seen now nonce s = Seen now nonce [] s"

definition ca_SeenOrAdd :: "int \<Rightarrow> string \<Rightarrow> int \<Rightarrow> MemoryStore \<Rightarrow> bool \<times> MemoryStore" where
  "ca_SeenOrAdd now nonce ttl s = SeenOrAdd now nonce [] ttl s"

section \<open>Contract\<close>

text \<open>\<open>fresh\<close> is the state of a new store, \<open>seenOrAdd\<close> and \<open>seen\<close> its two calls on a nonce \<open>'n\<close>.\<close>

locale replay_store =
  fixes fresh :: "'s"
    and inv :: "'s \<Rightarrow> bool"
    and seen :: "int \<Rightarrow> 'n \<Rightarrow> 's \<Rightarrow> bool"
    and seenOrAdd :: "int \<Rightarrow> 'n \<Rightarrow> int \<Rightarrow> 's \<Rightarrow> bool \<times> 's"
  assumes fresh_inv: "inv fresh"
    and fresh_empty: "\<not> seen t n fresh"
    and add_inv: "inv s \<Longrightarrow> inv (snd (seenOrAdd t n ttl s))"
    and add_answer: "fst (seenOrAdd t n ttl s) = seen t n s"
    and add_refused: "seen t n s \<Longrightarrow> snd (seenOrAdd t n ttl s) = s"
    and add_records: "inv s \<Longrightarrow> \<not> seen t n s \<Longrightarrow> t \<le> t' \<Longrightarrow> t' < t + ttl \<Longrightarrow> seen t' n (snd (seenOrAdd t n ttl s))"
    and add_keeps: "inv s \<Longrightarrow> t \<le> t' \<Longrightarrow> seen t' m s \<Longrightarrow> seen t' m (snd (seenOrAdd t n ttl s))"
    and seen_mono: "t \<le> t' \<Longrightarrow> seen t' n s \<Longrightarrow> seen t n s"
begin

fun run :: "(int \<times> 'n \<times> int) list \<Rightarrow> 's \<Rightarrow> bool list \<times> 's" where
  "run [] s = ([], s)"
| "run ((t, n, ttl) # calls) s =
     (case seenOrAdd t n ttl s of (b, s1) \<Rightarrow> (case run calls s1 of (bs, s2) \<Rightarrow> (b # bs, s2)))"

lemma run_inv: "inv s \<Longrightarrow> inv (snd (run calls s))"
proof (induction calls arbitrary: s)
  case (Cons c calls)
  obtain t n ttl where c: "c = (t, n, ttl)" by (cases c)
  obtain b s1 where s1: "seenOrAdd t n ttl s = (b, s1)" by (cases "seenOrAdd t n ttl s")
  then have "inv (snd (run calls s1))" using Cons add_inv [of s t n ttl] by simp
  then show ?case using c s1 by (cases "run calls s1") simp
qed simp

lemma run_keeps:
  assumes "inv s" "seen t' m s" "\<forall>(t, n, ttl) \<in> set calls. t \<le> t'"
  shows "seen t' m (snd (run calls s))"
  using assms
proof (induction calls arbitrary: s)
  case (Cons c calls)
  obtain t n ttl where c: "c = (t, n, ttl)" by (cases c)
  obtain b s1 where s1: "seenOrAdd t n ttl s = (b, s1)" by (cases "seenOrAdd t n ttl s")
  have "inv s1" "seen t' m s1"
    using add_inv [of s t n ttl] add_keeps [of s t t' m n ttl] Cons.prems s1 c by auto
  then have "seen t' m (snd (run calls s1))" using Cons.IH Cons.prems(3) by simp
  then show ?case using c s1 by (cases "run calls s1") simp
qed simp

text \<open>A nonce that was let through once is refused until its window has passed, whatever calls come
  in between.\<close>

lemma no_replay:
  assumes "inv s" "fst (seenOrAdd t n ttl s) = False" "t' < t + ttl"
    "\<forall>(u, _, _) \<in> set calls. u \<le> t'" "t \<le> t'"
  shows "fst (seenOrAdd t' n ttl' (snd (run calls (snd (seenOrAdd t n ttl s)))))"
proof -
  have "seen t' n (snd (seenOrAdd t n ttl s))"
    by (rule add_records [OF assms(1)]) (use assms add_answer in auto)
  then have "seen t' n (snd (run calls (snd (seenOrAdd t n ttl s))))"
    by (rule run_keeps [OF add_inv [OF assms(1)]]) (use assms(4) in auto)
  then show ?thesis by (simp add: add_answer)
qed

end

section \<open>The in-memory store\<close>

definition ms_inv :: "MemoryStore \<Rightarrow> bool" where
  "ms_inv s \<longleftrightarrow> distinct (map fst (ms_seen s))"

lemma map_of_filter_key:
  "distinct (map fst xs) \<Longrightarrow>
     map_of (filter (\<lambda>(k, v). P v) xs) k = (case map_of xs k of None \<Rightarrow> None | Some v \<Rightarrow> if P v then Some v else None)"
  by (induction xs) (auto split: option.splits dest: map_of_SomeD simp: rev_image_eqI map_of_eq_None_iff)

lemma ms_inv_sweep: "ms_inv s \<Longrightarrow> ms_inv (sweepLocked now s)"
  by (simp add: ms_inv_def sweepLocked_def distinct_map_filter)

lemma map_of_SeenOrAdd:
  assumes "ms_inv s" "\<not> Seen t kid sig s"
  shows "map_of (ms_seen (snd (SeenOrAdd t kid sig ttl s))) k =
    (let v = (if k = replayKey kid sig then Some (t + ttl) else map_of (ms_seen s) k)
     in case v of None \<Rightarrow> None | Some ex \<Rightarrow> if t < ex then Some ex else None)"
proof -
  have "snd (SeenOrAdd t kid sig ttl s) =
      sweepLocked t (s\<lparr>ms_seen := AList.update (replayKey kid sig) (t + ttl) (ms_seen s)\<rparr>)"
    using assms(2) by (auto simp: SeenOrAdd_def Seen_def Let_def split: option.splits)
  moreover have "distinct (map fst (AList.update (replayKey kid sig) (t + ttl) (ms_seen s)))"
    using assms(1) by (simp add: ms_inv_def distinct_AList_update)
  ultimately show ?thesis
    by (simp add: sweepLocked_def map_of_filter_key Let_def map_of_AList_update)
qed

lemma SeenOrAdd_inv: "ms_inv s \<Longrightarrow> ms_inv (snd (SeenOrAdd t kid sig ttl s))"
  by (auto simp: SeenOrAdd_def Let_def ms_inv_def distinct_AList_update sweepLocked_def
      distinct_map_filter split: option.splits)

lemma SeenOrAdd_answer: "fst (SeenOrAdd t kid sig ttl s) = Seen t kid sig s"
  by (auto simp: SeenOrAdd_def Seen_def Let_def split: option.splits)

lemma SeenOrAdd_refused: "Seen t kid sig s \<Longrightarrow> snd (SeenOrAdd t kid sig ttl s) = s"
  by (auto simp: SeenOrAdd_def Seen_def Let_def split: option.splits if_splits)

lemma Seen_after:
  assumes "ms_inv s" "t \<le> t'"
  shows "Seen t' kid' sig' (snd (SeenOrAdd t kid sig ttl s)) \<longleftrightarrow>
    (if replayKey kid' sig' = replayKey kid sig \<and> \<not> Seen t kid sig s then t' < t + ttl else Seen t' kid' sig' s)"
proof (cases "Seen t kid sig s")
  case True
  then show ?thesis by (simp add: SeenOrAdd_refused)
next
  case False
  then show ?thesis using map_of_SeenOrAdd [OF assms(1) False, of ttl] assms(2)
    by (auto simp: Seen_def Let_def split: option.splits)
qed

lemma Seen_mono: "t \<le> t' \<Longrightarrow> Seen t' kid sig s \<Longrightarrow> Seen t kid sig s"
  by (auto simp: Seen_def split: option.splits)

lemma Seen_keeps:
  assumes "ms_inv s" "t \<le> t'" "Seen t' kid' sig' s"
  shows "Seen t' kid' sig' (snd (SeenOrAdd t kid sig ttl s))"
proof -
  have "Seen t kid sig s" if "replayKey kid' sig' = replayKey kid sig"
    using Seen_mono [OF assms(2,3)] that by (simp add: Seen_def)
  then show ?thesis using Seen_after [OF assms(1,2)] assms(3) by auto
qed

lemma Seen_records:
  assumes "ms_inv s" "\<not> Seen t kid sig s" "t \<le> t'" "t' < t + ttl"
  shows "Seen t' kid sig (snd (SeenOrAdd t kid sig ttl s))"
  using Seen_after [OF assms(1,3)] assms(2,4) by simp

lemma Seen_new: "\<not> Seen t kid sig NewMemoryStore"
  by (simp add: Seen_def NewMemoryStore_def)

lemma NewMemoryStore_inv: "ms_inv NewMemoryStore"
  by (simp add: ms_inv_def NewMemoryStore_def)

interpretation ms: replay_store NewMemoryStore ms_inv
  "\<lambda>t n. Seen t (fst n) (snd n)" "\<lambda>t n. SeenOrAdd t (fst n) (snd n)"
  by unfold_locales
    (simp_all add: SeenOrAdd_answer SeenOrAdd_refused SeenOrAdd_inv Seen_keeps Seen_records Seen_new
      NewMemoryStore_inv Seen_mono)

interpretation ca: replay_store NewMemoryStore ms_inv ca_Seen ca_SeenOrAdd
  by unfold_locales
    (simp_all add: ca_Seen_def ca_SeenOrAdd_def SeenOrAdd_answer SeenOrAdd_refused SeenOrAdd_inv Seen_keeps
      Seen_records Seen_new NewMemoryStore_inv Seen_mono)

section \<open>Refinement of an append-only log\<close>

text \<open>The specification never forgets: it keeps every accepted signature with its expiry, and a call is a
  replay when an accepted entry for its key has not expired.\<close>

definition spec_SeenOrAdd ::
  "int \<Rightarrow> string \<Rightarrow> string \<Rightarrow> int \<Rightarrow> (string \<times> int) list \<Rightarrow> bool \<times> (string \<times> int) list" where
  "spec_SeenOrAdd now keyID signature ttl hist =
     (if list_ex (\<lambda>(k, ex). k = replayKey keyID signature \<and> now < ex) hist then (True, hist)
      else (False, (replayKey keyID signature, now + ttl) # hist))"

fun store_run :: "(int \<times> string \<times> string \<times> int) list \<Rightarrow> MemoryStore \<Rightarrow> bool list" where
  "store_run [] s = []"
| "store_run ((t, kid, sig, ttl) # calls) s =
     fst (SeenOrAdd t kid sig ttl s) # store_run calls (snd (SeenOrAdd t kid sig ttl s))"

fun spec_run :: "(int \<times> string \<times> string \<times> int) list \<Rightarrow> (string \<times> int) list \<Rightarrow> bool list" where
  "spec_run [] hist = []"
| "spec_run ((t, kid, sig, ttl) # calls) hist =
     fst (spec_SeenOrAdd t kid sig ttl hist) # spec_run calls (snd (spec_SeenOrAdd t kid sig ttl hist))"

definition simulates :: "int \<Rightarrow> MemoryStore \<Rightarrow> (string \<times> int) list \<Rightarrow> bool" where
  "simulates now s hist \<longleftrightarrow> ms_inv s \<and>
     (\<forall>t kid sig. now \<le> t \<longrightarrow> Seen t kid sig s = list_ex (\<lambda>(k, ex). k = replayKey kid sig \<and> t < ex) hist)"

lemma simulates_step:
  assumes "simulates t s hist"
  shows "fst (SeenOrAdd t kid sig ttl s) = fst (spec_SeenOrAdd t kid sig ttl hist)"
    and "simulates t (snd (SeenOrAdd t kid sig ttl s)) (snd (spec_SeenOrAdd t kid sig ttl hist))"
proof -
  have inv: "ms_inv s" and now: "Seen u k g s = list_ex (\<lambda>(k', ex). k' = replayKey k g \<and> u < ex) hist"
    if "t \<le> u" for u k g using assms that by (auto simp: simulates_def)
  show "fst (SeenOrAdd t kid sig ttl s) = fst (spec_SeenOrAdd t kid sig ttl hist)"
    using now [of t kid sig] by (simp add: SeenOrAdd_answer spec_SeenOrAdd_def)
  show "simulates t (snd (SeenOrAdd t kid sig ttl s)) (snd (spec_SeenOrAdd t kid sig ttl hist))"
    unfolding simulates_def
  proof (intro conjI allI impI)
    show "ms_inv (snd (SeenOrAdd t kid sig ttl s))" using inv [of t] by (simp add: SeenOrAdd_inv)
    fix u k g assume "t \<le> u"
    show "Seen u k g (snd (SeenOrAdd t kid sig ttl s)) =
        list_ex (\<lambda>(k', ex). k' = replayKey k g \<and> u < ex) (snd (spec_SeenOrAdd t kid sig ttl hist))"
    proof (cases "Seen t kid sig s")
      case True
      then show ?thesis using now [of t kid sig] now [OF \<open>t \<le> u\<close>, of k g]
        by (simp add: SeenOrAdd_refused spec_SeenOrAdd_def)
    next
      case False
      have old: "\<not> Seen u k g s" if "replayKey k g = replayKey kid sig"
        using False Seen_mono [OF \<open>t \<le> u\<close>, of kid sig s] that by (auto simp: Seen_def)
      show ?thesis using False old now [of t kid sig] now [OF \<open>t \<le> u\<close>, of k g] Seen_after [OF inv [of t] \<open>t \<le> u\<close>, of k g kid sig ttl]
        by (auto simp: spec_SeenOrAdd_def)
    qed
  qed
qed

lemma simulates_later: "simulates t s hist \<Longrightarrow> t \<le> u \<Longrightarrow> simulates u s hist"
  by (auto simp: simulates_def)

lemma store_run_refines:
  "simulates now s hist \<Longrightarrow> sorted (now # map fst calls) \<Longrightarrow> store_run calls s = spec_run calls hist"
proof (induction calls arbitrary: now s hist)
  case (Cons c calls)
  obtain t kid sig ttl where c: "c = (t, kid, sig, ttl)" by (cases c)
  have sim: "simulates t s hist" using simulates_later [OF Cons.prems(1)] Cons.prems(2) c by simp
  have "sorted (t # map fst calls)" using Cons.prems(2) c by simp
  then show ?case using Cons.IH [OF simulates_step(2) [OF sim]] simulates_step(1) [OF sim] c by simp
qed simp

lemma simulates_new: "simulates t NewMemoryStore []"
  by (simp add: simulates_def NewMemoryStore_inv Seen_new)

text \<open>C23. The in-memory replay store, which overwrites and sweeps its entries, refines the append-only
  log: over any sequence of calls whose clock does not run backwards it gives exactly the log's
  answers, so a signature is refused if and only if an accepted one with its key is still within
  its window. Sweeping never reopens a window and never prolongs one.\<close>

theorem MemoryStore_refines_log:
  assumes "sorted (map fst calls)"
  shows "store_run calls NewMemoryStore = spec_run calls []"
proof (cases calls)
  case (Cons c cs)
  then show ?thesis
    using store_run_refines [OF simulates_new, of "fst c" calls] assms by simp
qed simp

theorem MemoryStore_refines_log_witness:
  "store_run [(0, ''kid'', ''sig'', 10), (5, ''kid'', ''sig'', 10), (10, ''kid'', ''sig'', 10)] NewMemoryStore =
     spec_run [(0, ''kid'', ''sig'', 10), (5, ''kid'', ''sig'', 10), (10, ''kid'', ''sig'', 10)] [] \<and>
   spec_run [(0, ''kid'', ''sig'', 10), (5, ''kid'', ''sig'', 10), (10, ''kid'', ''sig'', 10)] [] = [False, True, False]"
  by (rule conjI [OF MemoryStore_refines_log]) (simp_all add: spec_SeenOrAdd_def)

end
