(* ===== verification/Broker_Relay.thy ===== *)
theory Broker_Relay
  imports Broker_Registry Replay_Store Batch_Execute
begin

text \<open>
  The Broker's relay of agent-signed requests: the shared pipeline of \<open>relay/relay.go\<close> (SSRF
  allowlist, boundary verification, replay guard, audit), the batch fan-out of \<open>relay/batch.go\<close> and the
  handlers \<open>transport/exchange_relay_batch.go\<close> and \<open>transport/discover_relay.go\<close> that compose them;
  \<open>broker/error.go\<close> for the errors they answer with.

  Parameters: the decoder, the SDK's verification of the agent signature over the request (giving the key id
  and the signature), the resolver of an exchange's well-known, and the exchanges themselves: the
  n-th upstream call gives a response or a transport error. \<open>raudit\<close> is the audit trail and
  \<open>rcalls\<close> the upstream calls made so far, newest last.
\<close>

section \<open>Errors\<close>

datatype BrokerKind =
    BKindUnknown | BKindInvalidArgument | BKindNotFound | BKindUnauthenticated | BKindPermissionDenied
  | BKindBudgetExhausted | BKindUpstreamUnavailable | BKindUpstreamRejected | BKindInternal

record broker_error =
  bk_Kind :: BrokerKind
  bk_Metadata :: "(string \<times> string) list"

definition bNewf :: "BrokerKind \<Rightarrow> broker_error" where
  "bNewf kind = \<lparr>bk_Kind = kind, bk_Metadata = []\<rparr>"

definition bWithMeta :: "broker_error \<Rightarrow> string \<Rightarrow> string \<Rightarrow> broker_error" where
  "bWithMeta e key val = e\<lparr>bk_Metadata := AList.update key val (bk_Metadata e)\<rparr>"

definition bWithField :: "broker_error \<Rightarrow> string \<Rightarrow> broker_error" where
  "bWithField e name = bWithMeta e ''field'' name"

fun bConnectCode :: "BrokerKind \<Rightarrow> Code" where
  "bConnectCode BKindInvalidArgument = CodeInvalidArgument"
| "bConnectCode BKindNotFound = CodeNotFound"
| "bConnectCode BKindUnauthenticated = CodeUnauthenticated"
| "bConnectCode BKindPermissionDenied = CodePermissionDenied"
| "bConnectCode BKindBudgetExhausted = CodeResourceExhausted"
| "bConnectCode BKindUpstreamUnavailable = CodeUnavailable"
| "bConnectCode BKindUpstreamRejected = CodeFailedPrecondition"
| "bConnectCode _ = CodeInternal"

fun connectCodeToHTTPStatus :: "Code \<Rightarrow> nat option" where
  "connectCodeToHTTPStatus CodeInvalidArgument = Some 400"
| "connectCodeToHTTPStatus CodeUnauthenticated = Some 401"
| "connectCodeToHTTPStatus CodePermissionDenied = Some 403"
| "connectCodeToHTTPStatus CodeNotFound = Some 404"
| "connectCodeToHTTPStatus CodeResourceExhausted = Some 429"
| "connectCodeToHTTPStatus CodeFailedPrecondition = Some 400"
| "connectCodeToHTTPStatus CodeUnavailable = Some 503"
| "connectCodeToHTTPStatus CodeInternal = Some 500"
| "connectCodeToHTTPStatus _ = None"

text \<open>The status line \<open>writeBrokerError\<close> sends.\<close>

definition brokerErrorStatus :: "broker_error \<Rightarrow> nat" where
  "brokerErrorStatus e =
     (case connectCodeToHTTPStatus (bConnectCode (bk_Kind e)) of Some st \<Rightarrow> st | None \<Rightarrow> 500)"

section \<open>State\<close>

datatype resolve_error = ErrInvalidHost | ErrNoEndpoint | ErrEndpointRefused | ErrResolveOther

definition IsVerdict :: "resolve_error \<Rightarrow> bool" where
  "IsVerdict e = (e = ErrInvalidHost \<or> e = ErrNoEndpoint \<or> e = ErrEndpointRefused)"

record relay_env =
  rl_now :: int
  rl_verifyAgentSignature :: "string \<Rightarrow> (string \<times> string) option"
  rl_registryDown :: bool
  rl_ResolveEndpoint :: "string \<Rightarrow> (resolve_error, string) res"
  rl_ExecuteTransaction :: "nat \<Rightarrow> string \<Rightarrow> TransactionRequest \<Rightarrow> TransactionResponse option"
  rl_ParseMoney :: "string \<Rightarrow> rat option"
  rl_FormatMoney :: "rat \<Rightarrow> string option"
  rl_ProtocolVersion :: string

record relay_state =
  rregistry :: "Exchange list"
  rreplay :: MemoryStore
  raudit :: "(string \<times> string) list"
  rcalls :: "(string \<times> TransactionItem list) list"

definition Audit :: "string \<Rightarrow> string \<Rightarrow> relay_state \<Rightarrow> relay_state" where
  "Audit outcome endpoint s = s\<lparr>raudit := raudit s @ [(outcome, endpoint)]\<rparr>"

section \<open>The shared pipeline\<close>

definition ActionRejectedEndpoint :: string where "ActionRejectedEndpoint = ''REJECTED_ENDPOINT''"
definition ActionRejectedEndpointDown :: string where "ActionRejectedEndpointDown = ''REJECTED_ENDPOINT_DOWN''"
definition ActionRejectedUpstream :: string where "ActionRejectedUpstream = ''REJECTED_UPSTREAM''"
definition ActionRejectedInternal :: string where "ActionRejectedInternal = ''REJECTED_INTERNAL''"

definition AuditAction :: "broker_error option \<Rightarrow> string" where
  "AuditAction err =
     (case err of
        None \<Rightarrow> ActionRejectedEndpoint
      | Some e \<Rightarrow>
          (case bk_Kind e of
             BKindUpstreamUnavailable \<Rightarrow> ActionRejectedEndpointDown
           | BKindInternal \<Rightarrow> ActionRejectedInternal
           | BKindUpstreamRejected \<Rightarrow> ActionRejectedUpstream
           | _ \<Rightarrow> ActionRejectedEndpoint))"

datatype EndpointAdmission = EndpointUnregistered | EndpointDown | EndpointLive



definition admissionOf :: "Exchange \<Rightarrow> EndpointAdmission" where
  "admissionOf ex =
     (case row_Admission ex of
        AdmissionLive \<Rightarrow> EndpointLive
      | AdmissionDown \<Rightarrow> EndpointDown
      | AdmissionBlocked \<Rightarrow> EndpointUnregistered)"


definition UnregisteredEndpointError :: "string \<Rightarrow> broker_error" where
  "UnregisteredEndpointError endpoint = bWithMeta (bNewf BKindInvalidArgument) ''resolved_endpoint'' endpoint"

definition DownEndpointError :: "string \<Rightarrow> broker_error" where
  "DownEndpointError endpoint = bWithMeta (bNewf BKindUpstreamUnavailable) ''resolved_endpoint'' endpoint"

definition RefuseAdmission ::
  "EndpointAdmission \<Rightarrow> string \<Rightarrow> relay_state \<Rightarrow> broker_error option \<times> relay_state" where
  "RefuseAdmission adm endpoint s =
     (if adm = EndpointLive then (None, s)
      else
        let rerr = (if adm = EndpointDown then DownEndpointError endpoint else UnregisteredEndpointError endpoint)
        in (Some rerr, Audit (AuditAction (Some rerr)) endpoint s))"


definition VerifyAndGuardReplay ::
  "relay_env \<Rightarrow> string \<Rightarrow> relay_state \<Rightarrow> broker_error option \<times> relay_state" where
  "VerifyAndGuardReplay env endpoint s =
     (case rl_verifyAgentSignature env endpoint of
        None \<Rightarrow> (Some (bNewf BKindUnauthenticated), Audit ''REJECTED_AUTHZ'' endpoint s)
      | Some (keyID, signature) \<Rightarrow>
          (case SeenOrAdd (rl_now env) keyID signature ReplayTTL (rreplay s) of
             (seen, st) \<Rightarrow>
               let s' = s\<lparr>rreplay := st\<rparr>
               in if seen then (Some (bNewf BKindUnauthenticated), Audit ''REJECTED_REPLAY'' endpoint s')
                  else (None, s')))"

section \<open>Batch fan-out\<close>

record Group =
  gr_domain :: string
  gr_endpoint :: string
  gr_items :: "TransactionItem list"

definition trustedExchange :: "relay_env \<Rightarrow> string \<Rightarrow> Exchange list \<Rightarrow> (broker_error, Exchange) res" where
  "trustedExchange env domain reg =
     (if rl_registryDown env then Inl (bNewf BKindInternal)
      else case GetByDomain domain reg of
        Inl _ \<Rightarrow> Inl (bWithField (bNewf BKindInvalidArgument) ''offer.exchange'')
      | Inr ex \<Rightarrow> Inr ex)"

definition refuseUntrustedForExecute :: "Exchange \<Rightarrow> broker_error option" where
  "refuseUntrustedForExecute ex =
     (if xr_TrustLevel ex = TrustLevelVerified \<or> xr_TrustLevel ex = TrustLevelPreferred then None
      else Some (bWithField (bNewf BKindInvalidArgument) ''offer.exchange''))"

definition resolveAdvertisedEndpoint :: "relay_env \<Rightarrow> string \<Rightarrow> (broker_error, string) res" where
  "resolveAdvertisedEndpoint env domain =
     (case rl_ResolveEndpoint env domain of
        Inl e \<Rightarrow> Inl (bNewf (if IsVerdict e then BKindInvalidArgument else BKindUpstreamUnavailable))
      | Inr endpoint \<Rightarrow> Inr (CanonicalEndpoint endpoint))"

definition resolveGroupEndpoint ::
  "relay_env \<Rightarrow> string \<Rightarrow> relay_state \<Rightarrow> (broker_error, string) res \<times> relay_state" where
  "resolveGroupEndpoint env domain s =
     (case trustedExchange env domain (rregistry s) of
        Inl e \<Rightarrow> (Inl e, Audit (AuditAction (Some e)) domain s)
      | Inr ex \<Rightarrow>
          (case RefuseAdmission (admissionOf ex) domain s of
             (Some e, s') \<Rightarrow> (Inl e, s')
           | (None, s') \<Rightarrow>
               (case refuseUntrustedForExecute ex of
                  Some e \<Rightarrow> (Inl e, Audit ''REJECTED_AUTHZ'' domain s')
                | None \<Rightarrow>
                    (case resolveAdvertisedEndpoint env domain of
                       Inl e \<Rightarrow> (Inl e, Audit (AuditAction (Some e)) domain s')
                     | Inr endpoint \<Rightarrow> (Inr endpoint, s')))))"

text \<open>The grouping loop: distinct domains in first-seen order, or the first item without one.\<close>

fun groupDomains :: "nat \<Rightarrow> TransactionItem list \<Rightarrow> string list \<Rightarrow> (broker_error, string list) res" where
  "groupDomains i [] order = Inr order"
| "groupDomains i (item # items) order =
     (let domain = of_Exchange (ti_Offer item)
      in if domain = [] then
           Inl (bWithMeta (bWithField (bNewf BKindInvalidArgument) ''offer.exchange'') ''item_index'' (decimal i))
         else groupDomains (Suc i) items (if domain \<in> set order then order else order @ [domain]))"

fun resolveAll ::
  "relay_env \<Rightarrow> TransactionItem list \<Rightarrow> string list \<Rightarrow> relay_state \<Rightarrow> (broker_error, Group list) res \<times> relay_state" where
  "resolveAll env items [] s = (Inr [], s)"
| "resolveAll env items (domain # order) s =
     (case resolveGroupEndpoint env domain s of
        (Inl e, s1) \<Rightarrow> (Inl e, s1)
      | (Inr endpoint, s1) \<Rightarrow>
          (case resolveAll env items order s1 of
             (Inl e, s2) \<Rightarrow> (Inl e, s2)
           | (Inr groups, s2) \<Rightarrow>
               (Inr (\<lparr>gr_domain = domain, gr_endpoint = endpoint,
                      gr_items = filter (\<lambda>it. of_Exchange (ti_Offer it) = domain) items\<rparr> # groups), s2)))"

definition ResolveGroups ::
  "relay_env \<Rightarrow> TransactionRequest \<Rightarrow> relay_state \<Rightarrow> (broker_error, Group list) res \<times> relay_state" where
  "ResolveGroups env txReq s =
     (case groupDomains 0 (tr_Items txReq) [] of
        Inl e \<Rightarrow> (Inl e, s)
      | Inr order \<Rightarrow> resolveAll env (tr_Items txReq) order s)"

definition unavailableItem :: "string \<Rightarrow> TransactionResultItem" where
  "unavailableItem offerID =
     \<lparr>res_OfferId = offerID, res_TransactionId = [], res_BillingId = [], res_ResourceTitle = None,
      res_Cost = None, res_UnitCost = None, res_ExpiresAt = None, res_RetrievalEndpoint = None,
      res_ReportingObligation = None, res_DenialReason = Some DENIAL_REASON_CONTENT_UNAVAILABLE\<rparr>"

definition collectGroupDenials ::
  "(string \<rightharpoonup> TransactionResultItem) \<Rightarrow> TransactionItem list \<Rightarrow> string \<rightharpoonup> TransactionResultItem" where
  "collectGroupDenials into items =
     foldl (\<lambda>m it. m(of_OfferId (ti_Offer it) \<mapsto> unavailableItem (of_OfferId (ti_Offer it)))) into items"

definition mergeResults ::
  "relay_env \<Rightarrow> TransactionItem list \<Rightarrow> (string \<rightharpoonup> TransactionResultItem) \<Rightarrow> string \<Rightarrow> TransactionResponse" where
  "mergeResults env items resultByOffer agentHash =
     \<lparr>rs_Ver = rl_ProtocolVersion env,
      rs_Items = map (\<lambda>it. let offerID = of_OfferId (ti_Offer it)
                           in case resultByOffer offerID of Some r \<Rightarrow> r | None \<Rightarrow> unavailableItem offerID) items,
      rs_AgentIdentityHash = agentHash, rs_TotalCost = None\<rparr>"

text \<open>The loop over the groups: \<open>resultByOffer\<close> and the first non-empty identity hash.\<close>

fun fanOutGroups ::
  "relay_env \<Rightarrow> TransactionRequest \<Rightarrow> Group list \<Rightarrow> (string \<rightharpoonup> TransactionResultItem) \<times> string \<Rightarrow> relay_state \<Rightarrow>
   ((string \<rightharpoonup> TransactionResultItem) \<times> string) \<times> relay_state" where
  "fanOutGroups env txReq [] acc s = (acc, s)"
| "fanOutGroups env txReq (g # groups) (m, agentHash) s =
     (let n = length (rcalls s); s1 = s\<lparr>rcalls := rcalls s @ [(gr_endpoint g, gr_items g)]\<rparr>
      in case rl_ExecuteTransaction env n (gr_endpoint g) (txReq\<lparr>tr_Items := gr_items g\<rparr>) of
           None \<Rightarrow>
             fanOutGroups env txReq groups (collectGroupDenials m (gr_items g), agentHash)
               (Audit ''RELAY_UPSTREAM_ERROR'' (gr_endpoint g) s1)
         | Some resp \<Rightarrow>
             fanOutGroups env txReq groups
               (foldl (\<lambda>m it. m(res_OfferId it \<mapsto> it)) m (rs_Items resp),
                if agentHash = [] then rs_AgentIdentityHash resp else agentHash) s1)"

definition FanOut ::
  "relay_env \<Rightarrow> TransactionRequest \<Rightarrow> Group list \<Rightarrow> relay_state \<Rightarrow> TransactionResponse \<times> relay_state" where
  "FanOut env txReq groups s =
     (case fanOutGroups env txReq groups (Map.empty, []) s of
        ((m, agentHash), s') \<Rightarrow>
          let merged = mergeResults env (tr_Items txReq) m agentHash
          in (merged\<lparr>rs_TotalCost :=
                (case BatchTotal (rl_ParseMoney env) (rl_FormatMoney env) (map res_Cost (rs_Items merged)) of
                   Inl _ \<Rightarrow> None | Inr t \<Rightarrow> t)\<rparr>, s'))"

section \<open>The handlers\<close>

fun dupOffer :: "nat \<Rightarrow> TransactionItem list \<Rightarrow> string list \<Rightarrow> broker_error option" where
  "dupOffer i [] seen = None"
| "dupOffer i (item # items) seen =
     (let id = of_OfferId (ti_Offer item)
      in if id \<in> set seen then
           Some (bWithMeta (bWithField (bNewf BKindInvalidArgument) ''items.offer.offer_id'') ''item_index'' (decimal i))
         else dupOffer (Suc i) items (id # seen))"

text \<open>\<open>decoded\<close> is the request the body unmarshals to.\<close>

definition serveBatch ::
  "relay_env \<Rightarrow> TransactionRequest option \<Rightarrow> relay_state \<Rightarrow> (broker_error, TransactionResponse) res \<times> relay_state" where
  "serveBatch env decoded s =
     (case decoded of
        None \<Rightarrow> (Inl (bNewf BKindInvalidArgument), s)
      | Some txReq \<Rightarrow>
          if tr_Items txReq = [] then (Inl (bWithField (bNewf BKindInvalidArgument) ''items''), s)
          else case dupOffer 0 (tr_Items txReq) [] of
            Some e \<Rightarrow> (Inl e, s)
          | None \<Rightarrow>
              (case VerifyAndGuardReplay env [] s of
                 (Some e, s1) \<Rightarrow> (Inl e, s1)
               | (None, s1) \<Rightarrow>
                   (case ResolveGroups env txReq s1 of
                      (Inl e, s2) \<Rightarrow> (Inl e, s2)
                    | (Inr groups, s2) \<Rightarrow>
                        (case FanOut env txReq groups s2 of
                           (merged, s3) \<Rightarrow> (Inr merged, Audit ''VALIDATED'' ''batch'' s3)))))"



section \<open>Laws\<close>

text \<open>An exchange the operator approved for payment, with the address it advertises.\<close>

definition approved_target :: "relay_env \<Rightarrow> Exchange list \<Rightarrow> string \<Rightarrow> string \<Rightarrow> bool" where
  "approved_target env reg domain endpoint \<longleftrightarrow>
     (\<exists>ex adv. ex \<in> set reg \<and> xr_Domain ex = domain \<and> row_Admission ex = AdmissionLive \<and>
        xr_TrustLevel ex \<in> {TrustLevelVerified, TrustLevelPreferred} \<and>
        rl_ResolveEndpoint env domain = Inr adv \<and> endpoint = CanonicalEndpoint adv)"

definition quiet :: "relay_state \<Rightarrow> relay_state \<Rightarrow> bool" where
  "quiet s s' \<longleftrightarrow> rregistry s' = rregistry s \<and> rcalls s' = rcalls s \<and> rreplay s' = rreplay s"

lemma quiet_Audit [simp]: "quiet s (Audit a e s') \<longleftrightarrow> quiet s s'"
  by (simp add: quiet_def Audit_def)

lemma quiet_refl [simp]: "quiet s s"
  by (simp add: quiet_def)

lemma quiet_trans: "quiet s s' \<Longrightarrow> quiet s' s'' \<Longrightarrow> quiet s s''"
  by (simp add: quiet_def)

lemma RefuseAdmission_quiet: "quiet s (snd (RefuseAdmission a e s))"
  by (simp add: RefuseAdmission_def Let_def)

lemma RefuseAdmission_None: "RefuseAdmission a e s = (None, s') \<Longrightarrow> a = EndpointLive \<and> s' = s"
  by (auto simp: RefuseAdmission_def Let_def split: if_splits)

lemma resolveGroupEndpoint_quiet: "quiet s (snd (resolveGroupEndpoint env domain s))"
proof -
  have "quiet s s'" if "RefuseAdmission a e s = (x, s')" for a e x s'
    using RefuseAdmission_quiet [of s a e] that by simp
  then show ?thesis
    by (auto simp: resolveGroupEndpoint_def split: sum.splits prod.splits option.splits)
qed

lemma resolveGroupEndpoint_approved:
  assumes "resolveGroupEndpoint env domain s = (Inr endpoint, s')"
  shows "approved_target env (rregistry s) domain endpoint"
proof -
  obtain ex where ex: "trustedExchange env domain (rregistry s) = Inr ex"
    using assms by (auto simp: resolveGroupEndpoint_def split: sum.splits)
  then have row: "ex \<in> set (rregistry s)" "xr_Domain ex = domain"
    by (auto simp: trustedExchange_def GetByDomain_def split: if_splits sum.splits option.splits
        dest!: find_Some_holds)
  obtain s1 where live: "RefuseAdmission (admissionOf ex) domain s = (None, s1)"
    using assms ex by (auto simp: resolveGroupEndpoint_def split: prod.splits option.splits)
  then have adm: "row_Admission ex = AdmissionLive"
    using RefuseAdmission_None [OF live] by (auto simp: admissionOf_def split: Admission.splits)
  have trust: "refuseUntrustedForExecute ex = None"
    using assms ex live by (auto simp: resolveGroupEndpoint_def split: option.splits)
  have "resolveAdvertisedEndpoint env domain = Inr endpoint"
    using assms ex live trust by (auto simp: resolveGroupEndpoint_def split: sum.splits)
  then show ?thesis using row adm trust
    by (auto simp: approved_target_def resolveAdvertisedEndpoint_def refuseUntrustedForExecute_def
        split: sum.splits if_splits)
qed

lemma resolveAll_quiet: "quiet s (snd (resolveAll env items order s))"
proof (induction order arbitrary: s)
  case (Cons domain order)
  obtain r s1 where r: "resolveGroupEndpoint env domain s = (r, s1)"
    by (cases "resolveGroupEndpoint env domain s")
  then have q: "quiet s s1" using resolveGroupEndpoint_quiet [of s env domain] by simp
  obtain r2 s2 where r2: "resolveAll env items order s1 = (r2, s2)" by (cases "resolveAll env items order s1")
  have "quiet s s2" using quiet_trans [OF q] Cons.IH [of s1] r2 by simp
  then show ?case using r r2 q by (simp split: sum.splits)
qed simp

lemma resolveAll_groups:
  assumes "resolveAll env items order s = (Inr groups, s')"
  shows "map gr_domain groups = order \<and>
    (\<forall>g \<in> set groups. approved_target env (rregistry s) (gr_domain g) (gr_endpoint g) \<and>
       gr_items g = filter (\<lambda>it. of_Exchange (ti_Offer it) = gr_domain g) items)"
  using assms
proof (induction order arbitrary: s groups)
  case (Cons domain order)
  obtain r s1 where r: "resolveGroupEndpoint env domain s = (r, s1)"
    by (cases "resolveGroupEndpoint env domain s")
  obtain endpoint where e: "r = Inr endpoint" using Cons.prems r by (cases r) auto
  obtain r2 s2 where r2: "resolveAll env items order s1 = (r2, s2)" by (cases "resolveAll env items order s1")
  obtain gs where gs: "r2 = Inr gs" using Cons.prems r e r2 by (cases r2) auto
  have groups: "groups = \<lparr>gr_domain = domain, gr_endpoint = endpoint,
      gr_items = filter (\<lambda>it. of_Exchange (ti_Offer it) = domain) items\<rparr> # gs"
    using Cons.prems r e r2 gs by simp
  moreover have "s2 = s'" using Cons.prems r e r2 gs by simp
  moreover have "rregistry s1 = rregistry s"
    using resolveGroupEndpoint_quiet [of s env domain] r by (simp add: quiet_def)
  ultimately show ?case
    using Cons.IH [of s1 gs] r2 gs groups resolveGroupEndpoint_approved [of env domain s endpoint s1] r e by auto
qed simp

lemma groupDomains_set:
  "groupDomains i items order = Inr order' \<Longrightarrow> distinct order \<Longrightarrow>
     distinct order' \<and> set order' = set order \<union> (of_Exchange \<circ> ti_Offer) ` set items"
  by (induction i items order rule: groupDomains.induct) (auto simp: Let_def split: if_splits)

lemma ResolveGroups_quiet: "quiet s (snd (ResolveGroups env txReq s))"
  by (simp add: ResolveGroups_def resolveAll_quiet split: sum.splits)

lemma ResolveGroups_groups:
  assumes "ResolveGroups env txReq s = (Inr groups, s')"
  shows "distinct (map gr_domain groups) \<and>
    gr_domain ` set groups = (of_Exchange \<circ> ti_Offer) ` set (tr_Items txReq) \<and>
    (\<forall>g \<in> set groups. approved_target env (rregistry s) (gr_domain g) (gr_endpoint g) \<and>
       gr_items g = filter (\<lambda>it. of_Exchange (ti_Offer it) = gr_domain g) (tr_Items txReq))"
proof -
  obtain order where o: "groupDomains 0 (tr_Items txReq) [] = Inr order"
    using assms by (auto simp: ResolveGroups_def split: sum.splits)
  have g: "map gr_domain groups = order \<and> (\<forall>g \<in> set groups. approved_target env (rregistry s) (gr_domain g) (gr_endpoint g) \<and>
       gr_items g = filter (\<lambda>it. of_Exchange (ti_Offer it) = gr_domain g) (tr_Items txReq))"
    using resolveAll_groups [of env "tr_Items txReq" order s groups s'] assms o by (simp add: ResolveGroups_def)
  then have "set order = gr_domain ` set groups" by auto
  then show ?thesis using g groupDomains_set [OF o] by simp
qed

lemma fanOutGroups_calls:
  "rcalls (snd (fanOutGroups env txReq groups acc s)) = rcalls s @ map (\<lambda>g. (gr_endpoint g, gr_items g)) groups \<and>
   rregistry (snd (fanOutGroups env txReq groups acc s)) = rregistry s \<and>
   rreplay (snd (fanOutGroups env txReq groups acc s)) = rreplay s"
  by (induction env txReq groups acc s rule: fanOutGroups.induct)
     (auto simp: Let_def Audit_def split: option.splits)

lemma FanOut_calls:
  assumes "FanOut env txReq groups s = (resp, s')"
  shows "rcalls s' = rcalls s @ map (\<lambda>g. (gr_endpoint g, gr_items g)) groups"
    "rregistry s' = rregistry s" "rreplay s' = rreplay s"
  using assms fanOutGroups_calls [of env txReq groups "(Map.empty, [])" s]
  by (auto simp: FanOut_def Let_def split: prod.splits)

lemma VerifyAndGuardReplay_frame:
  "rregistry (snd (VerifyAndGuardReplay env e s)) = rregistry s \<and> rcalls (snd (VerifyAndGuardReplay env e s)) = rcalls s"
  by (auto simp: VerifyAndGuardReplay_def Let_def Audit_def split: option.splits prod.splits)

lemma serveBatch_cases:
  assumes "serveBatch env (Some txReq) s = (r, s')"
  obtains (rejected) e where "r = Inl e" "s' = s" "tr_Items txReq = [] \<or> dupOffer 0 (tr_Items txReq) [] \<noteq> None"
  | (unverified) e s1 where "r = Inl e" "VerifyAndGuardReplay env [] s = (Some e, s1)" "s' = s1"
  | (inadmissible) e s1 s2 where "r = Inl e" "VerifyAndGuardReplay env [] s = (None, s1)"
      "ResolveGroups env txReq s1 = (Inl e, s2)" "s' = s2"
  | (relayed) groups merged s1 s2 s3 where "r = Inr merged" "VerifyAndGuardReplay env [] s = (None, s1)"
      "ResolveGroups env txReq s1 = (Inr groups, s2)" "FanOut env txReq groups s2 = (merged, s3)"
      "s' = Audit ''VALIDATED'' ''batch'' s3" "dupOffer 0 (tr_Items txReq) [] = None" "tr_Items txReq \<noteq> []"
proof (cases "tr_Items txReq = [] \<or> dupOffer 0 (tr_Items txReq) [] \<noteq> None")
  case True
  then show thesis using assms rejected by (auto simp: serveBatch_def split: if_splits)
next
  case False
  obtain v s1 where v: "VerifyAndGuardReplay env [] s = (v, s1)" by (cases "VerifyAndGuardReplay env [] s")
  obtain g s2 where g: "ResolveGroups env txReq s1 = (g, s2)" by (cases "ResolveGroups env txReq s1")
  show thesis
  proof (cases v)
    case (Some e)
    then show thesis using assms False v unverified by (auto simp: serveBatch_def)
  next
    case None
    show thesis
    proof (cases g)
      case (Inl e)
      then show thesis using assms False v None g inadmissible by (auto simp: serveBatch_def)
    next
      case (Inr groups)
      obtain merged s3 where f: "FanOut env txReq groups s2 = (merged, s3)" by (cases "FanOut env txReq groups s2")
      then show thesis using assms False v None g Inr relayed by (auto simp: serveBatch_def)
    qed
  qed
qed

subsection \<open>What each exchange contributes\<close>

definition offer_ids :: "TransactionItem list \<Rightarrow> string set" where
  "offer_ids items = (of_OfferId \<circ> ti_Offer) ` set items"

text \<open>The results the n-th call, to the group's exchange, puts into \<open>resultByOffer\<close>.\<close>

definition ownResults :: "relay_env \<Rightarrow> TransactionRequest \<Rightarrow> nat \<Rightarrow> Group \<Rightarrow> string \<rightharpoonup> TransactionResultItem" where
  "ownResults env txReq n g =
     (case rl_ExecuteTransaction env n (gr_endpoint g) (txReq\<lparr>tr_Items := gr_items g\<rparr>) of
        None \<Rightarrow> (\<lambda>i. if i \<in> offer_ids (gr_items g) then Some (unavailableItem i) else None)
      | Some resp \<Rightarrow> map_of (rev (map (\<lambda>r. (res_OfferId r, r)) (rs_Items resp))))"

lemma collectGroupDenials_eq:
  "collectGroupDenials m items = m ++ (\<lambda>i. if i \<in> offer_ids items then Some (unavailableItem i) else None)"
  unfolding collectGroupDenials_def offer_ids_def
  by (induction items arbitrary: m) (auto simp: map_add_def fun_eq_iff)

lemma foldl_results_eq:
  "foldl (\<lambda>m it. m(res_OfferId it \<mapsto> it)) m rs = m ++ map_of (rev (map (\<lambda>r. (res_OfferId r, r)) rs))"
  by (induction rs arbitrary: m) (auto simp: map_add_def fun_eq_iff split: option.splits)

lemma fanOutGroups_step:
  "fst (fst (fanOutGroups env txReq (g # groups) (m, h) s)) =
     fst (fst (fanOutGroups env txReq groups (m ++ ownResults env txReq (length (rcalls s)) g,
        case rl_ExecuteTransaction env (length (rcalls s)) (gr_endpoint g) (txReq\<lparr>tr_Items := gr_items g\<rparr>) of
          None \<Rightarrow> h | Some resp \<Rightarrow> if h = [] then rs_AgentIdentityHash resp else h)
        (let s1 = s\<lparr>rcalls := rcalls s @ [(gr_endpoint g, gr_items g)]\<rparr>
         in case rl_ExecuteTransaction env (length (rcalls s)) (gr_endpoint g) (txReq\<lparr>tr_Items := gr_items g\<rparr>) of
              None \<Rightarrow> Audit ''RELAY_UPSTREAM_ERROR'' (gr_endpoint g) s1 | Some _ \<Rightarrow> s1)))"
  by (auto simp: Let_def ownResults_def collectGroupDenials_eq foldl_results_eq split: option.splits)

lemma fanOutGroups_map:
  "fst (fst (fanOutGroups env txReq groups (m, h) s)) =
     foldl (++) m (map (\<lambda>(k, g). ownResults env txReq (length (rcalls s) + k) g) (enumerate 0 groups))"
proof (induction groups arbitrary: m h s)
  case (Cons g groups)
  have shift: "map (\<lambda>(k, g). ownResults env txReq (Suc n + k) g) (enumerate 0 groups) =
      map (\<lambda>(k, g). ownResults env txReq (n + k) g) (enumerate (Suc 0) groups)" for n
    by (rule nth_equalityI) (simp_all add: nth_enumerate_eq)
  show ?case
    unfolding fanOutGroups_step Cons.IH
    by (simp add: Let_def Audit_def shift [symmetric] split: option.splits)
qed simp

lemma foldl_map_add_lookup:
  assumes "k < length ms" "\<And>j. j < length ms \<Longrightarrow> j \<noteq> k \<Longrightarrow> (ms ! j) i = None" "m i = None"
  shows "foldl (++) m ms i = (ms ! k) i"
  using assms
proof (induction ms arbitrary: m k)
  case (Cons a ms)
  show ?case
  proof (cases k)
    case 0
    have none: "(ms ! j) i = None" if "j < length ms" for j using Cons.prems(2) [of "Suc j"] that 0 by simp
    have rest: "foldl (++) m' ms i = m' i" for m'
      using none by (induction ms arbitrary: m') (fastforce simp: map_add_def nth_Cons' split: option.splits)+
    have "(m ++ a) i = a i" using Cons.prems(3) by (simp add: map_add_def split: option.splits)
    then show ?thesis using 0 rest by simp
  next
    case (Suc k')
    have "a i = None" using Cons.prems(2) [of 0] Suc by simp
    then show ?thesis using Cons.IH [of k' "m ++ a"] Cons.prems Suc by (force simp: map_add_def)
  qed
qed simp

lemma dupOffer_distinct:
  "dupOffer i items seen = None \<Longrightarrow>
     distinct (map (of_OfferId \<circ> ti_Offer) items) \<and> set seen \<inter> offer_ids items = {}"
  by (induction i items seen rule: dupOffer.induct) (auto simp: Let_def offer_ids_def split: if_splits)

lemma ownResults_id:
  "ownResults env txReq n g i = Some r \<Longrightarrow> res_OfferId r = i"
  by (auto simp: ownResults_def unavailableItem_def split: option.splits if_splits dest!: map_of_SomeD)

section \<open>A small relay to evaluate on\<close>

definition rx_item :: "string \<Rightarrow> string \<Rightarrow> TransactionItem" where
  "rx_item exch i = \<lparr>ti_Offer = \<lparr>of_OfferId = i, of_Signature = ''s'', of_CanonicalUrl = ''u'',
     of_Pricing = \<lparr>pr_Model = [], pr_Rate = [], pr_Currency = [], pr_Unit = [], pr_EstimatedQuantity = None,
       pr_Metering = None, pr_UnitCost = None\<rparr>,
     of_Title = None, of_Expires = 0, of_Exchange = exch, of_Doi = None, of_IptcGuid = None,
     of_ContentHash = None, of_Rest = []\<rparr>, ti_AcceptanceSignature = ''a''\<rparr>"

definition rx_req :: "TransactionItem list \<Rightarrow> TransactionRequest" where
  "rx_req items = \<lparr>tr_Ver = ''1'', tr_IdempotencyKey = ''k'', tr_Requester = \<lparr>rr_Id = ''g'', rr_Domain = ''g''\<rparr>,
     tr_Items = items, tr_AgentRequestAcceptance = None\<rparr>"

definition rx_row :: "string \<Rightarrow> Exchange" where
  "rx_row d = \<lparr>xr_ID = d, xr_Domain = d, xr_Endpoint = d, xr_TrustLevel = ''VERIFIED'', xr_Healthy = True,
     xr_SupportedProfiles = [], xr_Priority = 0\<rparr>"

definition rx_result :: "string \<Rightarrow> string \<Rightarrow> TransactionResultItem" where
  "rx_result i tx = (unavailableItem i)\<lparr>res_TransactionId := tx, res_DenialReason := None\<rparr>"

definition rx_resp :: "TransactionResultItem list \<Rightarrow> TransactionResponse" where
  "rx_resp items = \<lparr>rs_Ver = ''1'', rs_Items = items, rs_AgentIdentityHash = ''h'', rs_TotalCost = None\<rparr>"

definition rx_env :: "(string \<Rightarrow> TransactionResponse option) \<Rightarrow> int \<Rightarrow> relay_env" where
  "rx_env exec now = \<lparr>rl_now = now, rl_verifyAgentSignature = (\<lambda>e. Some (''kid'', ''sig'')), rl_registryDown = False,
     rl_ResolveEndpoint = (\<lambda>d. Inr (d @ ''/'')), rl_ExecuteTransaction = (\<lambda>n endpoint rq. exec endpoint),
     rl_ParseMoney = (\<lambda>x. None), rl_FormatMoney = (\<lambda>r. None), rl_ProtocolVersion = ''1''\<rparr>"

definition rx_state :: relay_state where
  "rx_state = \<lparr>rregistry = [rx_row ''a'', rx_row ''b''], rreplay = NewMemoryStore, raudit = [], rcalls = []\<rparr>"

lemmas rx_defs = rx_item_def rx_req_def rx_row_def rx_env_def rx_state_def

definition rx_two :: TransactionRequest where
  "rx_two = rx_req [rx_item ''b'' ''o1'', rx_item ''a'' ''o2'']"

definition rx_groups :: "Group list" where
  "rx_groups = [\<lparr>gr_domain = ''b'', gr_endpoint = ''b'', gr_items = [rx_item ''b'' ''o1'']\<rparr>,
     \<lparr>gr_domain = ''a'', gr_endpoint = ''a'', gr_items = [rx_item ''a'' ''o2'']\<rparr>]"


lemma rx_ResolveGroups: "rregistry s = rregistry rx_state \<Longrightarrow> ResolveGroups (rx_env exec now) rx_two s = (Inr rx_groups, s)"
  by (simp add: ResolveGroups_def resolveGroupEndpoint_def trustedExchange_def GetByDomain_def RefuseAdmission_def
      admissionOf_def row_Admission_def refuseUntrustedForExecute_def resolveAdvertisedEndpoint_def CanonicalEndpoint_def
      trim_right_def TrustLevelBlocked_def TrustLevelVerified_def rx_defs rx_two_def rx_groups_def)

lemma rx_two_sel [simp]:
  "of_OfferId (ti_Offer (rx_item e i)) = i" "of_Exchange (ti_Offer (rx_item e i)) = e"
  "tr_Items rx_two = [rx_item ''b'' ''o1'', rx_item ''a'' ''o2'']"
  by (simp_all add: rx_item_def rx_two_def rx_req_def)

lemma rx_dup: "dupOffer 0 (tr_Items rx_two) [] = None" "tr_Items rx_two \<noteq> []"
  by (simp_all add: rx_two_def rx_req_def rx_item_def)

section \<open>Statements\<close>

text \<open>C26. Money moves only to approved exchanges, all or nothing: every upstream ExecuteTransaction a
  relayed batch causes goes to the address advertised by an exchange that is registered, healthy
  and approved for payment, and carries exactly the items whose signed offers name that exchange;
  and if the exchange of any item fails that test, no exchange is called at all.\<close>

theorem relay_pays_only_approved:
  assumes "serveBatch env (Some txReq) s = (r, s')"
  shows "\<exists>calls. rcalls s' = rcalls s @ calls \<and>
    (\<forall>(endpoint, items) \<in> set calls. \<exists>domain. approved_target env (rregistry s) domain endpoint \<and>
       items = filter (\<lambda>it. of_Exchange (ti_Offer it) = domain) (tr_Items txReq)) \<and>
    (calls \<noteq> [] \<longrightarrow> (\<forall>it \<in> set (tr_Items txReq). \<exists>endpoint.
       approved_target env (rregistry s) (of_Exchange (ti_Offer it)) endpoint))"
  using assms
proof (cases rule: serveBatch_cases)
  case (unverified e s1)
  then show ?thesis using VerifyAndGuardReplay_frame [of env "[]" s] by simp
next
  case (inadmissible e s1 s2)
  then show ?thesis
    using VerifyAndGuardReplay_frame [of env "[]" s] ResolveGroups_quiet [of s1 env txReq] by (simp add: quiet_def)
next
  case (relayed groups merged s1 s2 s3)
  have s1: "rregistry s1 = rregistry s" "rcalls s1 = rcalls s"
    using VerifyAndGuardReplay_frame [of env "[]" s] relayed(2) by simp_all
  have s2: "rcalls s2 = rcalls s1" using ResolveGroups_quiet [of s1 env txReq] relayed(3) by (simp add: quiet_def)
  note g = ResolveGroups_groups [OF relayed(3), unfolded s1]
  have "\<exists>endpoint. approved_target env (rregistry s) (of_Exchange (ti_Offer it)) endpoint" if "it \<in> set (tr_Items txReq)" for it
  proof -
    have "of_Exchange (ti_Offer it) \<in> gr_domain ` set groups" using g that by auto
    then obtain gp where "gp \<in> set groups" "gr_domain gp = of_Exchange (ti_Offer it)" by force
    then show ?thesis using g by metis
  qed
  moreover have "rcalls s' = rcalls s @ map (\<lambda>g. (gr_endpoint g, gr_items g)) groups"
    using FanOut_calls(1) [OF relayed(4)] relayed(5) s1 s2 by (simp add: Audit_def)
  ultimately show ?thesis using g by fastforce
qed simp

theorem relay_pays_only_approved_witness:
  "\<exists>calls. rcalls (snd (serveBatch (rx_env (\<lambda>e. None) 0) (Some rx_two) rx_state)) = calls \<and>
     (\<forall>(endpoint, items) \<in> set calls. \<exists>domain. approved_target (rx_env (\<lambda>e. None) 0) [rx_row ''a'', rx_row ''b''] domain endpoint)"
proof -
  obtain r s' where run: "serveBatch (rx_env (\<lambda>e. None) 0) (Some rx_two) rx_state = (r, s')"
    by (cases "serveBatch (rx_env (\<lambda>e. None) 0) (Some rx_two) rx_state")
  show ?thesis using relay_pays_only_approved [OF run] run by (fastforce simp: rx_state_def)
qed

definition no_foreign :: "relay_env \<Rightarrow> TransactionRequest \<Rightarrow> Group list \<Rightarrow> bool" where
  "no_foreign env txReq groups \<longleftrightarrow>
     (\<forall>g \<in> set groups. \<forall>n. dom (ownResults env txReq n g) \<subseteq> offer_ids (gr_items g))"

text \<open>C27. A relayed batch is answered item by item: the merged response has one result per requested item,
  in request order and under the item's offer id, and provided no exchange answers for an offer it
  was not sent, each result is the one the item's own exchange returned for it, or the
  content-unavailable denial when that exchange failed or returned none.\<close>

theorem FanOut_own_results:
  assumes "ResolveGroups env txReq s = (Inr groups, s1)" "dupOffer 0 (tr_Items txReq) [] = None"
    "FanOut env txReq groups s1 = (resp, s2)" "no_foreign env txReq groups" "i < length (tr_Items txReq)"
  shows "map res_OfferId (rs_Items resp) = map (of_OfferId \<circ> ti_Offer) (tr_Items txReq) \<and>
    (\<exists>k < length groups. gr_domain (groups ! k) = of_Exchange (ti_Offer (tr_Items txReq ! i)) \<and>
       rs_Items resp ! i =
         (let offerID = of_OfferId (ti_Offer (tr_Items txReq ! i))
          in case ownResults env txReq (length (rcalls s) + k) (groups ! k) offerID of
               Some r \<Rightarrow> r | None \<Rightarrow> unavailableItem offerID))"
proof -
  let ?items = "tr_Items txReq" and ?ms = "map (\<lambda>(k, g). ownResults env txReq (length (rcalls s) + k) g) (enumerate 0 groups)"
  define m where "m = foldl (++) Map.empty ?ms"
  have calls: "rcalls s1 = rcalls s" using ResolveGroups_quiet [of s env txReq] assms(1) by (simp add: quiet_def)
  have items: "rs_Items resp = map (\<lambda>it. let offerID = of_OfferId (ti_Offer it)
      in case m offerID of Some r \<Rightarrow> r | None \<Rightarrow> unavailableItem offerID) ?items"
    using assms(3) fanOutGroups_map [of env txReq groups Map.empty "[]" s1] calls
    by (auto simp: FanOut_def m_def mergeResults_def Let_def split: prod.splits)
  note g = ResolveGroups_groups [OF assms(1)]
  have look: "m (of_OfferId (ti_Offer it)) = ownResults env txReq (length (rcalls s) + k) (groups ! k) (of_OfferId (ti_Offer it))"
    if it: "it \<in> set ?items" and k: "k < length groups" "gr_domain (groups ! k) = of_Exchange (ti_Offer it)" for it k
  proof -
    have "ownResults env txReq (length (rcalls s) + j) (groups ! j) (of_OfferId (ti_Offer it)) = None"
      if j: "j < length groups" "j \<noteq> k" for j
    proof (rule ccontr)
      assume "\<not> ?thesis"
      then have "of_OfferId (ti_Offer it) \<in> offer_ids (gr_items (groups ! j))"
        using assms(4) j(1) unfolding no_foreign_def by (metis domI nth_mem option.exhaust subsetD)
      then obtain it' where it': "it' \<in> set ?items" "of_OfferId (ti_Offer it') = of_OfferId (ti_Offer it)"
        "of_Exchange (ti_Offer it') = gr_domain (groups ! j)"
        using g j(1) by (auto simp: offer_ids_def)
      have "it' = it"
        using dupOffer_distinct [OF assms(2)] it it'(1,2) by (auto simp: distinct_map inj_on_def)
      then have "map gr_domain groups ! j = map gr_domain groups ! k" using it'(3) k j by simp
      then show False using nth_eq_iff_index_eq [of "map gr_domain groups" j k] g k j by simp
    qed
    then have "foldl (++) Map.empty ?ms (of_OfferId (ti_Offer it)) = (?ms ! k) (of_OfferId (ti_Offer it))"
      by (intro foldl_map_add_lookup) (use k in \<open>simp_all add: nth_enumerate_eq\<close>)
    then show ?thesis using k by (simp add: m_def nth_enumerate_eq)
  qed
  have id: "res_OfferId (case m j of Some r \<Rightarrow> r | None \<Rightarrow> unavailableItem j) = j" if ex: "\<exists>it \<in> set ?items. j = of_OfferId (ti_Offer it)" for j
  proof -
    obtain it where it: "it \<in> set ?items" "j = of_OfferId (ti_Offer it)" using ex by blast
    then obtain gp where "gp \<in> set groups" "gr_domain gp = of_Exchange (ti_Offer it)" using g by force
    then obtain k where k: "k < length groups" "gr_domain (groups ! k) = of_Exchange (ti_Offer it)" by (metis in_set_conv_nth)
    show ?thesis using look [OF it(1) k] it(2) ownResults_id
      by (auto simp: unavailableItem_def split: option.splits)
  qed
  have "of_Exchange (ti_Offer (?items ! i)) \<in> gr_domain ` set groups" using g assms(5) by simp
  then obtain k where k: "k < length groups" "gr_domain (groups ! k) = of_Exchange (ti_Offer (?items ! i))"
    by (metis imageE in_set_conv_nth)
  have "map res_OfferId (rs_Items resp) = map (of_OfferId \<circ> ti_Offer) ?items" using id by (auto simp: items Let_def)
  moreover have "rs_Items resp ! i = (let offerID = of_OfferId (ti_Offer (?items ! i))
      in case ownResults env txReq (length (rcalls s) + k) (groups ! k) offerID of Some r \<Rightarrow> r | None \<Rightarrow> unavailableItem offerID)"
    using look [OF _ k] assms(5) by (simp add: items Let_def)
  ultimately show ?thesis using k by blast
qed

theorem FanOut_own_results_witness:
  "rs_Items (fst (FanOut (rx_env (\<lambda>e. if e = ''b'' then Some (rx_resp [rx_result ''o1'' ''t'']) else None) 0) rx_two rx_groups rx_state)) ! 0
     = rx_result ''o1'' ''t''"
proof -
  let ?env = "rx_env (\<lambda>e. if e = ''b'' then Some (rx_resp [rx_result ''o1'' ''t'']) else None) 0"
  obtain resp s2 where f: "FanOut ?env rx_two rx_groups rx_state = (resp, s2)" by (cases "FanOut ?env rx_two rx_groups rx_state")
  have nf: "no_foreign ?env rx_two rx_groups"
    by (auto simp: no_foreign_def ownResults_def rx_groups_def rx_env_def rx_resp_def rx_result_def unavailableItem_def
        offer_ids_def rx_item_def split: if_splits)
  have "\<exists>k < length rx_groups. gr_domain (rx_groups ! k) = ''b'' \<and> rs_Items resp ! 0 =
      (case ownResults ?env rx_two (0 + k) (rx_groups ! k) ''o1'' of Some r \<Rightarrow> r | None \<Rightarrow> unavailableItem ''o1'')"
    using FanOut_own_results [OF rx_ResolveGroups [OF refl] rx_dup(1) f nf, of 0]
    by (simp add: rx_state_def Let_def)
  then show ?thesis using f
    by (auto simp: rx_groups_def ownResults_def rx_env_def rx_resp_def rx_result_def unavailableItem_def less_Suc_eq)
qed










text \<open>The merge trusts every exchange with every offer: an exchange that returns a result under an
  offer id it was never sent replaces the result of the exchange that offer belongs to. Here
  exchange \<open>b\<close> delivers its item and \<open>a\<close>, asked only for its own, answers for both.\<close>

theorem FanOut_foreign_result:
  "map res_TransactionId (rs_Items (fst (FanOut
     (rx_env (\<lambda>e. if e = ''b'' then Some (rx_resp [rx_result ''o1'' ''genuine''])
                  else Some (rx_resp [rx_result ''o2'' ''t2'', rx_result ''o1'' ''forged''])) 0)
     rx_two rx_groups rx_state))) = [''forged'', ''t2'']"
  by code_simp

end
