(* ===== verification/Broker_Selection.thy ===== *)
theory Broker_Selection
  imports Broker_Registry Batch_Execute
begin

text \<open>
  Offer selection in the Broker: \<open>selection/selection.go\<close> (identity, charge, dedup, ranking) and the
  per-URL group with its winner (\<open>resolve/types.go\<close>, \<open>resolve/money.go\<close>, \<open>costFixed\<close> of
  \<open>resolve/resolve.go\<close>). Decimals are rationals. The iteration order of a Go map is the parameter
  \<open>shuffle\<close>; a nil price reads as the zero message.
\<close>

record ExchangeRef =
  er_Domain :: string
  er_Endpoint :: string
  er_Trust :: string
  er_Priority :: int

record Candidate =
  cd_Offer :: Offer
  cd_Exchange :: ExchangeRef

text \<open>What selection takes from outside: the SDK's money parser, the order a Go map is ranged over,
  and \<open>big.Int.Int64\<close> beyond its range.\<close>

record select_env =
  se_ParseMoney :: "string \<Rightarrow> rat option"
  se_shuffle :: "Candidate list \<Rightarrow> Candidate list"
  se_Int64 :: "int \<Rightarrow> int"

text \<open>\<open>strings.ToUpper\<close> on ASCII text, which the enum labels of the registry column are.\<close>

definition ToUpper :: "string \<Rightarrow> string" where
  "ToUpper s = map (\<lambda>c. if 97 \<le> (of_char c :: nat) \<and> of_char c \<le> (122 :: nat) then char_of (of_char c - 32 :: nat) else c) s"

definition trustWeight :: "string \<Rightarrow> int" where
  "trustWeight level =
     (if ToUpper level = TrustLevelPreferred then 3
      else if ToUpper level = TrustLevelVerified then 2
      else if ToUpper level = TrustLevelDiscovered then 1
      else if ToUpper level = TrustLevelBlocked then - 1
      else 0)"

definition parseMoneyOrZero :: "select_env \<Rightarrow> string \<Rightarrow> rat" where
  "parseMoneyOrZero env s = (case se_ParseMoney env s of None \<Rightarrow> 0 | Some d \<Rightarrow> d)"

definition OfferCharge :: "select_env \<Rightarrow> Offer \<Rightarrow> rat" where
  "OfferCharge env off =
     (case pr_UnitCost (of_Pricing off) of
        Some uc \<Rightarrow> parseMoneyOrZero env uc
      | None \<Rightarrow> parseMoneyOrZero env (pr_Rate (of_Pricing off)))"

definition identityKey :: "Offer \<Rightarrow> string" where
  "identityKey off =
     (if of_CanonicalUrl off \<noteq> [] then ''url:'' @ of_CanonicalUrl off
      else if textOrEmpty (of_Doi off) \<noteq> [] then ''doi:'' @ textOrEmpty (of_Doi off)
      else if textOrEmpty (of_IptcGuid off) \<noteq> [] then ''iptc:'' @ textOrEmpty (of_IptcGuid off)
      else if textOrEmpty (of_ContentHash off) \<noteq> [] then ''hash:'' @ textOrEmpty (of_ContentHash off)
      else ''offer:'' @ of_OfferId off)"

text \<open>The map \<open>best\<close>, as an association list in insertion order.\<close>

fun dedupBest :: "select_env \<Rightarrow> Candidate list \<Rightarrow> (string \<times> Candidate) list \<Rightarrow> (string \<times> Candidate) list" where
  "dedupBest env [] best = best"
| "dedupBest env (c # cands) best =
     (let key = identityKey (cd_Offer c)
      in case map_of best key of
           None \<Rightarrow> dedupBest env cands (AList.update key c best)
         | Some existing \<Rightarrow>
             if OfferCharge env (cd_Offer c) < OfferCharge env (cd_Offer existing)
             then dedupBest env cands (AList.update key c best)
             else dedupBest env cands best)"

definition Dedup :: "select_env \<Rightarrow> Candidate list \<Rightarrow> Candidate list" where
  "Dedup env cands = se_shuffle env (map snd (dedupBest env cands []))"

text \<open>The comparator of \<open>sort.SliceStable\<close>, and the stable sort as insertion from the right.\<close>

definition rank_less :: "select_env \<Rightarrow> Candidate \<Rightarrow> Candidate \<Rightarrow> bool" where
  "rank_less env a b =
     (let ti = trustWeight (er_Trust (cd_Exchange a)); tj = trustWeight (er_Trust (cd_Exchange b));
          ci = OfferCharge env (cd_Offer a); cj = OfferCharge env (cd_Offer b);
          pi = er_Priority (cd_Exchange a); pj = er_Priority (cd_Exchange b)
      in if ti \<noteq> tj then ti > tj
         else if ci \<noteq> cj then ci < cj
         else if pi \<noteq> pj then pi > pj
         else of_OfferId (cd_Offer a) < of_OfferId (cd_Offer b))"

fun rank_insert :: "select_env \<Rightarrow> Candidate \<Rightarrow> Candidate list \<Rightarrow> Candidate list" where
  "rank_insert env x [] = [x]"
| "rank_insert env x (y # ys) = (if rank_less env y x then y # rank_insert env x ys else x # y # ys)"

definition Rank :: "select_env \<Rightarrow> Candidate list \<Rightarrow> Candidate list" where
  "Rank env cands = foldr (rank_insert env) cands []"

datatype OfferAbsenceReason =
  OFFER_ABSENCE_REASON_UNSPECIFIED | OFFER_ABSENCE_REASON_NOT_IN_CATALOG
| OFFER_ABSENCE_REASON_NOT_AUTHORIZED | OFFER_ABSENCE_REASON_SCOPE_INSUFFICIENT
| OFFER_ABSENCE_REASON_TEMPORARILY_UNAVAILABLE | OFFER_ABSENCE_REASON_OTHER nat

datatype DiscoveryMethod =
  DISCOVERY_METHOD_UNSPECIFIED | DISCOVERY_METHOD_EXCHANGE | DISCOVERY_METHOD_SEARCH
| DISCOVERY_METHOD_OTHER nat

record OfferGroup =
  og_URI :: string
  og_Offers :: "Candidate list"
  og_AbsenceReason :: OfferAbsenceReason
  og_DiscoveryMethod :: DiscoveryMethod
  og_cands :: "Candidate list"

definition finalize :: "select_env \<Rightarrow> OfferGroup \<Rightarrow> OfferGroup" where
  "finalize env g =
     (if og_cands g = [] then g
      else g\<lparr>og_Offers := Rank env (Dedup env (og_cands g)),
             og_AbsenceReason := OFFER_ABSENCE_REASON_UNSPECIFIED, og_cands := []\<rparr>)"

definition Winner :: "select_env \<Rightarrow> OfferGroup list \<Rightarrow> Candidate option" where
  "Winner env groups =
     (let heads = map (\<lambda>g. hd (og_Offers g)) (filter (\<lambda>g. og_Offers g \<noteq> []) groups)
      in if heads = [] then None else Some (hd (Rank env heads)))"

definition fixedPointScale :: nat where "fixedPointScale = 8"

text \<open>\<open>decimal.IntPart\<close> truncates toward zero and reads the result as an \<open>int64\<close>.\<close>

definition trunc :: "rat \<Rightarrow> int" where
  "trunc x = (if x < 0 then - \<lfloor>- x\<rfloor> else \<lfloor>x\<rfloor>)"

definition DecimalToFixedPoint :: "select_env \<Rightarrow> rat \<Rightarrow> int" where
  "DecimalToFixedPoint env d =
     (let v = trunc (d * 10 ^ fixedPointScale) in if int64 v then v else se_Int64 env v)"

definition costFixed :: "select_env \<Rightarrow> Offer \<Rightarrow> int" where
  "costFixed env offer =
     (let q = (case pr_EstimatedQuantity (of_Pricing offer) of None \<Rightarrow> 0 | Some n \<Rightarrow> n);
          qty = (if q < 1 then 1 else q)
      in DecimalToFixedPoint env (OfferCharge env offer * of_int qty))"

definition flattenGroups :: "OfferGroup list \<Rightarrow> Candidate list" where
  "flattenGroups groups = concat (map og_Offers groups)"

section \<open>Ranking is a sort\<close>

definition rank_key :: "select_env \<Rightarrow> Candidate \<Rightarrow> int \<times> rat \<times> int \<times> string" where
  "rank_key env c = (- trustWeight (er_Trust (cd_Exchange c)), OfferCharge env (cd_Offer c),
     - er_Priority (cd_Exchange c), of_OfferId (cd_Offer c))"

lemma rank_less_key: "rank_less env a b \<longleftrightarrow> rank_key env a < rank_key env b"
  by (auto simp: rank_less_def rank_key_def Let_def)

lemma rank_insert_insort: "rank_insert env x ys = insort_key (rank_key env) x ys"
  by (induction ys) (auto simp: rank_less_key not_le)

lemma Rank_sort_key: "Rank env cs = sort_key (rank_key env) cs"
  by (simp add: Rank_def sort_key_def rank_insert_insort [abs_def])

lemma set_Rank [simp]: "set (Rank env cs) = set cs"
  by (simp add: Rank_sort_key)

lemma mset_Rank [simp]: "mset (Rank env cs) = mset cs"
  by (simp add: Rank_sort_key)

lemma Rank_Nil_iff [simp]: "Rank env cs = [] \<longleftrightarrow> cs = []"
  by (metis mset_Rank mset_zero_iff)

lemma sorted_Rank: "sorted (map (rank_key env) (Rank env cs))"
  by (simp add: Rank_sort_key)

lemma hd_Rank_least:
  assumes "c \<in> set cs"
  shows "rank_key env (hd (Rank env cs)) \<le> rank_key env c" "hd (Rank env cs) \<in> set cs"
proof -
  obtain x xs where x: "Rank env cs = x # xs" using assms by (cases "Rank env cs") auto
  then have "sorted (map (rank_key env) (x # xs))" using sorted_Rank [of env cs] by simp
  moreover have "c \<in> set (x # xs)" using x assms set_Rank by metis
  ultimately show "rank_key env (hd (Rank env cs)) \<le> rank_key env c" using x by auto
  show "hd (Rank env cs) \<in> set cs" using x set_Rank by (metis list.sel(1) list.set_intros(1))
qed

section \<open>One cheapest offer per identity\<close>

abbreviation ckey :: "Candidate \<Rightarrow> string" where
  "ckey c \<equiv> identityKey (cd_Offer c)"

definition best_ok :: "select_env \<Rightarrow> Candidate list \<Rightarrow> (string \<times> Candidate) list \<Rightarrow> bool" where
  "best_ok env seen best \<longleftrightarrow> distinct (map fst best) \<and> fst ` set best = ckey ` set seen \<and>
     (\<forall>(k, c) \<in> set best. c \<in> set seen \<and> k = ckey c \<and>
        (\<forall>d \<in> set seen. ckey d = k \<longrightarrow> OfferCharge env (cd_Offer c) \<le> OfferCharge env (cd_Offer d)))"

lemma set_AList_update:
  assumes "distinct (map fst m)"
  shows "set (AList.update k v m) = insert (k, v) {(a, b). (a, b) \<in> set m \<and> a \<noteq> k}"
proof -
  have "(a, b) \<in> set (AList.update k v m) \<longleftrightarrow> map_of (AList.update k v m) a = Some b" for a b
    by (rule map_of_eq_Some_iff [symmetric]) (rule distinct_AList_update [OF assms])
  moreover have "(a, b) \<in> set m \<longleftrightarrow> map_of m a = Some b" for a b
    using assms by (simp add: map_of_eq_Some_iff)
  ultimately show ?thesis by (auto split: if_splits)
qed

lemma best_ok_replace:
  assumes "best_ok env seen best"
    and "\<And>e. map_of best (ckey c) = Some e \<Longrightarrow> OfferCharge env (cd_Offer c) \<le> OfferCharge env (cd_Offer e)"
  shows "best_ok env (seen @ [c]) (AList.update (ckey c) c best)"
proof -
  have d: "distinct (map fst best)" and keys: "fst ` set best = ckey ` set seen"
    and ok: "\<And>k e. (k, e) \<in> set best \<Longrightarrow> e \<in> set seen \<and> k = ckey e \<and>
        (\<forall>x \<in> set seen. ckey x = k \<longrightarrow> OfferCharge env (cd_Offer e) \<le> OfferCharge env (cd_Offer x))"
    using assms(1) by (auto simp: best_ok_def)
  have le: "OfferCharge env (cd_Offer c) \<le> OfferCharge env (cd_Offer x)"
    if "x \<in> set seen" "ckey x = ckey c" for x
  proof -
    have "ckey c \<in> fst ` set best" unfolding keys using that by (metis imageI)
    then obtain e where e: "(ckey c, e) \<in> set best" by force
    then have "map_of best (ckey c) = Some e" using d by simp
    then show ?thesis using assms(2) ok [OF e] that by force
  qed
  have mem: "e \<in> set (seen @ [c]) \<and> k = ckey e \<and>
      (\<forall>x \<in> set (seen @ [c]). ckey x = k \<longrightarrow> OfferCharge env (cd_Offer e) \<le> OfferCharge env (cd_Offer x))"
    if m: "(k, e) \<in> set (AList.update (ckey c) c best)" for k e
  proof (cases "k = ckey c")
    case True
    then have "e = c" using m by (simp add: set_AList_update [OF d])
    then show ?thesis using True le by auto
  next
    case False
    then have "(k, e) \<in> set best" using m by (simp add: set_AList_update [OF d])
    then show ?thesis using ok [of k e] False by auto
  qed
  have "fst ` set (AList.update (ckey c) c best) = insert (ckey c) (fst ` set best)"
    by (simp add: dom_update)
  then have "fst ` set (AList.update (ckey c) c best) = ckey ` set (seen @ [c])"
    using keys by simp
  then show ?thesis
    unfolding best_ok_def using d mem by (simp del: set_append) blast
qed

lemma best_ok_keep:
  assumes "best_ok env seen best" "map_of best (ckey c) = Some e"
    and "OfferCharge env (cd_Offer e) \<le> OfferCharge env (cd_Offer c)"
  shows "best_ok env (seen @ [c]) best"
proof -
  have d: "distinct (map fst best)" using assms(1) by (simp add: best_ok_def)
  have e: "(ckey c, e) \<in> set best" using assms(2) by (rule map_of_SomeD)
  have only: "x = e" if "(ckey c, x) \<in> set best" for x
    using that assms(2) d by (metis map_of_is_SomeI option.inject)
  have "ckey c \<in> fst ` set best" using e by force
  then show ?thesis
    using assms(1,3) only unfolding best_ok_def by auto
qed

lemma best_ok_dedupBest:
  "best_ok env seen best \<Longrightarrow> best_ok env (seen @ cs) (dedupBest env cs best)"
proof (induction cs arbitrary: seen best)
  case (Cons c cs)
  show ?case
  proof (cases "map_of best (ckey c)")
    case None
    then show ?thesis using Cons.IH [OF best_ok_replace [OF Cons.prems, of c]] by simp
  next
    case (Some e)
    show ?thesis
    proof (cases "OfferCharge env (cd_Offer c) < OfferCharge env (cd_Offer e)")
      case True
      then show ?thesis using Some Cons.IH [OF best_ok_replace [OF Cons.prems, of c]] by simp
    next
      case False
      then show ?thesis using Some Cons.IH [OF best_ok_keep [OF Cons.prems Some]] by simp
    qed
  qed
qed simp

definition shuffles :: "(Candidate list \<Rightarrow> Candidate list) \<Rightarrow> bool" where
  "shuffles f \<longleftrightarrow> (\<forall>xs. mset (f xs) = mset xs)"

lemma Dedup_facts:
  assumes "shuffles (se_shuffle env)"
  shows "set (Dedup env cs) \<subseteq> set cs" "distinct (map ckey (Dedup env cs))"
    "ckey ` set (Dedup env cs) = ckey ` set cs"
    "\<And>c d. c \<in> set (Dedup env cs) \<Longrightarrow> d \<in> set cs \<Longrightarrow> ckey d = ckey c \<Longrightarrow>
       OfferCharge env (cd_Offer c) \<le> OfferCharge env (cd_Offer d)"
proof -
  let ?B = "dedupBest env cs []"
  have ok: "best_ok env cs ?B" using best_ok_dedupBest [of env "[]" "[]" cs] by (simp add: best_ok_def)
  have ms: "mset (Dedup env cs) = mset (map snd ?B)"
    using assms by (simp add: Dedup_def shuffles_def)
  have st: "set (Dedup env cs) = snd ` set ?B" using mset_eq_setD [OF ms] by simp
  have keys: "map ckey (map snd ?B) = map fst ?B"
    using ok by (auto simp: best_ok_def)
  show "set (Dedup env cs) \<subseteq> set cs" using st ok by (auto simp: best_ok_def)
  have "mset (map ckey (Dedup env cs)) = mset (map fst ?B)"
    using arg_cong [OF ms, of "image_mset ckey"] keys by (metis mset_map)
  then show "distinct (map ckey (Dedup env cs))"
    using ok mset_eq_imp_distinct_iff [of "map ckey (Dedup env cs)" "map fst ?B"]
    by (simp only: best_ok_def)
  have "ckey ` snd ` set ?B = fst ` set ?B" using keys by (metis (no_types, lifting) list.set_map)
  then show "ckey ` set (Dedup env cs) = ckey ` set cs" using st ok by (simp add: best_ok_def)
  show "\<And>c d. c \<in> set (Dedup env cs) \<Longrightarrow> d \<in> set cs \<Longrightarrow> ckey d = ckey c \<Longrightarrow>
       OfferCharge env (cd_Offer c) \<le> OfferCharge env (cd_Offer d)"
    using st ok by (fastforce simp: best_ok_def)
qed

lemma Dedup_Nil_iff: "shuffles (se_shuffle env) \<Longrightarrow> Dedup env cs = [] \<longleftrightarrow> cs = []"
  using Dedup_facts(3) [of env cs] by (metis image_is_empty set_empty)

section \<open>Winner\<close>

definition ranked_groups :: "select_env \<Rightarrow> OfferGroup list \<Rightarrow> bool" where
  "ranked_groups env groups \<longleftrightarrow> (\<forall>g \<in> set groups. sorted (map (rank_key env) (og_Offers g)))"

lemma Winner_None_iff: "Winner env groups = None \<longleftrightarrow> flattenGroups groups = []"
  by (auto simp: Winner_def flattenGroups_def Let_def filter_empty_conv)

lemma Winner_least:
  assumes "ranked_groups env groups" "Winner env groups = Some w"
  shows "w \<in> set (flattenGroups groups)"
    "c \<in> set (flattenGroups groups) \<Longrightarrow> rank_key env w \<le> rank_key env c"
proof -
  let ?heads = "map (\<lambda>g. hd (og_Offers g)) (filter (\<lambda>g. og_Offers g \<noteq> []) groups)"
  have w: "w = hd (Rank env ?heads)" "?heads \<noteq> []"
    using assms(2) by (auto simp: Winner_def Let_def split: if_splits)
  have "w \<in> set ?heads"
    using hd_Rank_least(2) [of "hd ?heads" ?heads env] w by (metis hd_in_set)
  then show "w \<in> set (flattenGroups groups)" using hd_in_set by (fastforce simp: flattenGroups_def)
  assume "c \<in> set (flattenGroups groups)"
  then obtain g where g: "g \<in> set groups" "c \<in> set (og_Offers g)" by (auto simp: flattenGroups_def)
  then obtain x xs where x: "og_Offers g = x # xs" by (cases "og_Offers g") auto
  then have "rank_key env x \<le> rank_key env c"
    using assms(1) g by (auto simp: ranked_groups_def)
  moreover have "x \<in> set ?heads" using g(1) x by force
  then have "rank_key env w \<le> rank_key env x" using hd_Rank_least(1) w(1) by blast
  ultimately show "rank_key env w \<le> rank_key env c" by simp
qed

lemma finalize_ranked: "sorted (map (rank_key env) (og_Offers g)) \<Longrightarrow>
    sorted (map (rank_key env) (og_Offers (finalize env g)))"
  by (simp add: finalize_def sorted_Rank)

section \<open>Statements\<close>

text \<open>C31. What a group offers: whatever order the map is ranged over, the finalized group of a non-empty
  candidate list holds exactly one candidate per content identity, that one is a cheapest of its
  identity, none is invented, and the list is in ranking order: trust first, then charge, then
  operator priority, then offer id.\<close>

theorem finalize_offers:
  assumes "shuffles (se_shuffle env)" "og_cands g \<noteq> []"
  shows "og_Offers (finalize env g) \<noteq> [] \<and> og_AbsenceReason (finalize env g) = OFFER_ABSENCE_REASON_UNSPECIFIED \<and>
    set (og_Offers (finalize env g)) \<subseteq> set (og_cands g) \<and>
    distinct (map ckey (og_Offers (finalize env g))) \<and>
    ckey ` set (og_Offers (finalize env g)) = ckey ` set (og_cands g) \<and>
    (\<forall>c \<in> set (og_Offers (finalize env g)). \<forall>d \<in> set (og_cands g).
       ckey d = ckey c \<longrightarrow> OfferCharge env (cd_Offer c) \<le> OfferCharge env (cd_Offer d)) \<and>
    sorted (map (rank_key env) (og_Offers (finalize env g)))"
proof -
  let ?D = "Dedup env (og_cands g)"
  have "mset (map ckey (Rank env ?D)) = mset (map ckey ?D)" by simp
  then have "distinct (map ckey (Rank env ?D))"
    using Dedup_facts(2) [OF assms(1)] mset_eq_imp_distinct_iff by blast
  then show ?thesis
    using assms Dedup_facts [OF assms(1), where cs = "og_cands g"] Dedup_Nil_iff [OF assms(1), of "og_cands g"]
      sorted_Rank [of env ?D]
    by (simp add: finalize_def)
qed

text \<open>Ranking is deterministic: candidates with distinct offer ids are returned in one and the same
  order whatever order Go ranges over the deduplication map.\<close>

theorem finalize_deterministic:
  assumes "shuffles sh1" "shuffles sh2" "inj_on (\<lambda>c. of_OfferId (cd_Offer c)) (set (og_cands g))"
  shows "finalize (env\<lparr>se_shuffle := sh1\<rparr>) g = finalize (env\<lparr>se_shuffle := sh2\<rparr>) g"
proof -
  let ?e1 = "env\<lparr>se_shuffle := sh1\<rparr>" and ?e2 = "env\<lparr>se_shuffle := sh2\<rparr>"
  have charge: "OfferCharge (env\<lparr>se_shuffle := s\<rparr>) = OfferCharge env" for s
  proof -
    have "parseMoneyOrZero (env\<lparr>se_shuffle := s\<rparr>) = parseMoneyOrZero env"
      by (rule ext) (simp add: parseMoneyOrZero_def)
    then show ?thesis unfolding OfferCharge_def [abs_def] by (simp only:)
  qed
  have key: "rank_key (env\<lparr>se_shuffle := s\<rparr>) = rank_key env" for s
    by (rule ext) (simp add: rank_key_def charge)
  have best: "dedupBest (env\<lparr>se_shuffle := s\<rparr>) cs b = dedupBest env cs b" for s cs b
    by (induction cs arbitrary: b) (auto simp: charge Let_def split: option.splits)
  have ms: "mset (Dedup ?e1 (og_cands g)) = mset (Dedup ?e2 (og_cands g))"
    using assms(1,2) by (simp add: Dedup_def shuffles_def best)
  have "set (Dedup ?e1 (og_cands g)) \<subseteq> set (og_cands g)"
    by (rule Dedup_facts(1)) (simp add: assms(1))
  then have "inj_on (rank_key env) (set (Dedup ?e1 (og_cands g)))"
    using assms(3) by (auto simp: inj_on_def rank_key_def subset_iff)
  then have "sort_key (rank_key env) (Dedup ?e1 (og_cands g)) = sort_key (rank_key env) (Dedup ?e2 (og_cands g))"
    using ms by (intro sort_key_inj_key_eq) auto
  then show ?thesis by (simp add: finalize_def Rank_sort_key key)
qed

section \<open>A concrete instance\<close>

definition sx_offer :: "string \<Rightarrow> string \<Rightarrow> string \<Rightarrow> Offer" where
  "sx_offer oid url cost = \<lparr>of_OfferId = oid, of_Signature = [], of_CanonicalUrl = url,
     of_Pricing = \<lparr>pr_Model = [], pr_Rate = [], pr_Currency = ''USD'', pr_Unit = [],
       pr_EstimatedQuantity = None, pr_Metering = None, pr_UnitCost = Some cost\<rparr>,
     of_Title = None, of_Expires = 0, of_Exchange = [], of_Doi = None, of_IptcGuid = None,
     of_ContentHash = None, of_Rest = []\<rparr>"

definition sx_cand :: "string \<Rightarrow> string \<Rightarrow> string \<Rightarrow> string \<Rightarrow> Candidate" where
  "sx_cand oid url cost trust = \<lparr>cd_Offer = sx_offer oid url cost,
     cd_Exchange = \<lparr>er_Domain = ''x'', er_Endpoint = ''e'', er_Trust = trust, er_Priority = 0\<rparr>\<rparr>"

definition sx_env :: select_env where
  "sx_env = \<lparr>se_ParseMoney = (\<lambda>s. if s = ''1'' then Some 1 else if s = ''2'' then Some 2 else None),
     se_shuffle = rev, se_Int64 = (\<lambda>i. 0)\<rparr>"

definition sx_group :: OfferGroup where
  "sx_group = \<lparr>og_URI = ''u'', og_Offers = [], og_AbsenceReason = OFFER_ABSENCE_REASON_UNSPECIFIED,
     og_DiscoveryMethod = DISCOVERY_METHOD_UNSPECIFIED,
     og_cands = [sx_cand ''o1'' ''p'' ''2'' TrustLevelVerified, sx_cand ''o2'' ''p'' ''1'' TrustLevelVerified,
                 sx_cand ''o3'' ''q'' ''2'' TrustLevelPreferred]\<rparr>"

lemma sx_shuffles: "shuffles (se_shuffle sx_env)" "shuffles (\<lambda>xs. xs)"
  by (simp_all add: shuffles_def sx_env_def)

lemma sx_final: "og_Offers (finalize sx_env sx_group) =
    [sx_cand ''o3'' ''q'' ''2'' TrustLevelPreferred, sx_cand ''o2'' ''p'' ''1'' TrustLevelVerified]"
  by code_simp

theorem finalize_offers_witness:
  "shuffles (se_shuffle sx_env) \<and> og_cands sx_group \<noteq> [] \<and>
   map ckey (og_Offers (finalize sx_env sx_group)) = [''url:q'', ''url:p''] \<and>
   distinct (map ckey (og_Offers (finalize sx_env sx_group)))"
proof -
  have "og_cands sx_group \<noteq> []" by (simp add: sx_group_def)
  with finalize_offers [OF sx_shuffles(1) this] sx_shuffles(1) show ?thesis
    by (simp add: sx_final) (simp add: sx_cand_def sx_offer_def identityKey_def)
qed

theorem finalize_deterministic_witness:
  "finalize (sx_env\<lparr>se_shuffle := rev\<rparr>) sx_group = finalize (sx_env\<lparr>se_shuffle := (\<lambda>xs. xs)\<rparr>) sx_group"
proof -
  have "inj_on (\<lambda>c. of_OfferId (cd_Offer c)) (set (og_cands sx_group))"
    by (simp add: sx_group_def sx_cand_def sx_offer_def)
  moreover have "shuffles rev" by (simp add: shuffles_def)
  ultimately show ?thesis using finalize_deterministic sx_shuffles(2) by blast
qed

end
