(* ===== verification/Broker_Budget.thy ===== *)
theory Broker_Budget
  imports Broker_Selection
begin

text \<open>
  The Broker's per-agent spending guard: the period counters of \<open>budget/budget.go\<close>, in memory and on
  Redis, and the check that reads them (\<open>checkBudget\<close> of \<open>resolve/resolve.go\<close>). The clock enters as the
  period text of the current month; the Redis client is the record \<open>redisapi\<close>.
\<close>

record Decision =
  dc_Allowed :: bool
  dc_Remaining :: int
  dc_Limit :: int
  dc_Consumed :: int

text \<open>The interface \<open>budget.Service\<close>; \<open>True\<close> in the result of \<open>Record\<close> is its error.\<close>

record 'b budgetService =
  bd_Check :: "'b \<Rightarrow> string \<Rightarrow> int \<Rightarrow> (unit, Decision) res"
  bd_Record :: "'b \<Rightarrow> string \<Rightarrow> int \<Rightarrow> 'b \<times> bool"

definition budgetKey :: "string \<Rightarrow> string \<Rightarrow> string" where
  "budgetKey period agentID = ''budget:'' @ agentID @ '':'' @ period"

definition decide :: "int \<Rightarrow> int \<Rightarrow> Decision" where
  "decide limitMinor consumed =
     (let remaining = wrap64 (limitMinor - consumed)
      in \<lparr>dc_Allowed = (remaining \<ge> 0), dc_Remaining = remaining, dc_Limit = limitMinor, dc_Consumed = consumed\<rparr>)"

section \<open>In memory\<close>

record MemoryService =
  mb_counts :: "string \<rightharpoonup> int"

definition NewMemory :: MemoryService where "NewMemory = \<lparr>mb_counts = Map.empty\<rparr>"

definition memCount :: "MemoryService \<Rightarrow> string \<Rightarrow> int" where
  "memCount s key = (case mb_counts s key of None \<Rightarrow> 0 | Some n \<Rightarrow> n)"

definition mem_Check :: "string \<Rightarrow> MemoryService \<Rightarrow> string \<Rightarrow> int \<Rightarrow> (unit, Decision) res" where
  "mem_Check period s agentID limitMinor = Inr (decide limitMinor (memCount s (budgetKey period agentID)))"

definition mem_Record :: "string \<Rightarrow> MemoryService \<Rightarrow> string \<Rightarrow> int \<Rightarrow> MemoryService \<times> bool" where
  "mem_Record period s agentID costMinor =
     (if costMinor \<le> 0 then (s, False)
      else let key = budgetKey period agentID
           in (s\<lparr>mb_counts := (mb_counts s)(key \<mapsto> wrap64 (memCount s key + costMinor))\<rparr>, False))"

definition memoryService :: "string \<Rightarrow> MemoryService budgetService" where
  "memoryService period = \<lparr>bd_Check = mem_Check period, bd_Record = mem_Record period\<rparr>"

section \<open>On Redis\<close>

text \<open>\<open>rd_Get\<close> is \<open>GET\<close> read as an integer, \<open>None\<close> for \<open>redis.Nil\<close>; \<open>rd_IncrExpire\<close> is the transaction of
  \<open>INCRBY\<close> and \<open>EXPIRE\<close> with its error flag.\<close>

record 'r redisapi =
  rd_Get :: "'r \<Rightarrow> string \<Rightarrow> (unit, int option) res"
  rd_IncrExpire :: "'r \<Rightarrow> string \<Rightarrow> int \<Rightarrow> int \<Rightarrow> 'r \<times> bool"

definition redisTTL :: "int \<Rightarrow> int" where
  "redisTTL ttl = (if ttl \<le> 0 then 35 * 24 * 3600 * 1000000000 else ttl)"

definition readConsumed :: "'r redisapi \<Rightarrow> 'r \<Rightarrow> string \<Rightarrow> (unit, int) res" where
  "readConsumed api r key =
     (case rd_Get api r key of
        Inl e \<Rightarrow> Inl e
      | Inr None \<Rightarrow> Inr 0
      | Inr (Some v) \<Rightarrow> Inr v)"

definition redis_Check :: "'r redisapi \<Rightarrow> string \<Rightarrow> 'r \<Rightarrow> string \<Rightarrow> int \<Rightarrow> (unit, Decision) res" where
  "redis_Check api period r agentID limitMinor =
     (case readConsumed api r (budgetKey period agentID) of
        Inl e \<Rightarrow> Inl e
      | Inr consumed \<Rightarrow> Inr (decide limitMinor consumed))"

definition redis_Record :: "'r redisapi \<Rightarrow> int \<Rightarrow> string \<Rightarrow> 'r \<Rightarrow> string \<Rightarrow> int \<Rightarrow> 'r \<times> bool" where
  "redis_Record api ttl period r agentID costMinor =
     (if costMinor \<le> 0 then (r, False)
      else rd_IncrExpire api r (budgetKey period agentID) costMinor (redisTTL ttl))"

definition redisService :: "'r redisapi \<Rightarrow> int \<Rightarrow> string \<Rightarrow> 'r budgetService" where
  "redisService api ttl period = \<lparr>bd_Check = redis_Check api period, bd_Record = redis_Record api ttl period\<rparr>"

section \<open>The check\<close>

text \<open>\<open>Inl ()\<close> is the internal error of a failed read.\<close>

definition checkBudget ::
  "select_env \<Rightarrow> 'b budgetService \<Rightarrow> 'b \<Rightarrow> string \<Rightarrow> int \<Rightarrow> Offer \<Rightarrow> (unit, bool) res" where
  "checkBudget env svc b agentID limit offer =
     (if agentID = [] \<or> limit \<le> 0 then Inr True
      else case bd_Check svc b agentID limit of
             Inl e \<Rightarrow> Inl e
           | Inr dec \<Rightarrow>
               if \<not> dc_Allowed dec then Inr False
               else if wrap64 (dc_Consumed dec + costFixed env offer) > dc_Limit dec then Inr False
               else Inr True)"

section \<open>The contract of a budget service\<close>

locale budget_cap =
  fixes svc :: "'b budgetService" and spent :: "'b \<Rightarrow> string \<Rightarrow> int"
  assumes check: "bd_Check svc b a l = Inr d \<Longrightarrow> d = decide l (spent b a)"
    and free: "c \<le> 0 \<Longrightarrow> bd_Record svc b a c = (b, False)"
    and counted: "0 < c \<Longrightarrow> int64 (spent b a + c) \<Longrightarrow> bd_Record svc b a c = (b', False) \<Longrightarrow> spent b' a = spent b a + c"
    and others: "bd_Record svc b a c = (b', False) \<Longrightarrow> a' \<noteq> a \<Longrightarrow> spent b' a' = spent b a'"
begin

text \<open>One admitted request, as long as the sum fits an \<open>int64\<close>.\<close>

lemma admitted_within:
  assumes "a \<noteq> []" "0 < limit" "checkBudget env svc b a limit offer = Inr True"
    and "bd_Record svc b a (costFixed env offer) = (b', False)"
    and "int64 limit" "int64 (spent b a + costFixed env offer)" "0 \<le> spent b a" and fits: "int64 (spent b a)"
  shows "0 \<le> spent b' a" "spent b' a \<le> limit"
proof -
  let ?c = "costFixed env offer"
  obtain d where d: "bd_Check svc b a limit = Inr d" "dc_Allowed d"
      "wrap64 (dc_Consumed d + ?c) \<le> dc_Limit d"
    using assms(1-3) by (auto simp: checkBudget_def split: sum.splits if_splits)
  then have d': "d = decide limit (spent b a)" using check by blast
  have small: "int64 (limit - spent b a)"
    using assms(2,5,7) fits by (auto simp: int64_def min_int64_def max_int64_def)
  then have "spent b a \<le> limit" using d(2) d' by (simp add: decide_def Let_def)
  moreover have "spent b a + ?c \<le> limit"
    using d(3) d' assms(6) by (simp add: decide_def Let_def)
  moreover have "spent b' a = spent b a + max 0 ?c"
  proof (cases "0 < ?c")
    case True
    then show ?thesis using counted [OF True assms(6,4)] by simp
  next
    case False
    then show ?thesis using free [of ?c b a] assms(4) by simp
  qed
  ultimately show "0 \<le> spent b' a" "spent b' a \<le> limit" using assms(7) by auto
qed

end

section \<open>Both services keep the contract\<close>

lemma budgetKey_inj [simp]: "budgetKey period a = budgetKey period a' \<longleftrightarrow> a = a'"
  by (simp add: budgetKey_def)

interpretation mem: budget_cap "memoryService period" "\<lambda>s a. memCount s (budgetKey period a)" for period
  by unfold_locales
    (auto simp: memoryService_def mem_Check_def mem_Record_def memCount_def Let_def split: if_splits)

text \<open>What Redis documents of the two commands: \<open>GET\<close> returns the stored number, \<open>INCRBY\<close> adds to that key
  alone and refuses an overflow.\<close>

locale redis_counter =
  fixes api :: "'r redisapi" and stored :: "'r \<Rightarrow> string \<Rightarrow> int"
  assumes get_stored: "rd_Get api r k = Inr v \<Longrightarrow> stored r k = (case v of None \<Rightarrow> 0 | Some n \<Rightarrow> n)"
    and incr_stored: "rd_IncrExpire api r k c t = (r', False) \<Longrightarrow> stored r' = (stored r)(k := stored r k + c)"

sublocale redis_counter \<subseteq> svc: budget_cap "redisService api ttl period" "\<lambda>r a. stored r (budgetKey period a)" for ttl period
proof
  fix b a l d
  assume "bd_Check (redisService api ttl period) b a l = Inr d"
  then show "d = decide l (stored b (budgetKey period a))"
    using get_stored [of b "budgetKey period a"]
    by (auto simp: redisService_def redis_Check_def readConsumed_def split: sum.splits option.splits)
qed (auto simp: redisService_def redis_Record_def dest!: incr_stored split: if_splits)

text \<open>A single-node server: a map from keys to numbers.\<close>

definition nodeRedis :: "(string \<rightharpoonup> int) redisapi" where
  "nodeRedis = \<lparr>rd_Get = (\<lambda>m k. Inr (m k)),
     rd_IncrExpire = (\<lambda>m k c t. let n = (case m k of None \<Rightarrow> 0 | Some n \<Rightarrow> n) + c
        in if int64 n then (m(k \<mapsto> n), False) else (m, True))\<rparr>"

interpretation node: redis_counter nodeRedis "\<lambda>m k. case m k of None \<Rightarrow> 0 | Some n \<Rightarrow> n"
  by unfold_locales (auto simp: nodeRedis_def Let_def split: if_splits)

section \<open>Statements\<close>





end
