(* ===== verification/Agent_Id.thy ===== *)
theory Agent_Id
  imports Ramp_Prelude
begin

text \<open>
  The identity of an agent: the reading of the Signature-Agent header and its reduction to a
  canonical host (\<open>internal/agentid/agentid.go\<close>), over the well-known URL builder and \<open>HostOf\<close>
  (\<open>internal/rampwellknown\<close>). The string parsers of \<open>net\<close>, \<open>strconv\<close> and the IPv4 half of \<open>netip\<close>
  are written out; \<open>net/url\<close>, the IPv6 half of \<open>netip\<close>, Unicode folding, IDNA and the structured-field
  parser are the fields of \<open>agentid_env\<close>.
\<close>

section \<open>Parameters\<close>

datatype sf_item = SfString string | SfToken string | SfOther

record URL =
  u_Scheme :: string
  u_Host :: string
  u_Path :: string
  u_RawQuery :: string
  u_Rest :: string

record agentid_env =
  ai_TrimSpace :: "string \<Rightarrow> string"
  ai_ToLower :: "string \<Rightarrow> string"
  ai_ToASCII :: "string \<Rightarrow> string option"
  ai_parseIPv6 :: "string \<Rightarrow> (string \<times> string) option"
  ai_UnmarshalItem :: "string \<Rightarrow> sf_item option"
  ai_urlParse :: "string \<Rightarrow> URL option"
  ai_urlString :: "URL \<Rightarrow> string"

section \<open>Standard-library parsers\<close>

definition cutFirst :: "char \<Rightarrow> string \<Rightarrow> (string \<times> string) option" where
  "cutFirst c s = (case dropWhile (\<lambda>d. d \<noteq> c) s of [] \<Rightarrow> None | _ # r \<Rightarrow> Some (takeWhile (\<lambda>d. d \<noteq> c) s, r))"

definition cutLast :: "char \<Rightarrow> string \<Rightarrow> (string \<times> string) option" where
  "cutLast c s = (case cutFirst c (rev s) of None \<Rightarrow> None | Some (a, b) \<Rightarrow> Some (rev b, rev a))"

fun splitOn :: "char \<Rightarrow> string \<Rightarrow> string list" where
  "splitOn c [] = [[]]"
| "splitOn c (d # s) =
     (if d = c then [] # splitOn c s
      else case splitOn c s of [] \<Rightarrow> [[d]] | l # ls \<Rightarrow> (d # l) # ls)"

definition isDigit :: "char \<Rightarrow> bool" where
  "isDigit c \<longleftrightarrow> 48 \<le> (of_char c :: nat) \<and> of_char c \<le> (57 :: nat)"

text \<open>\<open>net.SplitHostPort\<close>; \<open>None\<close> is its error.\<close>

definition net_SplitHostPort :: "string \<Rightarrow> (string \<times> string) option" where
  "net_SplitHostPort hostport =
     (case cutLast (CHR '':'') hostport of
        None \<Rightarrow> None
      | Some (pre, port) \<Rightarrow>
          if take 1 hostport = ''['' then
            (case cutFirst (CHR '']'') hostport of
               None \<Rightarrow> None
             | Some (a, rest) \<Rightarrow>
                 if length pre \<noteq> length a + 1 then None
                 else if CHR ''['' \<in> set (tl hostport) \<or> CHR '']'' \<in> set rest then None
                 else Some (tl a, port))
          else if CHR '':'' \<in> set pre then None
          else if CHR ''['' \<in> set hostport \<or> CHR '']'' \<in> set hostport then None
          else Some (pre, port))"

text \<open>\<open>strconv.Atoi\<close>; \<open>None\<close> is either of its errors.\<close>

definition Atoi :: "string \<Rightarrow> int option" where
  "Atoi s =
     (let neg = (take 1 s = ''-''); ds = (if take 1 s = ''-'' \<or> take 1 s = ''+'' then tl s else s);
          v = (if neg then - int (undecimal ds) else int (undecimal ds))
      in if ds = [] \<or> \<not> list_all isDigit ds then None
         else if int64 v then Some v else None)"

datatype Addr = Addr4 "nat list" | Addr6 string string

definition octet :: "string \<Rightarrow> bool" where
  "octet f \<longleftrightarrow> f \<noteq> [] \<and> list_all isDigit f \<and> (take 1 f = ''0'' \<longrightarrow> length f = 1) \<and> undecimal f \<le> 255"

definition parseIPv4 :: "string \<Rightarrow> Addr option" where
  "parseIPv4 s =
     (let fs = splitOn (CHR ''.'') s
      in if length fs = 4 \<and> list_all octet fs then Some (Addr4 (map undecimal fs)) else None)"

text \<open>\<open>netip.ParseAddr\<close> dispatches on the first of dot, colon and percent.\<close>

definition ParseAddr :: "agentid_env \<Rightarrow> string \<Rightarrow> Addr option" where
  "ParseAddr env s =
     (case dropWhile (\<lambda>c. c \<noteq> CHR ''.'' \<and> c \<noteq> CHR '':'' \<and> c \<noteq> CHR ''%'') s of
        [] \<Rightarrow> None
      | c # _ \<Rightarrow>
          if c = CHR ''.'' then parseIPv4 s
          else if c = CHR '':'' then map_option (\<lambda>(t, z). Addr6 t z) (ai_parseIPv6 env s)
          else None)"

fun addr_String :: "Addr \<Rightarrow> string" where
  "addr_String (Addr4 fs) = join ''.'' (map decimal fs)"
| "addr_String (Addr6 t z) = (if z = [] then t else t @ ''%'' @ z)"

fun addr_Zone :: "Addr \<Rightarrow> string" where
  "addr_Zone (Addr4 fs) = []"
| "addr_Zone (Addr6 t z) = z"

fun Is4 :: "Addr \<Rightarrow> bool" where
  "Is4 (Addr4 fs) = True"
| "Is4 (Addr6 t z) = False"

section \<open>Well-known URLs\<close>

definition containsStr :: "string \<Rightarrow> string \<Rightarrow> bool" where
  "containsStr sub s \<longleftrightarrow> list_ex (\<lambda>i. take (length sub) (drop i s) = sub) [0..<Suc (length s)]"

definition Path :: string where "Path = ''/.well-known/ramp.json''"

text \<open>\<open>None\<close> is an error wrapping \<open>ErrInvalidHost\<close>.\<close>

definition wellKnownURL :: "agentid_env \<Rightarrow> string \<Rightarrow> string \<Rightarrow> string \<Rightarrow> string \<Rightarrow> string option" where
  "wellKnownURL env rawHost scheme port path =
     (let host = ai_TrimSpace env rawHost
      in if host = [] then None
         else if containsStr ''://'' host then
           (case ai_urlParse env host of
              None \<Rightarrow> None
            | Some u \<Rightarrow>
                if u_Host u = [] then None
                else Some (ai_urlString env (u\<lparr>u_Path := path, u_RawQuery := []\<rparr>)))
         else
           Some ((if scheme = [] then ''https'' else scheme) @ ''://'' @
             (if port \<noteq> [] \<and> CHR '':'' \<notin> set host then host @ '':'' @ port else host) @ path))"

definition ManifestURL :: "agentid_env \<Rightarrow> string \<Rightarrow> string \<Rightarrow> string \<Rightarrow> string option" where
  "ManifestURL env host scheme port = wellKnownURL env host scheme port Path"

definition HostOf :: "agentid_env \<Rightarrow> string \<Rightarrow> string option" where
  "HostOf env ref =
     (case ManifestURL env ref [] [] of
        None \<Rightarrow> None
      | Some normalized \<Rightarrow> map_option u_Host (ai_urlParse env normalized))"

section \<open>Reading the header\<close>

definition DirectoryFromHeader :: "agentid_env \<Rightarrow> string \<Rightarrow> string" where
  "DirectoryFromHeader env header =
     (let raw = ai_TrimSpace env header
      in if raw = [] then []
         else case ai_UnmarshalItem env raw of
                None \<Rightarrow> raw
              | Some (SfString v) \<Rightarrow> v
              | Some (SfToken v) \<Rightarrow> v
              | Some SfOther \<Rightarrow> raw)"

definition DirectoryFromRequest :: "agentid_env \<Rightarrow> string list \<Rightarrow> string" where
  "DirectoryFromRequest env values = DirectoryFromHeader env (join '', '' values)"

section \<open>The canonical host\<close>

definition hostChars :: string where
  "hostChars = ''abcdefghijklmnopqrstuvwxyz0123456789-_''"

definition isASCII :: "string \<Rightarrow> bool" where
  "isASCII s \<longleftrightarrow> list_all (\<lambda>c. of_char c < (128 :: nat)) s"

text \<open>Refusals carry a message only; \<open>None\<close> is any error of this package.\<close>

definition checkHostName :: "string \<Rightarrow> bool" where
  "checkHostName name \<longleftrightarrow>
     name \<noteq> [] \<and> list_all (\<lambda>l. l \<noteq> [] \<and> list_all (\<lambda>c. c \<in> set hostChars) l) (splitOn (CHR ''.'') name)"

definition endsInNumericLabel :: "string \<Rightarrow> bool" where
  "endsInNumericLabel name =
     (let l = rev (takeWhile (\<lambda>c. c \<noteq> CHR ''.'') (rev name)) in l \<noteq> [] \<and> list_all isDigit l)"

definition canonicalIPv4 :: "agentid_env \<Rightarrow> string \<Rightarrow> string option" where
  "canonicalIPv4 env name =
     (case ParseAddr env name of
        None \<Rightarrow> None
      | Some addr \<Rightarrow> if \<not> Is4 addr then None else Some (addr_String addr))"

definition canonicalIPLiteral :: "agentid_env \<Rightarrow> string \<Rightarrow> string option" where
  "canonicalIPLiteral env inner =
     (if inner = [] \<or> last inner \<noteq> CHR '']'' then None
      else case ParseAddr env (butlast inner) of
             None \<Rightarrow> None
           | Some addr \<Rightarrow>
               if addr_Zone addr \<noteq> [] then None else Some (''['' @ addr_String addr @ '']''))"

definition canonicalName :: "agentid_env \<Rightarrow> string \<Rightarrow> string option" where
  "canonicalName env name =
     (if take 1 name = ''['' then canonicalIPLiteral env (tl name)
      else case (if isASCII name then Some name else ai_ToASCII env name) of
             None \<Rightarrow> None
           | Some n \<Rightarrow>
               if endsInNumericLabel n then canonicalIPv4 env n
               else if checkHostName n then Some n else None)"

definition splitHostPort :: "string \<Rightarrow> string \<times> string" where
  "splitHostPort host =
     (case net_SplitHostPort host of
        None \<Rightarrow> (host, [])
      | Some (h, p) \<Rightarrow> if CHR '':'' \<in> set h then (''['' @ h @ '']'', p) else (h, p))"

definition canonicalPort :: "string \<Rightarrow> string option" where
  "canonicalPort port =
     (if port = [] then Some []
      else case Atoi port of
             None \<Rightarrow> None
           | Some n \<Rightarrow>
               if n < 1 \<or> n > 65535 then None
               else if n = 80 \<or> n = 443 then Some []
               else Some (decimal_int n))"

definition trimSuffixDot :: "string \<Rightarrow> string" where
  "trimSuffixDot s = (if s \<noteq> [] \<and> last s = CHR ''.'' then butlast s else s)"

definition canonicalHost :: "agentid_env \<Rightarrow> string \<Rightarrow> string option" where
  "canonicalHost env host =
     (case splitHostPort host of
        (rawName, rawPort) \<Rightarrow>
          (case canonicalPort rawPort of
             None \<Rightarrow> None
           | Some port \<Rightarrow>
               (case canonicalName env (ai_ToLower env (trimSuffixDot rawName)) of
                  None \<Rightarrow> None
                | Some name \<Rightarrow> Some (if port = [] then name else name @ '':'' @ port))))"

definition FromDirectory :: "agentid_env \<Rightarrow> string \<Rightarrow> string option" where
  "FromDirectory env directory =
     (case HostOf env directory of
        None \<Rightarrow> None
      | Some host \<Rightarrow> if host = [] then None else canonicalHost env host)"

section \<open>Laws of the parameters\<close>

definition ascii_lower :: "char \<Rightarrow> char" where
  "ascii_lower c = (if 65 \<le> (of_char c :: nat) \<and> of_char c \<le> (90 :: nat) then char_of (of_char c + 32 :: nat) else c)"

definition authority_marks :: "char list" where "authority_marks = '':[].''"

text \<open>The shape of the text \<open>netip.Addr.String\<close> prints for an IPv6 address (RFC 5952).\<close>

definition ipv6Chars :: string where "ipv6Chars = ''0123456789abcdef:.''"

definition ipv6_text :: "string \<Rightarrow> bool" where
  "ipv6_text t \<longleftrightarrow> set t \<subseteq> set ipv6Chars \<and>
     (\<exists>a b. t = a @ CHR '':'' # b \<and> set a \<subseteq> set ''0123456789abcdef'')"

text \<open>What the packages document: ASCII lower-casing letter by letter, punctuation untouched by
  case mapping, ASCII results of \<open>ToASCII\<close>, and addresses that print to text which parses back.\<close>

definition agentid_laws :: "agentid_env \<Rightarrow> bool" where
  "agentid_laws env \<longleftrightarrow>
     (\<forall>s. take 1 (ai_ToLower env s) = ''['' \<longleftrightarrow> take 1 s = ''['') \<and>
     (\<forall>s. isASCII s \<longrightarrow> ai_ToLower env s = map ascii_lower s) \<and>
     (\<forall>s. filter (\<lambda>c. c \<in> set authority_marks) (ai_ToLower env s) = filter (\<lambda>c. c \<in> set authority_marks) s) \<and>
     (\<forall>s t. ai_ToASCII env s = Some t \<longrightarrow> isASCII t) \<and>
     (\<forall>s t z. ai_parseIPv6 env s = Some (t, z) \<longrightarrow> ipv6_text t \<and> ai_parseIPv6 env t = Some (t, []))"

lemma ToLower_mark:
  assumes "agentid_laws env" "c \<in> set authority_marks"
  shows "c \<in> set (ai_ToLower env s) \<longleftrightarrow> c \<in> set s"
proof -
  have "filter (\<lambda>c. c \<in> set authority_marks) (ai_ToLower env s) = filter (\<lambda>c. c \<in> set authority_marks) s"
    using assms(1) by (simp add: agentid_laws_def)
  then have "c \<in> set (filter (\<lambda>c. c \<in> set authority_marks) (ai_ToLower env s)) \<longleftrightarrow>
      c \<in> set (filter (\<lambda>c. c \<in> set authority_marks) s)"
    by simp
  then show ?thesis using assms(2) by simp
qed

lemma ToLower_id:
  assumes "agentid_laws env" "isASCII s" "\<And>c. c \<in> set s \<Longrightarrow> ascii_lower c = c"
  shows "ai_ToLower env s = s"
  using assms by (simp add: agentid_laws_def map_idI)

section \<open>Cutting and joining\<close>

lemma cutFirst_absent [simp]: "c \<notin> set s \<Longrightarrow> cutFirst c s = None"
proof -
  assume "c \<notin> set s"
  then have "dropWhile (\<lambda>d. d \<noteq> c) s = []" by (induction s) auto
  then show ?thesis by (simp only: cutFirst_def list.case)
qed

lemma cutFirst_append [simp]: "c \<notin> set a \<Longrightarrow> cutFirst c (a @ c # b) = Some (a, b)"
proof -
  assume "c \<notin> set a"
  then have "dropWhile (\<lambda>d. d \<noteq> c) (a @ c # b) = c # b" "takeWhile (\<lambda>d. d \<noteq> c) (a @ c # b) = a"
    by (induction a) auto
  then show ?thesis by (simp add: cutFirst_def)
qed

lemma cutFirst_SomeD: "cutFirst c s = Some (a, b) \<Longrightarrow> s = a @ c # b \<and> c \<notin> set a"
  by (metis cutFirst_absent cutFirst_append option.distinct(1) option.inject prod.inject split_list_first)

lemma cutLast_absent [simp]: "c \<notin> set s \<Longrightarrow> cutLast c s = None"
  by (simp add: cutLast_def)

lemma cutLast_append [simp]: "c \<notin> set b \<Longrightarrow> cutLast c (a @ c # b) = Some (a, b)"
  by (simp add: cutLast_def)

lemma cutLast_SomeD:
  assumes "cutLast c s = Some (a, b)"
  shows "s = a @ c # b \<and> c \<notin> set b"
proof -
  obtain x y where "cutFirst c (rev s) = Some (x, y)" "a = rev y" "b = rev x"
    using assms by (auto simp: cutLast_def split: option.splits prod.splits)
  then show ?thesis
    using cutFirst_SomeD [of c "rev s" x y]
    by (metis append.assoc append_Cons append_Nil rev.simps(2) rev_append rev_rev_ident set_rev)
qed

lemma splitOn_nonempty [simp]: "splitOn c s \<noteq> []"
  by (induction s) (auto split: list.splits)

lemma splitOn_plain [simp]: "c \<notin> set s \<Longrightarrow> splitOn c s = [s]"
  by (induction s) auto

lemma splitOn_append [simp]: "c \<notin> set a \<Longrightarrow> splitOn c (a @ c # b) = a # splitOn c b"
  by (induction a) auto

lemma set_splitOn: "set s \<subseteq> insert c (\<Union> (set ` set (splitOn c s)))"
proof (induction s)
  case (Cons d s)
  then show ?case by (cases "splitOn c s") auto
qed simp

lemma splitOn_single: "splitOn c s = [x] \<Longrightarrow> c \<notin> set s"
  by (induction s arbitrary: x) (auto split: list.splits if_splits)

lemma splitOn_last: "last (splitOn c s) = rev (takeWhile (\<lambda>d. d \<noteq> c) (rev s))"
proof (induction s)
  case (Cons d s)
  have ne: "splitOn c s \<noteq> []" by simp
  show ?case
  proof (cases "c \<in> set s")
    case True
    then have "splitOn c s \<noteq> [x]" for x
      using splitOn_single by blast
    then obtain l m ls where "splitOn c s = l # m # ls"
      by (metis ne neq_Nil_conv)
    with Cons.IH True show ?thesis by (auto simp: takeWhile_append1)
  next
    case False
    then have "takeWhile (\<lambda>d. d \<noteq> c) (rev s @ [d]) = (if d = c then rev s else rev s @ [d])"
      by (subst takeWhile_append2) auto
    with False show ?thesis by simp
  qed
qed simp

lemma join_splitOn [simp]:
  "list_all (\<lambda>l. c \<notin> set l) ls \<Longrightarrow> ls \<noteq> [] \<Longrightarrow> splitOn c (join [c] ls) = ls"
  by (induction "[c]" ls rule: join.induct) auto

section \<open>Characters\<close>

lemma isDigit_decimal: "list_all isDigit (decimal n)"
  using decimal_chars [of _ n] by (auto simp: list_all_iff isDigit_def)

lemma digit_not_mark: "isDigit c \<Longrightarrow> c \<notin> {CHR '':'', CHR ''['', CHR '']'', CHR ''.'', CHR ''%'', CHR ''-'', CHR ''+''}"
  by (auto simp: isDigit_def)

lemma decimal_not_mark:
  "c \<in> {CHR '':'', CHR ''['', CHR '']'', CHR ''.'', CHR ''%'', CHR ''-'', CHR ''+''} \<Longrightarrow> c \<notin> set (decimal n)"
  using isDigit_decimal [of n] digit_not_mark by (auto simp: list_all_iff)

lemma decimal_hd_zero: "take 1 (decimal n) = ''0'' \<Longrightarrow> n = 0"
proof (induction n rule: decimal.induct)
  case (1 n)
  show ?case
  proof (cases "n < 10")
    case True
    then have "decimal n = [digit_char n]" by (subst decimal.simps) simp
    with 1(2) have "digit_char n = CHR ''0''" by simp
    then have "char_digit (digit_char n) = 0" by (simp add: char_digit_def)
    with True show ?thesis by simp
  next
    case False
    then have "decimal n = decimal (n div 10) @ [digit_char (n mod 10)]" by (subst decimal.simps) simp
    with 1(2) have "take 1 (decimal (n div 10)) = ''0''"
      by (cases "decimal (n div 10)") auto
    with 1(1) False have "n div 10 = 0" by blast
    with False show ?thesis by simp
  qed
qed

lemma octet_decimal: "f \<le> 255 \<Longrightarrow> octet (decimal f)"
  using isDigit_decimal [of f] decimal_hd_zero [of f]
  by (auto simp: octet_def decimal.simps [of 0])

lemma Atoi_decimal:
  assumes "int n \<le> max_int64"
  shows "Atoi (decimal n) = Some (int n)"
proof -
  have d: "list_all isDigit (decimal n)" by (rule isDigit_decimal)
  have "take 1 (decimal n) \<noteq> ''-''" "take 1 (decimal n) \<noteq> ''+''"
    using d by (cases "decimal n"; auto simp: isDigit_def)+
  then show ?thesis
    using assms d by (simp add: Atoi_def int64_def min_int64_def)
qed

lemma canonicalPort_SomeD:
  assumes "canonicalPort p = Some q"
  obtains "q = []" | n where "q = decimal n" "1 \<le> n" "n \<le> 65535" "n \<noteq> 80" "n \<noteq> 443" "p \<noteq> []"
proof (cases "q = []")
  case False
  then obtain i where "Atoi p = Some i" "1 \<le> i" "i \<le> 65535" "i \<noteq> 80" "i \<noteq> 443" "q = decimal_int i" "p \<noteq> []"
    using assms by (auto simp: canonicalPort_def split: if_splits option.splits)
  then show thesis using that(2) [of "nat i"] by (auto simp: decimal_int_def nat_eq_iff)
qed (use that in simp)

lemma canonicalPort_decimal:
  assumes "1 \<le> n" "n \<le> 65535" "n \<noteq> 80" "n \<noteq> 443"
  shows "canonicalPort (decimal n) = Some (decimal n)"
  using assms Atoi_decimal [of n] by (simp add: canonicalPort_def decimal_int_def max_int64_def)

section \<open>Canonical names\<close>

definition plainName :: "string \<Rightarrow> bool" where
  "plainName c \<longleftrightarrow> c \<noteq> [] \<and> last c \<noteq> CHR ''.'' \<and>
     (\<forall>x \<in> set c. of_char x < (128 :: nat) \<and> ascii_lower x = x \<and>
        x \<notin> {CHR '':'', CHR ''['', CHR '']''})"

definition quad :: "nat list \<Rightarrow> bool" where
  "quad fs \<longleftrightarrow> length fs = 4 \<and> (\<forall>f \<in> set fs. f \<le> 255)"

lemma plainName_hostname:
  assumes "checkHostName n"
  shows "plainName n"
proof -
  let ?ls = "splitOn (CHR ''.'') n"
  have ls: "l \<noteq> [] \<and> set l \<subseteq> set hostChars" if "l \<in> set ?ls" for l
    using assms that by (auto simp: checkHostName_def list_all_iff)
  have "last ?ls \<noteq> []" using ls [of "last ?ls"] by simp
  then have "takeWhile (\<lambda>d. d \<noteq> CHR ''.'') (rev n) \<noteq> []" by (simp add: splitOn_last)
  then have "last n \<noteq> CHR ''.''" by (cases n rule: rev_cases) auto
  moreover have "x \<in> insert (CHR ''.'') (set hostChars)" if "x \<in> set n" for x
    using set_splitOn [of n "CHR ''.''"] ls that by blast
  moreover have "of_char x < (128 :: nat) \<and> ascii_lower x = x \<and> x \<notin> {CHR '':'', CHR ''['', CHR '']''}"
    if "x \<in> insert (CHR ''.'') (set hostChars)" for x
    using that unfolding hostChars_def by (auto simp: ascii_lower_def)
  ultimately show ?thesis
    using assms unfolding plainName_def checkHostName_def by blast
qed

lemma isDigit_plain: "isDigit x \<Longrightarrow> of_char x < (128 :: nat) \<and> ascii_lower x = x"
  by (auto simp: isDigit_def ascii_lower_def)

lemma set_join: "x \<in> set (join sep ls) \<Longrightarrow> x \<in> set sep \<or> (\<exists>l \<in> set ls. x \<in> set l)"
  by (induction sep ls rule: join.induct) auto

lemma join_last:
  "ls \<noteq> [] \<Longrightarrow> \<forall>l \<in> set ls. l \<noteq> [] \<Longrightarrow> join sep ls \<noteq> [] \<and> last (join sep ls) = last (last ls)"
  by (induction sep ls rule: join.induct) auto

lemma plainName_decimals:
  assumes "fs \<noteq> []"
  shows "plainName (join ''.'' (map decimal fs))"
proof -
  let ?s = "join ''.'' (map decimal fs)"
  have chars: "isDigit x \<or> x = CHR ''.''" if "x \<in> set (join ''.'' (map decimal gs))" for x gs
    using set_join [OF that] isDigit_decimal by (auto simp: list_all_iff)
  have "isDigit (last (decimal n))" for n
    using isDigit_decimal [of n] last_in_set [OF decimal_nonempty [of n]] by (simp add: list_all_iff)
  then have "isDigit (last (last (map decimal fs)))" using assms by (simp add: last_map)
  then have "isDigit (last ?s)" "?s \<noteq> []"
    using join_last [of "map decimal fs" "''.''"] assms by auto
  then have "last ?s \<noteq> CHR ''.''" "?s \<noteq> []"
    using digit_not_mark by blast+
  moreover have "of_char x < (128 :: nat) \<and> ascii_lower x = x \<and> x \<notin> {CHR '':'', CHR ''['', CHR '']''}"
    if "x \<in> set ?s" for x
    using chars [OF that] isDigit_plain [of x] digit_not_mark [of x]
    by (auto simp: ascii_lower_def)
  ultimately show ?thesis unfolding plainName_def by blast
qed

lemma plainName_lowered:
  assumes "agentid_laws env" "plainName c"
  shows "ai_ToLower env (trimSuffixDot c) = c" "isASCII c" "take 1 c \<noteq> ''[''"
proof -
  show "isASCII c" using assms(2) by (simp add: plainName_def isASCII_def list_all_iff)
  moreover have "trimSuffixDot c = c" using assms(2) by (simp add: plainName_def trimSuffixDot_def)
  ultimately show "ai_ToLower env (trimSuffixDot c) = c"
    using assms ToLower_id [of env c] by (simp add: plainName_def)
  show "take 1 c \<noteq> ''[''"
    using assms(2) by (cases c) (auto simp: plainName_def)
qed

lemma parseIPv4_quad:
  assumes "parseIPv4 s = Some a"
  obtains fs where "a = Addr4 fs" "quad fs" "CHR '':'' \<notin> set s"
proof -
  let ?ls = "splitOn (CHR ''.'') s"
  have a: "a = Addr4 (map undecimal ?ls)" "length ?ls = 4" "list_all octet ?ls"
    using assms by (auto simp: parseIPv4_def Let_def split: if_splits)
  have "isDigit x \<or> x = CHR ''.''" if "x \<in> set s" for x
    using a(3) set_splitOn [of s "CHR ''.''"] that by (auto simp: list_all_iff octet_def)
  then have "CHR '':'' \<notin> set s" using digit_not_mark by fastforce
  with a show thesis by (intro that [of "map undecimal ?ls"]) (auto simp: quad_def list_all_iff octet_def)
qed

lemma ParseAddr_quad:
  assumes "quad fs"
  shows "ParseAddr env (join ''.'' (map decimal fs)) = Some (Addr4 fs)"
proof -
  let ?s = "join ''.'' (map decimal fs)"
  obtain a b c d where fs: "fs = [a, b, c, d]"
    using assms by (auto simp: quad_def length_Suc_conv eval_nat_numeral)
  have split: "splitOn (CHR ''.'') ?s = map decimal fs"
    by (rule join_splitOn) (use decimal_not_mark in \<open>auto simp: list_all_iff fs\<close>)
  have "list_all octet (map decimal fs)"
    using assms octet_decimal by (auto simp: quad_def list_all_iff)
  then have "parseIPv4 ?s = Some (Addr4 fs)"
    using split assms by (simp add: parseIPv4_def quad_def comp_def)
  moreover have "dropWhile (\<lambda>c. c \<noteq> CHR ''.'' \<and> c \<noteq> CHR '':'' \<and> c \<noteq> CHR ''%'') (decimal a @ CHR ''.'' # r) = CHR ''.'' # r" for r
    by (subst dropWhile_append2) (use decimal_not_mark [of _ a] in auto)
  ultimately show ?thesis by (simp add: ParseAddr_def fs)
qed

lemma ParseAddr_ipv6_text:
  assumes "ipv6_text t" "ai_parseIPv6 env t = Some (t, [])"
  shows "ParseAddr env t = Some (Addr6 t [])"
proof -
  obtain a b where t: "t = a @ CHR '':'' # b" "set a \<subseteq> set ''0123456789abcdef''"
    using assms(1) by (auto simp: ipv6_text_def)
  then have "dropWhile (\<lambda>c. c \<noteq> CHR ''.'' \<and> c \<noteq> CHR '':'' \<and> c \<noteq> CHR ''%'') t = CHR '':'' # b"
    by (subst t(1), subst dropWhile_append2) auto
  then show ?thesis using assms(2) by (simp add: ParseAddr_def)
qed

text \<open>The four shapes of a canonical name.\<close>

lemma canonicalName_cases:
  assumes "agentid_laws env" "canonicalName env n = Some c"
  obtains (name) "checkHostName c" "\<not> endsInNumericLabel c" "isASCII c"
  | (v4) fs where "quad fs" "c = join ''.'' (map decimal fs)"
  | (lit4) fs where "quad fs" "c = ''['' @ join ''.'' (map decimal fs) @ '']''" "CHR '':'' \<notin> set n" "take 1 n = ''[''"
  | (lit6) t where "ipv6_text t" "ai_parseIPv6 env t = Some (t, [])" "c = ''['' @ t @ '']''" "take 1 n = ''[''"
proof (cases "take 1 n = ''[''")
  case True
  then obtain i where n: "n = CHR ''['' # i" by (cases n) auto
  then have lit: "canonicalIPLiteral env i = Some c" using assms(2) by (simp add: canonicalName_def)
  then obtain x where i: "i = x @ '']''"
    by (cases i rule: rev_cases) (auto simp: canonicalIPLiteral_def split: if_splits)
  then obtain addr where addr: "ParseAddr env x = Some addr" "addr_Zone addr = []"
      "c = ''['' @ addr_String addr @ '']''"
    using lit by (auto simp: canonicalIPLiteral_def split: option.splits if_splits)
  show thesis
  proof (cases addr)
    case (Addr4 fs)
    then have "parseIPv4 x = Some (Addr4 fs)"
      using addr(1) by (auto simp: ParseAddr_def split: list.splits if_splits)
    then show thesis
      using that(3) [of fs] addr(3) Addr4 n i by (auto elim!: parseIPv4_quad)
  next
    case (Addr6 t z)
    then have "z = []" "ai_parseIPv6 env x = Some (t, z)"
      using addr by (auto simp: ParseAddr_def parseIPv4_def Let_def split: list.splits if_splits)
    then have "ipv6_text t \<and> ai_parseIPv6 env t = Some (t, [])"
      using assms(1) unfolding agentid_laws_def by blast
    with \<open>z = []\<close> show thesis
      using that(4) [of t] addr(3) Addr6 True by simp
  qed
next
  case False
  then obtain m where m: "(if isASCII n then Some n else ai_ToASCII env n) = Some m"
      "(if endsInNumericLabel m then canonicalIPv4 env m else if checkHostName m then Some m else None) = Some c"
    using assms(2) by (auto simp: canonicalName_def split: option.splits)
  have asc: "isASCII m" using m(1) assms(1) by (auto simp: agentid_laws_def split: if_splits)
  show thesis
  proof (cases "endsInNumericLabel m")
    case True
    then obtain fs where "ParseAddr env m = Some (Addr4 fs)" "c = join ''.'' (map decimal fs)"
      using m(2) by (auto simp: canonicalIPv4_def split: option.splits if_splits elim!: Is4.elims)
    moreover from this(1) have "parseIPv4 m = Some (Addr4 fs)"
      by (auto simp: ParseAddr_def split: list.splits if_splits)
    ultimately show thesis using that(2) [of fs] by (auto elim: parseIPv4_quad)
  next
    case False
    then show thesis using that(1) m(2) asc by (auto split: if_splits)
  qed
qed

section \<open>Splitting host and port\<close>

lemma splitHostPort_plain: "plainName c \<Longrightarrow> splitHostPort c = (c, [])"
proof -
  assume "plainName c"
  then have "CHR '':'' \<notin> set c" unfolding plainName_def by blast
  then show ?thesis by (simp add: splitHostPort_def net_SplitHostPort_def)
qed

lemma splitHostPort_unmarked:
  assumes "CHR '':'' \<notin> set c" "CHR ''['' \<notin> set c" "CHR '']'' \<notin> set c" "list_all isDigit p"
  shows "splitHostPort (c @ '':'' @ p) = (c, p)"
proof -
  have p: "CHR '':'' \<notin> set p" "CHR ''['' \<notin> set p" "CHR '']'' \<notin> set p"
    using assms(4) digit_not_mark by (auto simp: list_all_iff)
  have "take 1 (c @ CHR '':'' # p) \<noteq> ''[''" using assms(2) by (cases c) auto
  then show ?thesis
    using p assms by (simp add: splitHostPort_def net_SplitHostPort_def)
qed

lemma splitHostPort_plain_port:
  assumes "plainName c" "list_all isDigit p"
  shows "splitHostPort (c @ '':'' @ p) = (c, p)"
  by (rule splitHostPort_unmarked) (use assms in \<open>auto simp: plainName_def\<close>)

lemma splitHostPort_bracket:
  assumes "CHR ''['' \<notin> set t" "CHR '']'' \<notin> set t"
  shows "splitHostPort (''['' @ t @ '']'') = (''['' @ t @ '']'', [])"
proof (cases "cutLast (CHR '':'') (''['' @ t @ '']'')")
  case None
  then show ?thesis by (simp add: splitHostPort_def net_SplitHostPort_def)
next
  case (Some ab)
  then obtain a b where ab: "''['' @ t @ '']'' = a @ CHR '':'' # b" "cutLast (CHR '':'') (''['' @ t @ '']'') = Some (a, b)"
    using cutLast_SomeD by (cases ab) blast
  have cut: "cutFirst (CHR '']'') (''['' @ t @ '']'') = Some (CHR ''['' # t, [])"
    using cutFirst_append [of "CHR '']''" "CHR ''['' # t" "[]"] assms by simp
  have "b \<noteq> []" using arg_cong [OF ab(1), of last] by (intro notI) simp
  then have "length a \<noteq> length (CHR ''['' # t) + 1"
    using arg_cong [OF ab(1), of length] by simp
  then show ?thesis
    using ab(2) cut by (simp add: splitHostPort_def net_SplitHostPort_def)
qed

lemma splitHostPort_bracket_port:
  assumes "CHR ''['' \<notin> set t" "CHR '']'' \<notin> set t" "CHR '':'' \<in> set t" "list_all isDigit p"
  shows "splitHostPort (''['' @ t @ '']'' @ '':'' @ p) = (''['' @ t @ '']'', p)"
proof -
  have p: "CHR '':'' \<notin> set p" "CHR ''['' \<notin> set p" "CHR '']'' \<notin> set p"
    using assms(4) digit_not_mark by (auto simp: list_all_iff)
  have 1: "cutLast (CHR '':'') (''['' @ t @ '']'' @ '':'' @ p) = Some (''['' @ t @ '']'', p)"
    using cutLast_append [of "CHR '':''" p "''['' @ t @ '']''"] p by simp
  have 2: "cutFirst (CHR '']'') (''['' @ t @ '']'' @ '':'' @ p) = Some (CHR ''['' # t, CHR '':'' # p)"
    using cutFirst_append [of "CHR '']''" "CHR ''['' # t" "CHR '':'' # p"] assms by simp
  show ?thesis
    using 1 2 p assms by (simp add: splitHostPort_def net_SplitHostPort_def)
qed

text \<open>A port in the reference means the name half carries no stray brackets.\<close>

lemma splitHostPort_port_name:
  assumes "splitHostPort h = (n, p)" "net_SplitHostPort h \<noteq> None" "CHR ''['' \<in> set n"
  shows "CHR '':'' \<in> set n"
proof -
  obtain m where m: "net_SplitHostPort h = Some (m, p)" "n = (if CHR '':'' \<in> set m then ''['' @ m @ '']'' else m)"
    using assms by (auto simp: splitHostPort_def split: option.splits prod.splits if_splits)
  have "CHR ''['' \<notin> set m"
  proof (cases "take 1 h = ''[''")
    case True
    then obtain a rest where "cutFirst (CHR '']'') h = Some (a, rest)" "m = tl a" "CHR ''['' \<notin> set (tl h)"
      using m(1) by (auto simp: net_SplitHostPort_def split: option.splits prod.splits if_splits)
    then show ?thesis
      using cutFirst_SomeD [of "CHR '']''" h a rest] True by (cases a) auto
  next
    case False
    then have "CHR ''['' \<notin> set h" "cutLast (CHR '':'') h = Some (m, p)"
      using m(1) by (auto simp: net_SplitHostPort_def split: option.splits prod.splits if_splits)
    then show ?thesis using cutLast_SomeD [of "CHR '':''" h m p] by auto
  qed
  then show ?thesis using assms(3) m(2) by (auto split: if_splits)
qed

lemma set_trimSuffixDot: "c \<noteq> CHR ''.'' \<Longrightarrow> c \<in> set (trimSuffixDot s) \<longleftrightarrow> c \<in> set s"
  by (cases s rule: rev_cases) (auto simp: trimSuffixDot_def)

lemma ipv6Chars_facts:
  assumes "c \<in> set ipv6Chars"
  shows "of_char c < (128 :: nat)" "ascii_lower c = c" "c \<noteq> CHR ''[''" "c \<noteq> CHR '']''"
  using assms unfolding ipv6Chars_def by (auto simp: ascii_lower_def)

lemma ipv6_text_chars:
  assumes "ipv6_text t"
  shows "CHR ''['' \<notin> set t" "CHR '']'' \<notin> set t" "CHR '':'' \<in> set t"
    "isASCII (''['' @ t @ '']'')" "\<And>c. c \<in> set (''['' @ t @ '']'') \<Longrightarrow> ascii_lower c = c"
proof -
  have t: "c \<in> set ipv6Chars" if "c \<in> set t" for c
    using assms that unfolding ipv6_text_def by blast
  show "CHR ''['' \<notin> set t" "CHR '']'' \<notin> set t"
    using t ipv6Chars_facts by blast+
  obtain a b where "t = a @ CHR '':'' # b" using assms unfolding ipv6_text_def by blast
  then show "CHR '':'' \<in> set t" by simp
  have all: "of_char c < (128 :: nat) \<and> ascii_lower c = c" if c: "c \<in> set (''['' @ t @ '']'')" for c
  proof -
    consider "c \<in> set t" | "c = CHR ''[''" | "c = CHR '']''" using c by auto
    then show ?thesis
      by cases (use t ipv6Chars_facts in \<open>simp_all add: ascii_lower_def\<close>)
  qed
  then show "isASCII (''['' @ t @ '']'')" unfolding isASCII_def list_all_iff by blast
  show "\<And>c. c \<in> set (''['' @ t @ '']'') \<Longrightarrow> ascii_lower c = c" using all by blast
qed

lemma decimals_no_bracket:
  "CHR ''['' \<notin> set (join ''.'' (map decimal fs))" "CHR '']'' \<notin> set (join ''.'' (map decimal fs))"
  using set_join [of _ "''.''" "map decimal fs"] decimal_not_mark by fastforce+

lemma bracket_lowered:
  assumes "agentid_laws env" "isASCII (''['' @ t @ '']'')" "\<And>c. c \<in> set (''['' @ t @ '']'') \<Longrightarrow> ascii_lower c = c"
  shows "ai_ToLower env (trimSuffixDot (''['' @ t @ '']'')) = ''['' @ t @ '']''"
proof -
  have "trimSuffixDot (''['' @ t @ '']'') = ''['' @ t @ '']''" by (simp add: trimSuffixDot_def)
  then show ?thesis using ToLower_id assms by metis
qed

section \<open>One spelling per host\<close>

lemma plainName_bracket:
  assumes "plainName t"
  shows "isASCII (''['' @ t @ '']'')" "\<And>c. c \<in> set (''['' @ t @ '']'') \<Longrightarrow> ascii_lower c = c"
proof -
  have all: "of_char c < (128 :: nat) \<and> ascii_lower c = c" if c: "c \<in> set (''['' @ t @ '']'')" for c
  proof -
    consider "c \<in> set t" | "c = CHR ''[''" | "c = CHR '']''" using c by auto
    then show ?thesis
      by cases (use assms in \<open>simp_all add: plainName_def ascii_lower_def\<close>)
  qed
  then show "isASCII (''['' @ t @ '']'')" unfolding isASCII_def list_all_iff by blast
  show "\<And>c. c \<in> set (''['' @ t @ '']'') \<Longrightarrow> ascii_lower c = c" using all by blast
qed

lemma endsInNumericLabel_decimals:
  assumes "fs \<noteq> []"
  shows "endsInNumericLabel (join ''.'' (map decimal fs))"
proof -
  have "splitOn (CHR ''.'') (join ''.'' (map decimal fs)) = map decimal fs"
    by (rule join_splitOn) (use assms decimal_not_mark in \<open>auto simp: list_all_iff\<close>)
  then have "rev (takeWhile (\<lambda>d. d \<noteq> CHR ''.'') (rev (join ''.'' (map decimal fs)))) = decimal (last fs)"
    using assms splitOn_last [of "CHR ''.''" "join ''.'' (map decimal fs)"] by (simp add: last_map)
  then show ?thesis using isDigit_decimal [of "last fs"] by (simp add: endsInNumericLabel_def Let_def)
qed

lemma canonicalName_idem:
  assumes laws: "agentid_laws env" and c: "canonicalName env n = Some c"
  shows "canonicalName env (ai_ToLower env (trimSuffixDot c)) = Some c"
  using laws c
proof (cases rule: canonicalName_cases)
  case name
  then show ?thesis
    using plainName_lowered [OF laws plainName_hostname] by (simp add: canonicalName_def)
next
  case (v4 fs)
  then have "fs \<noteq> []" by (auto simp: quad_def)
  then have plain: "plainName c" using v4(2) plainName_decimals by simp
  have "endsInNumericLabel c" using endsInNumericLabel_decimals [OF \<open>fs \<noteq> []\<close>] v4(2) by simp
  then show ?thesis
    using plainName_lowered [OF laws plain] ParseAddr_quad [OF v4(1), of env] v4(2)
    by (simp add: canonicalName_def canonicalIPv4_def)
next
  case (lit4 fs)
  let ?t = "join ''.'' (map decimal fs)"
  have "fs \<noteq> []" using lit4(1) by (auto simp: quad_def)
  then have "plainName ?t" by (rule plainName_decimals)
  from bracket_lowered [OF laws plainName_bracket [OF this]]
  have "ai_ToLower env (trimSuffixDot c) = c" unfolding lit4(2) .
  then show ?thesis
    using ParseAddr_quad [OF lit4(1), of env] lit4(2) by (simp add: canonicalName_def canonicalIPLiteral_def)
next
  case (lit6 t)
  then have "ai_ToLower env (trimSuffixDot c) = c"
    using bracket_lowered [OF laws] ipv6_text_chars(4,5) [OF lit6(1)] by simp
  then show ?thesis
    using ParseAddr_ipv6_text [OF lit6(1,2)] lit6(3) by (simp add: canonicalName_def canonicalIPLiteral_def)
qed

lemma splitHostPort_canonical:
  assumes laws: "agentid_laws env" and c: "canonicalName env n = Some c"
  shows "splitHostPort c = (c, [])"
  using laws c
proof (cases rule: canonicalName_cases)
  case name
  then show ?thesis by (intro splitHostPort_plain plainName_hostname)
next
  case (v4 fs)
  then show ?thesis by (auto simp: quad_def intro!: splitHostPort_plain plainName_decimals)
next
  case (lit4 fs)
  show ?thesis unfolding lit4(2) by (intro splitHostPort_bracket decimals_no_bracket)
next
  case (lit6 t)
  show ?thesis unfolding lit6(3) by (intro splitHostPort_bracket ipv6_text_chars [OF lit6(1)])
qed

lemma splitHostPort_canonical_port:
  assumes laws: "agentid_laws env" and c: "canonicalName env n = Some c"
    and n: "take 1 n = ''['' \<Longrightarrow> CHR '':'' \<in> set n" and p: "list_all isDigit p"
  shows "splitHostPort (c @ '':'' @ p) = (c, p)"
  using laws c
proof (cases rule: canonicalName_cases)
  case name
  then show ?thesis using splitHostPort_plain_port [OF plainName_hostname p] by simp
next
  case (v4 fs)
  then have "fs \<noteq> []" by (auto simp: quad_def)
  then show ?thesis using splitHostPort_plain_port [OF plainName_decimals p] v4(2) by simp
next
  case (lit4 fs)
  then show ?thesis using n by blast
next
  case (lit6 t)
  then show ?thesis
    using splitHostPort_bracket_port [OF ipv6_text_chars(1-3) [OF lit6(1)] p] by simp
qed

lemma canonicalHost_idem:
  assumes laws: "agentid_laws env" and c: "canonicalHost env h = Some c"
  shows "canonicalHost env c = Some c"
proof -
  obtain rawName rawPort port name where s: "splitHostPort h = (rawName, rawPort)"
      "canonicalPort rawPort = Some port"
      "canonicalName env (ai_ToLower env (trimSuffixDot rawName)) = Some name"
      "c = (if port = [] then name else name @ '':'' @ port)"
    using c by (auto simp: canonicalHost_def split: prod.splits option.splits)
  have again: "canonicalName env (ai_ToLower env (trimSuffixDot name)) = Some name"
    by (rule canonicalName_idem [OF laws s(3)])
  show ?thesis
    using s(2)
  proof (cases rule: canonicalPort_SomeD)
    case 1
    then show ?thesis
      using s(4) splitHostPort_canonical [OF laws s(3)] again
      by (simp add: canonicalHost_def canonicalPort_def)
  next
    case (2 n)
    let ?low = "ai_ToLower env (trimSuffixDot rawName)"
    have keep: "x \<in> set ?low \<longleftrightarrow> x \<in> set rawName" if "x = CHR ''['' \<or> x = CHR '':''" for x
      using that ToLower_mark [OF laws, of x] set_trimSuffixDot [of x rawName]
      by (auto simp: authority_marks_def)
    have "CHR '':'' \<in> set ?low" if "take 1 ?low = ''[''"
    proof -
      from that have "CHR ''['' \<in> set ?low" by (cases ?low) auto
      moreover have "net_SplitHostPort h \<noteq> None"
        using s(1) 2(6) by (cases "net_SplitHostPort h") (auto simp: splitHostPort_def)
      ultimately show ?thesis using keep splitHostPort_port_name [OF s(1)] by blast
    qed
    then have "splitHostPort (name @ '':'' @ port) = (name, port)"
      using splitHostPort_canonical_port [OF laws s(3)] isDigit_decimal 2(1) by blast
    then show ?thesis
      using s(4) again canonicalPort_decimal [OF 2(2-5)] 2(1)
      by (simp add: canonicalHost_def)
  qed
qed

text \<open>What \<open>net/url\<close> and \<open>TrimSpace\<close> document: an authority made of host characters, or a bracketed
  IPv6 address, with an optional decimal port parses to itself; a bracketed host is an IPv6 address.\<close>

definition url_authority :: "string \<Rightarrow> bool" where
  "url_authority c \<longleftrightarrow> (\<exists>n p. c = n @ p \<and>
     ((n \<noteq> [] \<and> set n \<subseteq> insert (CHR ''.'') (set hostChars)) \<or> (\<exists>t. n = ''['' @ t @ '']'' \<and> ipv6_text t)) \<and>
     (p = [] \<or> (\<exists>k. p = '':'' @ decimal k \<and> 1 \<le> k \<and> k \<le> 65535)))"

definition url_laws :: "agentid_env \<Rightarrow> bool" where
  "url_laws env \<longleftrightarrow>
     (\<forall>c. url_authority c \<longrightarrow> ai_TrimSpace env c = c \<and>
        (\<exists>u. ai_urlParse env (''https://'' @ c @ Path) = Some u \<and> u_Host u = c)) \<and>
     (\<forall>s u. ai_urlParse env s = Some u \<longrightarrow> take 1 (u_Host u) = ''['' \<longrightarrow> CHR '':'' \<in> set (u_Host u))"

lemma containsStr_set:
  assumes "containsStr sub s" "c \<in> set sub"
  shows "c \<in> set s"
proof -
  obtain i where "take (length sub) (drop i s) = sub" using assms(1) by (auto simp: containsStr_def list_ex_iff)
  then show ?thesis using assms(2) by (metis in_set_dropD in_set_takeD)
qed

lemma hostChars_no_slash: "CHR ''/'' \<notin> set hostChars"
  by (simp add: hostChars_def)

lemma url_authority_no_slash:
  assumes "url_authority c"
  shows "CHR ''/'' \<notin> set c" "c \<noteq> []"
proof -
  obtain n p where c: "c = n @ p" and n: "(n \<noteq> [] \<and> set n \<subseteq> insert (CHR ''.'') (set hostChars)) \<or> (\<exists>t. n = ''['' @ t @ '']'' \<and> ipv6_text t)"
    and p: "p = [] \<or> (\<exists>k. p = '':'' @ decimal k \<and> 1 \<le> k \<and> k \<le> 65535)"
    using assms unfolding url_authority_def by blast
  have "CHR ''/'' \<notin> set ipv6Chars" by (simp add: ipv6Chars_def)
  then have "CHR ''/'' \<notin> set n"
    using n hostChars_no_slash unfolding ipv6_text_def by auto
  moreover have "CHR ''/'' \<notin> set (decimal k)" for k
    using isDigit_decimal [of k] by (auto simp: list_all_iff isDigit_def)
  ultimately show "CHR ''/'' \<notin> set c" "c \<noteq> []"
    using c n p by auto
qed

lemma HostOf_authority:
  assumes "url_laws env" "url_authority c"
  shows "HostOf env c = Some c"
proof -
  have "\<not> containsStr ''://'' c"
    using containsStr_set [of "''://''" c "CHR ''/''"] url_authority_no_slash [OF assms(2)] by auto
  moreover obtain u where "ai_TrimSpace env c = c" "ai_urlParse env (''https://'' @ c @ Path) = Some u" "u_Host u = c"
    using assms unfolding url_laws_def by blast
  ultimately show ?thesis
    using url_authority_no_slash(2) [OF assms(2)]
    by (simp add: HostOf_def ManifestURL_def wellKnownURL_def Let_def)
qed

lemma hostname_chars:
  assumes "checkHostName n"
  shows "n \<noteq> []" "set n \<subseteq> insert (CHR ''.'') (set hostChars)"
proof -
  show "n \<noteq> []" using assms by (simp add: checkHostName_def)
  have "set l \<subseteq> set hostChars" if "l \<in> set (splitOn (CHR ''.'') n)" for l
    using assms that by (auto simp: checkHostName_def list_all_iff)
  then show "set n \<subseteq> insert (CHR ''.'') (set hostChars)"
    using set_splitOn [of n "CHR ''.''"] by blast
qed

lemma isDigit_hostChars: "isDigit c \<Longrightarrow> c \<in> set hostChars"
proof -
  assume "isDigit c"
  then have "(of_char c :: nat) \<in> set [48 ..< 58]" unfolding isDigit_def set_upt atLeastLessThan_iff by linarith
  moreover have "\<forall>n \<in> set [48 ..< 58 :: nat]. char_of n \<in> set hostChars" by code_simp
  ultimately have "char_of (of_char c :: nat) \<in> set hostChars" by blast
  then show ?thesis by simp
qed

lemma decimals_hostChars: "set (join ''.'' (map decimal fs)) \<subseteq> insert (CHR ''.'') (set hostChars)"
proof
  fix x assume "x \<in> set (join ''.'' (map decimal fs))"
  then show "x \<in> insert (CHR ''.'') (set hostChars)"
    using set_join [of x "''.''" "map decimal fs"] isDigit_decimal isDigit_hostChars
    by (auto simp: list_all_iff)
qed

text \<open>The name half of a canonical host reached through a parsed URL is never a bracketed IPv4 address.\<close>

lemma canonicalName_not_lit4:
  assumes laws: "agentid_laws env" and s: "splitHostPort h = (n, p)"
    and h: "take 1 h = ''['' \<Longrightarrow> CHR '':'' \<in> set h"
    and low: "take 1 (ai_ToLower env (trimSuffixDot n)) = ''[''"
  shows "CHR '':'' \<in> set (ai_ToLower env (trimSuffixDot n))"
proof -
  have "take 1 (trimSuffixDot n) = ''[''" using low laws unfolding agentid_laws_def by blast
  then have n: "take 1 n = ''[''" "CHR ''['' \<in> set n"
    by (cases n; cases "tl n"; auto simp: trimSuffixDot_def split: if_splits)+
  have "CHR '':'' \<in> set n"
  proof (cases "net_SplitHostPort h")
    case None
    then have "n = h" using s by (simp add: splitHostPort_def)
    then show ?thesis using h n by blast
  next
    case (Some mp)
    then show ?thesis using splitHostPort_port_name [OF s _ n(2)] by simp
  qed
  then show ?thesis
    using ToLower_mark [OF laws, of "CHR '':''"] set_trimSuffixDot [of "CHR '':''" n]
    by (simp add: authority_marks_def)
qed

lemma canonicalHost_authority:
  assumes laws: "agentid_laws env" and c: "canonicalHost env h = Some c"
    and h: "take 1 h = ''['' \<Longrightarrow> CHR '':'' \<in> set h"
  shows "url_authority c"
proof -
  obtain rawName rawPort port name where s: "splitHostPort h = (rawName, rawPort)"
      "canonicalPort rawPort = Some port"
      "canonicalName env (ai_ToLower env (trimSuffixDot rawName)) = Some name"
      "c = name @ (if port = [] then [] else '':'' @ port)"
    using c by (auto simp: canonicalHost_def split: prod.splits option.splits)
  have p: "port = [] \<or> (\<exists>k. port = decimal k \<and> 1 \<le> k \<and> k \<le> 65535)"
    using s(2) by (cases rule: canonicalPort_SomeD) auto
  have "(name \<noteq> [] \<and> set name \<subseteq> insert (CHR ''.'') (set hostChars)) \<or> (\<exists>t. name = ''['' @ t @ '']'' \<and> ipv6_text t)"
    using laws s(3)
  proof (cases rule: canonicalName_cases)
    case name
    then show ?thesis using hostname_chars by blast
  next
    case (v4 fs)
    then have "fs \<noteq> []" by (auto simp: quad_def)
    then have "name \<noteq> []" using join_last [of "map decimal fs" "''.''"] v4(2) by auto
    then show ?thesis using decimals_hostChars v4(2) by simp
  next
    case (lit4 fs)
    then show ?thesis using canonicalName_not_lit4 [OF laws s(1) h] by blast
  next
    case (lit6 t)
    then show ?thesis by blast
  qed
  then show ?thesis
    unfolding url_authority_def s(4) using p by (intro exI conjI refl) auto
qed

lemma FromDirectory_idem:
  assumes "agentid_laws env" "url_laws env" "FromDirectory env d = Some c"
  shows "FromDirectory env c = Some c"
proof -
  obtain h where h: "HostOf env d = Some h" "canonicalHost env h = Some c"
    using assms(3) by (auto simp: FromDirectory_def split: option.splits if_splits)
  have "take 1 h = ''['' \<Longrightarrow> CHR '':'' \<in> set h"
    using h(1) assms(2) unfolding HostOf_def url_laws_def by (auto split: option.splits)
  then have "url_authority c" by (rule canonicalHost_authority [OF assms(1) h(2)])
  then show ?thesis
    using HostOf_authority [OF assms(2)] url_authority_no_slash(2) canonicalHost_idem [OF assms(1) h(2)]
    by (simp add: FromDirectory_def)
qed

section \<open>Which spellings are one identity\<close>

lemma undecimal_single: "isDigit d \<Longrightarrow> undecimal [d] < 10 \<and> digit_char (undecimal [d]) = d"
  by (auto simp: isDigit_def undecimal_def char_digit_def digit_char_def)

lemma decimal_undecimal:
  "f \<noteq> [] \<Longrightarrow> list_all isDigit f \<Longrightarrow> (take 1 f = ''0'' \<longrightarrow> length f = 1) \<Longrightarrow> decimal (undecimal f) = f"
proof (induction f rule: rev_induct)
  case (snoc d g)
  have d: "undecimal [d] < 10" "digit_char (undecimal [d]) = d" "char_digit d = undecimal [d]"
    using undecimal_single [of d] snoc.prems by (auto simp: undecimal_def)
  show ?case
  proof (cases "g = []")
    case True
    then show ?thesis using d by (subst decimal.simps) simp
  next
    case False
    have g: "take 1 g \<noteq> ''0''" using False snoc.prems(3) by (cases g) auto
    then have IH: "decimal (undecimal g) = g" using snoc False by simp
    have "undecimal g \<noteq> 0"
    proof
      assume "undecimal g = 0"
      then have "g = decimal 0" using IH by simp
      moreover have "decimal 0 = ''0''" by code_simp
      ultimately show False using g by simp
    qed
    then show ?thesis
      using d IH by (subst decimal.simps) (simp add: undecimal_append)
  qed
qed simp

lemma splitOn_join: "join [c] (splitOn c s) = s"
proof (induction s)
  case (Cons d s)
  then show ?case by (cases "splitOn c s"; cases "tl (splitOn c s)") auto
qed simp

lemma parseIPv4_text:
  assumes "parseIPv4 s = Some (Addr4 fs)"
  shows "join ''.'' (map decimal fs) = s"
proof -
  let ?ls = "splitOn (CHR ''.'') s"
  have fs: "fs = map undecimal ?ls" "list_all octet ?ls"
    using assms by (auto simp: parseIPv4_def Let_def split: if_splits)
  then have "map decimal fs = ?ls"
    using decimal_undecimal by (auto simp: list_all_iff octet_def intro: map_idI)
  then show ?thesis by (simp add: splitOn_join)
qed

lemma canonicalName_fix:
  assumes "isASCII n" "CHR ''['' \<notin> set n" "canonicalName env n = Some c"
  shows "c = n"
proof -
  have "take 1 n \<noteq> ''[''" using assms(2) by (cases n) auto
  then have n: "(if endsInNumericLabel n then canonicalIPv4 env n else if checkHostName n then Some n else None) = Some c"
    using assms(1,3) by (simp add: canonicalName_def)
  show ?thesis
  proof (cases "endsInNumericLabel n")
    case True
    then obtain fs where "ParseAddr env n = Some (Addr4 fs)" "c = join ''.'' (map decimal fs)"
      using n by (auto simp: canonicalIPv4_def split: option.splits if_splits elim!: Is4.elims)
    moreover from this(1) have "parseIPv4 n = Some (Addr4 fs)"
      by (auto simp: ParseAddr_def split: list.splits if_splits)
    ultimately show ?thesis using parseIPv4_text by simp
  next
    case False
    then show ?thesis using n by (simp split: if_splits)
  qed
qed

text \<open>An ASCII host name with an optional decimal port, as an agent may spell it.\<close>

definition ref_ok :: "string \<Rightarrow> string option \<Rightarrow> bool" where
  "ref_ok n po \<longleftrightarrow> isASCII n \<and> CHR '':'' \<notin> set n \<and> CHR ''['' \<notin> set n \<and> CHR '']'' \<notin> set n \<and>
     (case po of None \<Rightarrow> True | Some p \<Rightarrow> list_all isDigit p)"

definition ref_text :: "string \<Rightarrow> string option \<Rightarrow> string" where
  "ref_text n po = (case po of None \<Rightarrow> n | Some p \<Rightarrow> n @ '':'' @ p)"

definition ref_port :: "string option \<Rightarrow> nat" where
  "ref_port po = (case po of None \<Rightarrow> 0
     | Some p \<Rightarrow> if p = [] \<or> undecimal p = 80 \<or> undecimal p = 443 then 0 else undecimal p)"

definition ref_name :: "string \<Rightarrow> string" where
  "ref_name n = map ascii_lower (trimSuffixDot n)"

lemma ascii_lower_ascii: "of_char c < (128 :: nat) \<Longrightarrow> of_char (ascii_lower c) < (128 :: nat)"
  by (auto simp: ascii_lower_def)

lemma ascii_lower_mark: "ascii_lower c \<in> set authority_marks \<longleftrightarrow> c \<in> set authority_marks \<and> ascii_lower c = c"
proof (cases "65 \<le> (of_char c :: nat) \<and> of_char c \<le> (90 :: nat)")
  case True
  have m: "of_char x \<in> {58, 91, 93, 46 :: nat}" if "x \<in> set authority_marks" for x
    using that by (auto simp: authority_marks_def)
  have "of_char (ascii_lower c) = (of_char c + 32 :: nat)"
    using True by (simp add: ascii_lower_def)
  then show ?thesis using True m [of c] m [of "ascii_lower c"] by auto
next
  case False
  then have "ascii_lower c = c" by (auto simp: ascii_lower_def)
  then show ?thesis by simp
qed

lemma ref_name_unmarked:
  assumes "ref_ok n po"
  shows "isASCII (ref_name n)" "CHR '':'' \<notin> set (ref_name n)" "CHR ''['' \<notin> set (ref_name n)"
proof -
  have sub: "set (trimSuffixDot n) \<subseteq> set n" by (auto simp: trimSuffixDot_def dest: in_set_butlastD)
  show "isASCII (ref_name n)"
    using assms sub ascii_lower_ascii by (auto simp: ref_ok_def ref_name_def isASCII_def list_all_iff)
  have "m \<notin> set (ref_name n)" if m: "m \<in> set authority_marks" "m \<notin> set n" for m
  proof
    assume "m \<in> set (ref_name n)"
    then obtain x where "x \<in> set n" "m = ascii_lower x" using sub by (auto simp: ref_name_def)
    then show False using m ascii_lower_mark by metis
  qed
  then show "CHR '':'' \<notin> set (ref_name n)" "CHR ''['' \<notin> set (ref_name n)"
    using assms by (auto simp: ref_ok_def authority_marks_def)
qed

lemma canonicalPort_value:
  assumes "list_all isDigit p" "canonicalPort p = Some q"
  shows "q = (if ref_port (Some p) = 0 then [] else decimal (ref_port (Some p)))"
proof (cases "p = []")
  case True
  then show ?thesis using assms(2) by (simp add: canonicalPort_def ref_port_def)
next
  case False
  have "take 1 p \<noteq> ''-''" "take 1 p \<noteq> ''+''" using assms(1) by (cases p; auto simp: isDigit_def)+
  then have "Atoi p = (if int64 (int (undecimal p)) then Some (int (undecimal p)) else None)"
    using assms(1) False by (simp add: Atoi_def Let_def)
  then show ?thesis
    using assms(2) False by (auto simp: canonicalPort_def ref_port_def decimal_int_def split: if_splits)
qed

lemma canonicalHost_ref:
  assumes laws: "agentid_laws env" and r: "ref_ok n po" and c: "canonicalHost env (ref_text n po) = Some c"
  shows "c = ref_name n @ (if ref_port po = 0 then [] else '':'' @ decimal (ref_port po))"
proof -
  have split: "splitHostPort (ref_text n po) = (n, case po of None \<Rightarrow> [] | Some p \<Rightarrow> p)"
  proof (cases po)
    case None
    then show ?thesis using r by (simp add: ref_text_def ref_ok_def splitHostPort_def net_SplitHostPort_def)
  next
    case (Some p)
    then show ?thesis using r splitHostPort_unmarked [of n p] by (simp add: ref_text_def ref_ok_def)
  qed
  have "isASCII (trimSuffixDot n)"
    using r by (auto simp: ref_ok_def isASCII_def list_all_iff trimSuffixDot_def dest: in_set_butlastD)
  then have low: "ai_ToLower env (trimSuffixDot n) = ref_name n"
    using laws by (simp add: agentid_laws_def ref_name_def)
  obtain q name where q: "canonicalPort (case po of None \<Rightarrow> [] | Some p \<Rightarrow> p) = Some q"
      "canonicalName env (ref_name n) = Some name" "c = (if q = [] then name else name @ '':'' @ q)"
    using c split low by (auto simp: canonicalHost_def split: option.splits)
  have "name = ref_name n"
    using canonicalName_fix [OF ref_name_unmarked(1,3) [OF r] q(2)] .
  moreover have "q = (if ref_port po = 0 then [] else decimal (ref_port po))"
  proof (cases po)
    case None
    then show ?thesis using q(1) by (simp add: canonicalPort_def ref_port_def)
  next
    case (Some p)
    then show ?thesis using q(1) canonicalPort_value [of p q] r by (simp add: ref_ok_def)
  qed
  ultimately show ?thesis using q(3) by simp
qed

section \<open>Statements\<close>

text \<open>C29. An identity is a fixed point: whatever directory reference an agent signed, reading the
  identity derived from it as a directory reference again gives the same identity, so the stored
  key, the budget key and every later comparison use one string.\<close>

theorem FromDirectory_idempotent:
  assumes "agentid_laws env" "url_laws env" "FromDirectory env directory = Some identity"
  shows "FromDirectory env identity = Some identity"
  using assms by (rule FromDirectory_idem)

text \<open>C30. Exactly the aliases are merged: two ASCII host references, with or without a port, get one
  identity precisely when their names agree up to letter case and one trailing dot and their ports
  denote the same number, where no port, 80 and 443 count as the same and padding zeros do not matter.\<close>

theorem canonicalHost_merges_aliases:
  assumes "agentid_laws env" "ref_ok n1 p1" "ref_ok n2 p2"
    and "canonicalHost env (ref_text n1 p1) = Some c1" "canonicalHost env (ref_text n2 p2) = Some c2"
  shows "c1 = c2 \<longleftrightarrow> ref_name n1 = ref_name n2 \<and> ref_port p1 = ref_port p2"
proof -
  let ?s = "\<lambda>k. if k = 0 then [] else '':'' @ decimal k"
  have c: "c1 = ref_name n1 @ ?s (ref_port p1)" "c2 = ref_name n2 @ ?s (ref_port p2)"
    using canonicalHost_ref assms by blast+
  have no: "CHR '':'' \<notin> set (ref_name n1)" "CHR '':'' \<notin> set (ref_name n2)"
    using ref_name_unmarked(2) assms(2,3) by blast+
  have "ref_name n1 = ref_name n2 \<and> ref_port p1 = ref_port p2" if eq: "c1 = c2"
  proof -
    have "CHR '':'' \<in> set c1 \<longleftrightarrow> ref_port p1 \<noteq> 0" "CHR '':'' \<in> set c2 \<longleftrightarrow> ref_port p2 \<noteq> 0"
      using c no by (auto split: if_splits)
    then have iff: "ref_port p1 = 0 \<longleftrightarrow> ref_port p2 = 0" using eq by auto
    show ?thesis
    proof (cases "ref_port p1 = 0")
      case True
      then show ?thesis using c eq iff by simp
    next
      case False
      then have "ref_name n1 @ CHR '':'' # decimal (ref_port p1) = ref_name n2 @ CHR '':'' # decimal (ref_port p2)"
        using c eq iff by simp
      from split_at_delim [OF this no] show ?thesis using decimal_inj by blast
    qed
  qed
  then show ?thesis using c by auto
qed

section \<open>A concrete environment\<close>

definition exAgentid :: agentid_env where
  "exAgentid = \<lparr>ai_TrimSpace = (\<lambda>s. s), ai_ToLower = map ascii_lower, ai_ToASCII = (\<lambda>s. None),
     ai_parseIPv6 = (\<lambda>s. if s = ''::1'' \<or> s = ''0:0:0:0:0:0:0:1'' then Some (''::1'', []) else None),
     ai_UnmarshalItem = (\<lambda>s. Some (SfToken s)),
     ai_urlParse = (\<lambda>s. if take 8 s \<noteq> ''https://'' then None
        else let h = takeWhile (\<lambda>c. c \<noteq> CHR ''/'') (drop 8 s)
             in if take 1 h = ''['' \<and> CHR '':'' \<notin> set h then None
                else Some \<lparr>u_Scheme = ''https'', u_Host = h,
                  u_Path = dropWhile (\<lambda>c. c \<noteq> CHR ''/'') (drop 8 s), u_RawQuery = [], u_Rest = []\<rparr>),
     ai_urlString = (\<lambda>u. ''https://'' @ u_Host u @ u_Path u)\<rparr>"

lemma exAgentid_laws: "agentid_laws exAgentid"
proof -
  have low: "ascii_lower a = m \<longleftrightarrow> a = m" if "m \<in> set authority_marks" for a m
  proof
    assume "ascii_lower a = m"
    then show "a = m" using that ascii_lower_mark [of a] by simp
  next
    assume "a = m"
    then show "ascii_lower a = m" using that by (auto simp: authority_marks_def ascii_lower_def)
  qed
  have "take 1 (map ascii_lower s) = ''['' \<longleftrightarrow> take 1 s = ''[''" for s
    using low [of "CHR ''[''"] by (cases s) (auto simp: authority_marks_def)
  moreover have "filter (\<lambda>c. c \<in> set authority_marks) (map ascii_lower s) = filter (\<lambda>c. c \<in> set authority_marks) s" for s
    by (induction s) (use ascii_lower_mark low in auto)
  moreover have "ipv6_text ''::1''"
    unfolding ipv6_text_def by (auto simp: ipv6Chars_def intro: exI [of _ "[]"])
  ultimately show ?thesis by (simp add: agentid_laws_def exAgentid_def)
qed

lemma url_authority_bracket:
  assumes "url_authority c" "take 1 c = ''[''"
  shows "CHR '':'' \<in> set c"
proof -
  obtain n p where c: "c = n @ p" "(n \<noteq> [] \<and> set n \<subseteq> insert (CHR ''.'') (set hostChars)) \<or> (\<exists>t. n = ''['' @ t @ '']'' \<and> ipv6_text t)"
    using assms(1) unfolding url_authority_def by blast
  from c(2) show ?thesis
  proof
    assume n: "n \<noteq> [] \<and> set n \<subseteq> insert (CHR ''.'') (set hostChars)"
    then have "hd n \<in> insert (CHR ''.'') (set hostChars)" "hd n = CHR ''[''"
      using assms(2) c(1) hd_in_set by (cases n; auto)+
    then show ?thesis by (simp add: hostChars_def)
  next
    assume "\<exists>t. n = ''['' @ t @ '']'' \<and> ipv6_text t"
    then show ?thesis using c(1) ipv6_text_chars(3) by auto
  qed
qed

lemma exAgentid_url_laws: "url_laws exAgentid"
proof -
  have "\<exists>u. ai_urlParse exAgentid (''https://'' @ c @ Path) = Some u \<and> u_Host u = c" if c: "url_authority c" for c
  proof -
    have "takeWhile (\<lambda>x. x \<noteq> CHR ''/'') (c @ Path) = c"
      using url_authority_no_slash(1) [OF c] by (subst takeWhile_append2) (auto simp: Path_def)
    then show ?thesis
      using url_authority_bracket [OF c] by (auto simp: exAgentid_def Let_def)
  qed
  then show ?thesis by (auto simp: url_laws_def exAgentid_def Let_def split: if_splits)
qed

theorem FromDirectory_idempotent_witness:
  "FromDirectory exAgentid ''https://Agent.Example.:081'' = Some ''agent.example:81'' \<and>
   FromDirectory exAgentid ''agent.example:81'' = Some ''agent.example:81''"
proof -
  have "FromDirectory exAgentid ''https://Agent.Example.:081'' = Some ''agent.example:81''"
    by code_simp
  with FromDirectory_idempotent [OF exAgentid_laws exAgentid_url_laws this] show ?thesis by blast
qed

theorem canonicalHost_merges_aliases_witness:
  "canonicalHost exAgentid ''Agent.Example:0443'' = Some ''agent.example'' \<and>
   canonicalHost exAgentid ''agent.example.'' = Some ''agent.example'' \<and>
   ref_port (Some ''0443'') = ref_port None"
proof -
  have "canonicalHost exAgentid (ref_text ''Agent.Example'' (Some ''0443'')) = Some ''agent.example''"
       "canonicalHost exAgentid (ref_text ''agent.example.'' None) = Some ''agent.example''"
    by code_simp+
  moreover have "ref_ok ''Agent.Example'' (Some ''0443'')" "ref_ok ''agent.example.'' None" by code_simp+
  ultimately have "ref_port (Some ''0443'') = ref_port None"
    using canonicalHost_merges_aliases [OF exAgentid_laws, of "''Agent.Example''" "Some ''0443''" "''agent.example.''" None] by blast
  moreover have "canonicalHost exAgentid ''Agent.Example:0443'' = Some ''agent.example''"
       "canonicalHost exAgentid ''agent.example.'' = Some ''agent.example''"
    by code_simp+
  ultimately show ?thesis by blast
qed

end
