(* ===== verification/Broker_Resolve.thy ===== *)
theory Broker_Resolve
  imports Broker_Relay Broker_Budget Agent_Id
begin

text \<open>
  Discovery in the Broker: the Resolve call from the wire request to the wire response. Input
  mapping and admission (\<open>transport/canonical.go\<close>, \<open>resolve_input.go\<close>, \<open>hopguard.go\<close>, \<open>money.go\<close>,
  \<open>broker_connect_handler.go\<close>), publisher probing (\<open>probe/probe.go\<close>), routing by manifest
  (\<open>resolve/routing.go\<close>), the queries and their verified offers (\<open>resolve/discover.go\<close>), the refusal
  reasons (\<open>resolve/responses.go\<close>) and the call itself (\<open>resolve/resolve.go\<close>). The manifest cache, the
  search service, endpoint resolution, signing, the exchanges and the offer verifier are fields of
  \<open>resolve_env\<close>; \<open>vs_calls\<close> records every query sent.
\<close>

section \<open>Messages\<close>

datatype RestrictionKind = RESTRICTION_KIND_FUNCTION | RESTRICTION_KIND_OTHER nat

record DiscoveryRequest =
  dq_Requester :: Requester
  dq_Query :: string
  dq_Uris :: "string list"
  dq_AcceptableRestrictions :: "(RestrictionKind \<times> string list) list"
  dq_Constraints :: "(string option \<times> int option) option"

record Request =
  rt_AgentID :: string
  rt_Query :: string
  rt_URI :: string
  rt_URIs :: "string list"
  rt_BudgetMinor :: int
  rt_RequesterDom :: string
  rt_IntendedUse :: string
  rt_MaxHops :: "int option"

record ResourceQuery =
  qy_Ver :: string
  qy_Exchange :: string
  qy_Requester :: Requester
  qy_Uris :: "string list"
  qy_AcceptableRestrictions :: "(RestrictionKind \<times> string list) list"

text \<open>\<open>rampv1.OfferGroup\<close> as an exchange sends it and as the Broker sends it; an unset reason reads as
  unspecified.\<close>

record WireGroup =
  wg_Uri :: string
  wg_DiscoveryMethod :: "DiscoveryMethod option"
  wg_AbsenceReason :: "OfferAbsenceReason option"
  wg_Offers :: "Offer list"

record DiscoveryResponse =
  dr_Ver :: string
  dr_AbsenceReason :: "OfferAbsenceReason option"
  dr_OfferGroups :: "WireGroup list"

definition GetAbsenceReason :: "WireGroup \<Rightarrow> OfferAbsenceReason" where
  "GetAbsenceReason g = (case wg_AbsenceReason g of None \<Rightarrow> OFFER_ABSENCE_REASON_UNSPECIFIED | Some r \<Rightarrow> r)"

section \<open>Environment and state\<close>

record WellKnownManifest =
  wk_Ver :: string
  wk_Domain :: string
  wk_Exchanges :: "(string \<times> string) list"
  wk_SupportedProfiles :: "string list"

record AuthorizedExchange =
  ax_Domain :: string
  ax_Endpoint :: string
  ax_SupportedProfiles :: "string list"

record Manifest =
  mf_Ver :: string
  mf_Provider :: string
  mf_Exchanges :: "AuthorizedExchange list"

datatype probe_error = ErrInvalidDomain | ErrManifestMissing | ErrProbeFailed

record CandidateInfo =
  ci_OfferID :: string
  ci_ExchangeID :: string
  ci_UnitCost :: string
  ci_TrustLevel :: string

record SelectionLogEntry =
  sl_RequestID :: string
  sl_AgentID :: string
  sl_Query :: string
  sl_CandidateOffers :: "CandidateInfo list"
  sl_Outcome :: string

text \<open>\<open>rv_manifestGet\<close> is the well-known cache (\<open>Inl True\<close> for \<open>ErrNoDocument\<close>); \<open>rv_rangeManifests\<close> the order
  a Go map of manifests is ranged over; \<open>rv_DiscoverResources\<close> takes the number of the call, since an
  exchange may answer two equal queries differently.\<close>

record 'b resolve_env =
  rv_sel :: select_env
  rv_ids :: agentid_env
  rv_budget :: "'b budgetService"
  rv_SignatureAgent :: "string option"
  rv_Search :: "string \<Rightarrow> string list option"
  rv_manifestGet :: "string \<Rightarrow> (bool, WellKnownManifest) res"
  rv_rangeManifests :: "(string \<times> Manifest) list \<Rightarrow> (string \<times> Manifest) list"
  rv_registryDown :: bool
  rv_ResolveEndpoint :: "string \<Rightarrow> (resolve_error, string) res"
  rv_IsBareDomain :: "string \<Rightarrow> bool"
  rv_SignForward :: "ResourceQuery \<Rightarrow> bool"
  rv_DiscoverResources :: "nat \<Rightarrow> string \<Rightarrow> ResourceQuery \<Rightarrow> WireGroup list option"
  rv_Sort :: "Offer list \<Rightarrow> Offer list"
  rv_logFault :: bool
  rv_ProtocolVersion :: string

record 'b resolve_state =
  vs_registry :: "Exchange list"
  vs_budget :: 'b
  vs_log :: "SelectionLogEntry list"
  vs_calls :: "(string \<times> ResourceQuery) list"

text \<open>A fault that wraps a \<open>broker.Error\<close>, or any other error.\<close>

datatype resolve_fault = BrokerFault broker_error | OtherFault

fun bToConnect :: "resolve_fault \<Rightarrow> Code" where
  "bToConnect (BrokerFault e) = bConnectCode (bk_Kind e)"
| "bToConnect OtherFault = CodeInternal"

section \<open>Wire mapping\<close>

fun firstFunctionRestriction :: "(RestrictionKind \<times> string list) list \<Rightarrow> string" where
  "firstFunctionRestriction [] = []"
| "firstFunctionRestriction ((axis, vals) # rs) =
     (if axis \<noteq> RESTRICTION_KIND_FUNCTION then firstFunctionRestriction rs
      else case filter (\<lambda>v. v \<noteq> []) vals of
             [] \<Rightarrow> firstFunctionRestriction rs
           | v # _ \<Rightarrow> v)"

definition moneyStringToFixedPoint :: "select_env \<Rightarrow> string \<Rightarrow> int option" where
  "moneyStringToFixedPoint sel s =
     (if s = [] then Some 0
      else case se_ParseMoney sel s of
             None \<Rightarrow> None
           | Some d \<Rightarrow> Some (DecimalToFixedPoint sel d))"

definition rampRequestToInput :: "select_env \<Rightarrow> DiscoveryRequest \<Rightarrow> Request" where
  "rampRequestToInput sel rr =
     \<lparr>rt_AgentID = rr_Id (dq_Requester rr), rt_Query = dq_Query rr,
      rt_URI = (case dq_Uris rr of [] \<Rightarrow> [] | u # _ \<Rightarrow> u), rt_URIs = dq_Uris rr,
      rt_BudgetMinor =
        (case dq_Constraints rr of
           Some (Some amount, _) \<Rightarrow> (case moneyStringToFixedPoint sel amount of None \<Rightarrow> 0 | Some v \<Rightarrow> v)
         | _ \<Rightarrow> 0),
      rt_RequesterDom = rr_Domain (dq_Requester rr),
      rt_IntendedUse = firstFunctionRestriction (dq_AcceptableRestrictions rr),
      rt_MaxHops = (case dq_Constraints rr of Some (_, h) \<Rightarrow> h | None \<Rightarrow> None)\<rparr>"

definition toWireOfferGroup :: "OfferGroup \<Rightarrow> WireGroup" where
  "toWireOfferGroup g =
     \<lparr>wg_Uri = og_URI g,
      wg_DiscoveryMethod =
        (if og_DiscoveryMethod g \<noteq> DISCOVERY_METHOD_UNSPECIFIED then Some (og_DiscoveryMethod g) else None),
      wg_AbsenceReason =
        (if og_Offers g = [] \<and> og_AbsenceReason g \<noteq> OFFER_ABSENCE_REASON_UNSPECIFIED
         then Some (og_AbsenceReason g) else None),
      wg_Offers = map cd_Offer (og_Offers g)\<rparr>"

record Response =
  rsp_ExchangeID :: string
  rsp_AbsenceReason :: OfferAbsenceReason
  rsp_Groups :: "OfferGroup list"

definition toDiscoveryResponse :: "string \<Rightarrow> Response \<Rightarrow> DiscoveryResponse" where
  "toDiscoveryResponse ver r =
     \<lparr>dr_Ver = ver,
      dr_AbsenceReason =
        (if rsp_AbsenceReason r \<noteq> OFFER_ABSENCE_REASON_UNSPECIFIED then Some (rsp_AbsenceReason r) else None),
      dr_OfferGroups = map toWireOfferGroup (rsp_Groups r)\<rparr>"

section \<open>Admission\<close>

definition brokerIntermediaryHops :: int where "brokerIntermediaryHops = 1"

definition enforceHopBudget :: "int option \<Rightarrow> broker_error option" where
  "enforceHopBudget maxHops =
     (case maxHops of
        None \<Rightarrow> None
      | Some h \<Rightarrow>
          if brokerIntermediaryHops > h then Some (bWithField (bNewf BKindInvalidArgument) ''max_hops'') else None)"

text \<open>The pointer parameter is returned rewritten.\<close>

definition validateAndCanonicalizeRequest :: "agentid_env \<Rightarrow> Request \<Rightarrow> (broker_error, Request) res" where
  "validateAndCanonicalizeRequest ids req =
     (if rt_AgentID req = [] then Inl (bWithField (bNewf BKindInvalidArgument) ''agent_id'')
      else case FromDirectory ids (rt_AgentID req) of
             None \<Rightarrow> Inl (bWithField (bNewf BKindInvalidArgument) ''agent_id'')
           | Some agentID \<Rightarrow>
               if rt_Query req = [] \<and> rt_URI req = []
               then Inl (bWithMeta (bNewf BKindInvalidArgument) ''required_one_of'' ''query,uri'')
               else (case enforceHopBudget (rt_MaxHops req) of
                       Some e \<Rightarrow> Inl e
                     | None \<Rightarrow> Inr (req\<lparr>rt_AgentID := agentID\<rparr>)))"

definition authorizeAgentSelfAct :: "agentid_env \<Rightarrow> string option \<Rightarrow> string \<Rightarrow> broker_error option" where
  "authorizeAgentSelfAct ids signatureAgent agentID =
     (case signatureAgent of
        None \<Rightarrow> Some (bNewf BKindUnauthenticated)
      | Some dir \<Rightarrow>
          if dir = [] then Some (bNewf BKindUnauthenticated)
          else case FromDirectory ids dir of
                 None \<Rightarrow> Some (bNewf BKindUnauthenticated)
               | Some caller \<Rightarrow> if caller \<noteq> agentID then Some (bNewf BKindPermissionDenied) else None)"

section \<open>Publishers\<close>

definition DomainOf :: "agentid_env \<Rightarrow> string \<Rightarrow> string option" where
  "DomainOf ids raw =
     (case ai_urlParse ids raw of
        None \<Rightarrow> None
      | Some u \<Rightarrow>
          let host = ai_ToLower ids (u_Host u);
              host' = (if take 4 host = ''www.'' then drop 4 host else host)
          in if host' = [] then None else Some host')"

definition toBrokerManifest :: "WellKnownManifest \<Rightarrow> Manifest" where
  "toBrokerManifest m =
     \<lparr>mf_Ver = wk_Ver m, mf_Provider = wk_Domain m,
      mf_Exchanges = map (\<lambda>(d, e). \<lparr>ax_Domain = d, ax_Endpoint = e, ax_SupportedProfiles = wk_SupportedProfiles m\<rparr>)
        (wk_Exchanges m)\<rparr>"

definition Probe :: "'b resolve_env \<Rightarrow> string \<Rightarrow> (probe_error, Manifest) res" where
  "Probe env rawDomain =
     (let domain = ai_TrimSpace (rv_ids env) (ai_ToLower (rv_ids env) rawDomain)
      in if domain = [] then Inl ErrInvalidDomain
         else case rv_manifestGet env domain of
                Inr m \<Rightarrow> Inr (toBrokerManifest m)
              | Inl True \<Rightarrow> Inl ErrManifestMissing
              | Inl False \<Rightarrow> Inl ErrProbeFailed)"

record probeOutcome =
  po_missing :: nat
  po_transient :: nat

fun probeDomains :: "'b resolve_env \<Rightarrow> string list \<Rightarrow> (string \<times> Manifest) list \<times> probeOutcome" where
  "probeDomains env [] = ([], \<lparr>po_missing = 0, po_transient = 0\<rparr>)"
| "probeDomains env (d # ds) =
     (let (out, oc) = probeDomains env ds
      in case Probe env d of
           Inr m \<Rightarrow> ((d, m) # out, oc)
         | Inl ErrManifestMissing \<Rightarrow> (out, oc\<lparr>po_missing := Suc (po_missing oc)\<rparr>)
         | Inl _ \<Rightarrow> (out, oc\<lparr>po_transient := Suc (po_transient oc)\<rparr>))"

definition requestURIs :: "Request \<Rightarrow> string list" where
  "requestURIs req =
     (if rt_URIs req \<noteq> [] then rt_URIs req
      else if rt_URI req \<noteq> [] then [rt_URI req]
      else [])"

fun urisToDomains :: "agentid_env \<Rightarrow> string list \<Rightarrow> string list \<Rightarrow> (broker_error, string list) res" where
  "urisToDomains ids [] out = Inr out"
| "urisToDomains ids (u # us) out =
     (case DomainOf ids u of
        None \<Rightarrow> Inl (bWithField (bNewf BKindInvalidArgument) ''uri'')
      | Some d \<Rightarrow> if d \<in> set out then urisToDomains ids us out else urisToDomains ids us (out @ [d]))"

definition candidateDomains :: "'b resolve_env \<Rightarrow> Request \<Rightarrow> (broker_error, string list) res" where
  "candidateDomains env req =
     (if requestURIs req \<noteq> [] then urisToDomains (rv_ids env) (requestURIs req) []
      else case rv_Search env (rt_Query req) of
             None \<Rightarrow> Inl (bNewf BKindUpstreamUnavailable)
           | Some cands \<Rightarrow>
               let out = rev (remdups (rev (filter (\<lambda>d. d \<noteq> []) cands)))
               in if out = [] then Inl (bNewf BKindNotFound) else Inr out)"

section \<open>Routing\<close>

definition zeroExchange :: Exchange where
  "zeroExchange = \<lparr>xr_ID = [], xr_Domain = [], xr_Endpoint = [], xr_TrustLevel = [], xr_Healthy = False,
     xr_SupportedProfiles = [], xr_Priority = 0\<rparr>"

record routeScan =
  sc_seen :: "string \<rightharpoonup> Exchange"
  sc_sawTransientDecline :: bool

definition newRouteScan :: routeScan where
  "newRouteScan = \<lparr>sc_seen = Map.empty, sc_sawTransientDecline = False\<rparr>"

definition remember :: "string \<Rightarrow> Exchange \<Rightarrow> bool \<Rightarrow> routeScan \<Rightarrow> routeScan" where
  "remember domain ex transient scan =
     scan\<lparr>sc_seen := (sc_seen scan)(domain \<mapsto> ex),
          sc_sawTransientDecline := (sc_sawTransientDecline scan \<or> transient)\<rparr>"

text \<open>\<open>None\<close> is the pair of the zero row and false.\<close>

definition registeredHealthy ::
  "'b resolve_env \<Rightarrow> Exchange list \<Rightarrow> string \<Rightarrow> routeScan \<Rightarrow> Exchange option \<times> routeScan" where
  "registeredHealthy env reg domain scan =
     (case sc_seen scan domain of
        Some ex \<Rightarrow> (if xr_Domain ex \<noteq> [] then Some ex else None, scan)
      | None \<Rightarrow>
          if rv_registryDown env then (None, remember domain zeroExchange True scan)
          else (case GetByDomain domain reg of
                  Inl _ \<Rightarrow> (None, remember domain zeroExchange False scan)
                | Inr m \<Rightarrow>
                    if row_Admission m \<noteq> AdmissionLive
                    then (None, remember domain zeroExchange (row_Admission m = AdmissionDown) scan)
                    else (case rv_ResolveEndpoint env domain of
                            Inl _ \<Rightarrow> (None, remember domain zeroExchange True scan)
                          | Inr endpoint \<Rightarrow>
                              let ex = m\<lparr>xr_Endpoint := endpoint\<rparr>
                              in (Some ex, remember domain ex False scan))))"

fun firstHealthy ::
  "'b resolve_env \<Rightarrow> Exchange list \<Rightarrow> AuthorizedExchange list \<Rightarrow> routeScan \<Rightarrow> Exchange option \<times> routeScan" where
  "firstHealthy env reg [] scan = (None, scan)"
| "firstHealthy env reg (named # rest) scan =
     (case registeredHealthy env reg (ax_Domain named) scan of
        (Some ex, scan') \<Rightarrow> (Some ex, scan')
      | (None, scan') \<Rightarrow> firstHealthy env reg rest scan')"

definition exchangeForURL ::
  "'b resolve_env \<Rightarrow> Exchange list \<Rightarrow> string \<Rightarrow> (string \<times> Manifest) list \<Rightarrow> routeScan \<Rightarrow> Exchange option \<times> routeScan" where
  "exchangeForURL env reg uri manifests scan =
     (case DomainOf (rv_ids env) uri of
        None \<Rightarrow> (None, scan)
      | Some domain \<Rightarrow>
          (case map_of manifests domain of
             None \<Rightarrow> (None, scan)
           | Some manifest \<Rightarrow> firstHealthy env reg (mf_Exchanges manifest) scan))"

text \<open>The plan; \<open>target\<close> is written and never read.\<close>

record routePlan =
  rp_urlOrder :: "string list"
  rp_exchangeURLs :: "string \<Rightarrow> string list"
  rp_exchanges :: "string \<rightharpoonup> Exchange"
  rp_exchangeOrder :: "string list"

definition routeURLTo :: "string \<Rightarrow> Exchange \<Rightarrow> routePlan \<Rightarrow> routePlan" where
  "routeURLTo uri ex p =
     (let d = xr_Domain ex;
          p1 = (if rp_exchanges p d = None
                then p\<lparr>rp_exchanges := (rp_exchanges p)(d \<mapsto> ex), rp_exchangeOrder := rp_exchangeOrder p @ [d]\<rparr>
                else p)
      in p1\<lparr>rp_exchangeURLs := (rp_exchangeURLs p1)(d := rp_exchangeURLs p1 d @ [uri])\<rparr>)"

fun routeURLs ::
  "'b resolve_env \<Rightarrow> Exchange list \<Rightarrow> string list \<Rightarrow> (string \<times> Manifest) list \<Rightarrow> routePlan \<Rightarrow> routeScan \<Rightarrow> routePlan \<times> routeScan" where
  "routeURLs env reg [] manifests p scan = (p, scan)"
| "routeURLs env reg (uri # uris) manifests p scan =
     (let p0 = p\<lparr>rp_urlOrder := rp_urlOrder p @ [uri]\<rparr>
      in case exchangeForURL env reg uri manifests scan of
           (None, scan') \<Rightarrow> routeURLs env reg uris manifests p0 scan'
         | (Some ex, scan') \<Rightarrow> routeURLs env reg uris manifests (routeURLTo uri ex p0) scan')"

definition buildRoutePlan ::
  "'b resolve_env \<Rightarrow> Exchange list \<Rightarrow> string list \<Rightarrow> (string \<times> Manifest) list \<Rightarrow> routePlan \<times> routeScan" where
  "buildRoutePlan env reg uris manifests =
     routeURLs env reg uris manifests
       \<lparr>rp_urlOrder = [], rp_exchangeURLs = (\<lambda>d. []), rp_exchanges = Map.empty, rp_exchangeOrder = []\<rparr>
       newRouteScan"

text \<open>The broadcast path unions the named exchanges of every manifest.\<close>

fun unionExchanges ::
  "'b resolve_env \<Rightarrow> Exchange list \<Rightarrow> AuthorizedExchange list \<Rightarrow> string list \<Rightarrow> Exchange list \<Rightarrow> routeScan \<Rightarrow> Exchange list" where
  "unionExchanges env reg [] seen out scan = out"
| "unionExchanges env reg (ex # exs) seen out scan =
     (if ax_Domain ex \<in> set seen then unionExchanges env reg exs seen out scan
      else case registeredHealthy env reg (ax_Domain ex) scan of
             (None, scan') \<Rightarrow> unionExchanges env reg exs seen out scan'
           | (Some m, scan') \<Rightarrow> unionExchanges env reg exs (xr_Domain m # seen) (out @ [m]) scan')"

definition exchangesFor :: "'b resolve_env \<Rightarrow> Exchange list \<Rightarrow> (string \<times> Manifest) list \<Rightarrow> Exchange list" where
  "exchangesFor env reg manifests =
     unionExchanges env reg (concat (map (\<lambda>(d, m). mf_Exchanges m) (rv_rangeManifests env manifests))) [] [] newRouteScan"

section \<open>Queries\<close>

definition buildRequester :: "Request \<Rightarrow> Requester" where
  "buildRequester req = \<lparr>rr_Id = rt_AgentID req, rr_Domain = rt_RequesterDom req\<rparr>"

definition buildResourceQuery :: "'b resolve_env \<Rightarrow> Request \<Rightarrow> string \<Rightarrow> string list \<Rightarrow> ResourceQuery" where
  "buildResourceQuery env req recipient uris =
     \<lparr>qy_Ver = rv_ProtocolVersion env, qy_Exchange = recipient, qy_Requester = buildRequester req,
      qy_Uris = uris,
      qy_AcceptableRestrictions =
        (if rt_IntendedUse req \<noteq> [] then [(RESTRICTION_KIND_FUNCTION, [rt_IntendedUse req])] else [])\<rparr>"

datatype query_result = QSignForward | QError | QGroups "WireGroup list"

definition queryExchange ::
  "'b resolve_env \<Rightarrow> Request \<Rightarrow> Exchange \<Rightarrow> string list \<Rightarrow> 'b resolve_state \<Rightarrow> query_result \<times> 'b resolve_state" where
  "queryExchange env req ex uris s =
     (if \<not> rv_IsBareDomain env (xr_Domain ex) then (QError, s)
      else let q = buildResourceQuery env req (xr_Domain ex) uris
           in if \<not> rv_SignForward env q then (QSignForward, s)
              else let s' = s\<lparr>vs_calls := vs_calls s @ [(xr_Endpoint ex, q)]\<rparr>
                   in case rv_DiscoverResources env (length (vs_calls s)) (xr_Endpoint ex) q of
                        None \<Rightarrow> (QError, s')
                      | Some groups \<Rightarrow> (QGroups groups, s'))"

definition exchangeRefOf :: "Exchange \<Rightarrow> ExchangeRef" where
  "exchangeRefOf ex = \<lparr>er_Domain = xr_Domain ex, er_Endpoint = xr_Endpoint ex, er_Trust = xr_TrustLevel ex,
     er_Priority = xr_Priority ex\<rparr>"

record discoverFlags =
  fl_scopeRestricted :: bool
  fl_upstreamReason :: OfferAbsenceReason
  fl_allUpstreamFailed :: bool
  fl_namedExchangeDown :: bool

definition zeroFlags :: discoverFlags where
  "zeroFlags = \<lparr>fl_scopeRestricted = False, fl_upstreamReason = OFFER_ABSENCE_REASON_UNSPECIFIED,
     fl_allUpstreamFailed = False, fl_namedExchangeDown = False\<rparr>"

definition isCredentialsRestricted :: "OfferAbsenceReason \<Rightarrow> bool" where
  "isCredentialsRestricted r = (r = OFFER_ABSENCE_REASON_SCOPE_INSUFFICIENT)"

definition zeroGroup :: OfferGroup where
  "zeroGroup = \<lparr>og_URI = [], og_Offers = [], og_AbsenceReason = OFFER_ABSENCE_REASON_UNSPECIFIED,
     og_DiscoveryMethod = DISCOVERY_METHOD_UNSPECIFIED, og_cands = []\<rparr>"

definition groupAt :: "(string \<rightharpoonup> OfferGroup) \<Rightarrow> string \<Rightarrow> OfferGroup" where
  "groupAt byURL uri = (case byURL uri of None \<Rightarrow> zeroGroup | Some g \<Rightarrow> g)"

fun collectGroups ::
  "'b resolve_env \<Rightarrow> ExchangeRef \<Rightarrow> WireGroup list \<Rightarrow> (string \<rightharpoonup> OfferGroup) \<times> discoverFlags \<Rightarrow> (string \<rightharpoonup> OfferGroup) \<times> discoverFlags" where
  "collectGroups env ref [] acc = acc"
| "collectGroups env ref (wg # gs) (byURL, flags) =
     (let uri = wg_Uri wg;
          reason = GetAbsenceReason wg;
          absent = (reason \<noteq> OFFER_ABSENCE_REASON_UNSPECIFIED);
          g0 = groupAt byURL uri;
          g1 = g0\<lparr>og_URI := uri,
            og_cands := og_cands g0 @ map (\<lambda>o1. \<lparr>cd_Offer = o1, cd_Exchange = ref\<rparr>) (rv_Sort env (wg_Offers wg))\<rparr>;
          g2 = (if absent then g1\<lparr>og_AbsenceReason := reason\<rparr> else g1);
          flags' = (if absent then flags\<lparr>fl_upstreamReason := reason,
                       fl_scopeRestricted := (fl_scopeRestricted flags \<or> isCredentialsRestricted reason)\<rparr> else flags)
      in collectGroups env ref gs (byURL(uri \<mapsto> g2), flags'))"

definition assemble :: "select_env \<Rightarrow> routePlan \<Rightarrow> (string \<rightharpoonup> OfferGroup) \<Rightarrow> OfferGroup list" where
  "assemble sel p byURL =
     map (\<lambda>uri. case byURL uri of
                  Some g \<Rightarrow> finalize sel g
                | None \<Rightarrow> zeroGroup\<lparr>og_URI := uri, og_AbsenceReason := OFFER_ABSENCE_REASON_NOT_IN_CATALOG\<rparr>)
       (rp_urlOrder p)"

text \<open>The loop over the exchanges; \<open>None\<close> is the error of a failed signature, the number counts the
  failed calls.\<close>

fun queryRoutes ::
  "'b resolve_env \<Rightarrow> Request \<Rightarrow> (Exchange \<times> string list) list \<Rightarrow> (string \<rightharpoonup> OfferGroup) \<times> discoverFlags \<Rightarrow> nat \<Rightarrow> 'b resolve_state \<Rightarrow>
   (((string \<rightharpoonup> OfferGroup) \<times> discoverFlags) \<times> nat) option \<times> 'b resolve_state" where
  "queryRoutes env req [] acc failures s = (Some (acc, failures), s)"
| "queryRoutes env req ((ex, uris) # rest) acc failures s =
     (case queryExchange env req ex uris s of
        (QSignForward, s') \<Rightarrow> (None, s')
      | (QError, s') \<Rightarrow> queryRoutes env req rest acc (Suc failures) s'
      | (QGroups gs, s') \<Rightarrow> queryRoutes env req rest (collectGroups env (exchangeRefOf ex) gs acc) failures s')"

definition planRoutes :: "routePlan \<Rightarrow> (Exchange \<times> string list) list" where
  "planRoutes p = map (\<lambda>d. (case rp_exchanges p d of None \<Rightarrow> zeroExchange | Some ex \<Rightarrow> ex, rp_exchangeURLs p d))
     (rp_exchangeOrder p)"

definition discoverByRoute ::
  "'b resolve_env \<Rightarrow> Request \<Rightarrow> string list \<Rightarrow> (string \<times> Manifest) list \<Rightarrow> 'b resolve_state \<Rightarrow>
   (resolve_fault, OfferGroup list \<times> discoverFlags) res \<times> 'b resolve_state" where
  "discoverByRoute env req uris manifests s =
     (case buildRoutePlan env (vs_registry s) uris manifests of
        (plan, scan) \<Rightarrow>
          (case queryRoutes env req (planRoutes plan)
                  (Map.empty, zeroFlags\<lparr>fl_namedExchangeDown := sc_sawTransientDecline scan\<rparr>) 0 s of
             (None, s') \<Rightarrow> (Inl OtherFault, s')
           | (Some ((byURL, flags), failures), s') \<Rightarrow>
               (Inr (assemble (rv_sel env) plan byURL,
                  flags\<lparr>fl_allUpstreamFailed := (rp_exchangeOrder plan \<noteq> [] \<and> failures > 0 \<and> failures = length (rp_exchangeOrder plan))\<rparr>), s')))"

definition appendGroupOrder :: "string list \<Rightarrow> (string \<rightharpoonup> OfferGroup) \<Rightarrow> WireGroup list \<Rightarrow> string list" where
  "appendGroupOrder order byURL groups = order @ filter (\<lambda>u. byURL u = None) (map wg_Uri groups)"

fun queryAll ::
  "'b resolve_env \<Rightarrow> Request \<Rightarrow> Exchange list \<Rightarrow> string list \<Rightarrow> (string \<rightharpoonup> OfferGroup) \<times> discoverFlags \<Rightarrow> nat \<Rightarrow> 'b resolve_state \<Rightarrow>
   (string list \<times> ((string \<rightharpoonup> OfferGroup) \<times> discoverFlags) \<times> nat) option \<times> 'b resolve_state" where
  "queryAll env req [] order acc failures s = (Some (order, acc, failures), s)"
| "queryAll env req (ex # rest) order acc failures s =
     (case queryExchange env req ex [] s of
        (QSignForward, s') \<Rightarrow> (None, s')
      | (QError, s') \<Rightarrow> queryAll env req rest order acc (Suc failures) s'
      | (QGroups gs, s') \<Rightarrow>
          queryAll env req rest (appendGroupOrder order (fst acc) gs)
            (collectGroups env (exchangeRefOf ex) gs acc) failures s')"

definition groupsInOrder :: "select_env \<Rightarrow> string list \<Rightarrow> (string \<rightharpoonup> OfferGroup) \<Rightarrow> OfferGroup list" where
  "groupsInOrder sel order byURL = map (\<lambda>uri. finalize sel (groupAt byURL uri)) order"

definition broadcastQuery ::
  "'b resolve_env \<Rightarrow> Request \<Rightarrow> Exchange list \<Rightarrow> 'b resolve_state \<Rightarrow>
   (resolve_fault, OfferGroup list \<times> discoverFlags) res \<times> 'b resolve_state" where
  "broadcastQuery env req exchanges s =
     (case queryAll env req exchanges [] (Map.empty, zeroFlags) 0 s of
        (None, s') \<Rightarrow> (Inl OtherFault, s')
      | (Some (order, (byURL, flags), failures), s') \<Rightarrow>
          (Inr (groupsInOrder (rv_sel env) order byURL,
             flags\<lparr>fl_allUpstreamFailed := (failures > 0 \<and> failures = length exchanges)\<rparr>), s'))"

definition stampMethod :: "DiscoveryMethod \<Rightarrow> OfferGroup list \<Rightarrow> OfferGroup list" where
  "stampMethod method groups = map (\<lambda>g. g\<lparr>og_DiscoveryMethod := method\<rparr>) groups"

section \<open>Responses\<close>

definition refusal :: "OfferAbsenceReason \<Rightarrow> Response" where
  "refusal r = \<lparr>rsp_ExchangeID = [], rsp_AbsenceReason = r, rsp_Groups = []\<rparr>"

definition noHealthyExchangeResponse :: Response where
  "noHealthyExchangeResponse = refusal OFFER_ABSENCE_REASON_TEMPORARILY_UNAVAILABLE"

definition probeRefusalResponse :: "probeOutcome \<Rightarrow> Response" where
  "probeRefusalResponse oc =
     refusal (if po_transient oc > 0 \<and> po_missing oc = 0 then OFFER_ABSENCE_REASON_TEMPORARILY_UNAVAILABLE
              else OFFER_ABSENCE_REASON_NOT_IN_CATALOG)"

definition pickResolveAbsenceReason :: "discoverFlags \<Rightarrow> OfferAbsenceReason" where
  "pickResolveAbsenceReason flags =
     (if fl_allUpstreamFailed flags then OFFER_ABSENCE_REASON_TEMPORARILY_UNAVAILABLE
      else if fl_upstreamReason flags \<noteq> OFFER_ABSENCE_REASON_UNSPECIFIED then fl_upstreamReason flags
      else if fl_scopeRestricted flags then OFFER_ABSENCE_REASON_SCOPE_INSUFFICIENT
      else if fl_namedExchangeDown flags then OFFER_ABSENCE_REASON_TEMPORARILY_UNAVAILABLE
      else OFFER_ABSENCE_REASON_NOT_IN_CATALOG)"

definition noOffersResponse :: "discoverFlags \<Rightarrow> Response" where
  "noOffersResponse flags = refusal (pickResolveAbsenceReason flags)"

definition budgetExhaustedResponse :: Response where
  "budgetExhaustedResponse = refusal OFFER_ABSENCE_REASON_NOT_AUTHORIZED"

definition discover ::
  "'b resolve_env \<Rightarrow> Request \<Rightarrow> (string \<times> Manifest) list \<Rightarrow> 'b resolve_state \<Rightarrow>
   (resolve_fault, (OfferGroup list \<times> discoverFlags) + Response) res \<times> 'b resolve_state" where
  "discover env req manifests s =
     (if requestURIs req \<noteq> [] then
        (case discoverByRoute env req (requestURIs req) manifests s of
           (Inl e, s') \<Rightarrow> (Inl e, s')
         | (Inr (groups, flags), s') \<Rightarrow> (Inr (Inl (stampMethod DISCOVERY_METHOD_EXCHANGE groups, flags)), s'))
      else
        let exchanges = exchangesFor env (vs_registry s) manifests
        in if exchanges = [] then (Inr (Inr noHealthyExchangeResponse), s)
           else (case broadcastQuery env req exchanges s of
                   (Inl e, s') \<Rightarrow> (Inl e, s')
                 | (Inr (groups, flags), s') \<Rightarrow> (Inr (Inl (stampMethod DISCOVERY_METHOD_SEARCH groups, flags)), s')))"

section \<open>Resolve\<close>

definition candidatesToInfo :: "Candidate list \<Rightarrow> CandidateInfo list" where
  "candidatesToInfo cands =
     map (\<lambda>c. \<lparr>ci_OfferID = of_OfferId (cd_Offer c), ci_ExchangeID = er_Domain (cd_Exchange c),
       ci_UnitCost = (case pr_UnitCost (of_Pricing (cd_Offer c)) of Some u \<Rightarrow> u | None \<Rightarrow> pr_Rate (of_Pricing (cd_Offer c))),
       ci_TrustLevel = er_Trust (cd_Exchange c)\<rparr>) cands"

definition orURI :: "Request \<Rightarrow> string" where
  "orURI req = (if rt_Query req \<noteq> [] then rt_Query req else rt_URI req)"

definition auditSelection ::
  "'b resolve_env \<Rightarrow> string \<Rightarrow> Request \<Rightarrow> Candidate list \<Rightarrow> string \<Rightarrow> 'b resolve_state \<Rightarrow> 'b resolve_state" where
  "auditSelection env requestID req ranked outcome s =
     (if rv_logFault env then s
      else s\<lparr>vs_log := vs_log s @ [\<lparr>sl_RequestID = requestID, sl_AgentID = rt_AgentID req, sl_Query = orURI req,
        sl_CandidateOffers = candidatesToInfo ranked, sl_Outcome = outcome\<rparr>]\<rparr>)"

definition Resolve ::
  "'b resolve_env \<Rightarrow> string \<Rightarrow> Request \<Rightarrow> 'b resolve_state \<Rightarrow> (resolve_fault, Response) res \<times> 'b resolve_state" where
  "Resolve env requestID req s =
     (case candidateDomains env req of
        Inl e \<Rightarrow> (Inl (BrokerFault e), s)
      | Inr domains \<Rightarrow>
          (case probeDomains env domains of
             (manifests, oc) \<Rightarrow>
               if manifests = [] then (Inr (probeRefusalResponse oc), s)
               else (case discover env req manifests s of
                       (Inl e, s1) \<Rightarrow> (Inl e, s1)
                     | (Inr (Inr resp), s1) \<Rightarrow> (Inr resp, s1)
                     | (Inr (Inl (groups, flags)), s1) \<Rightarrow>
                         (case Winner (rv_sel env) groups of
                            None \<Rightarrow> (Inr (noOffersResponse flags), s1)
                          | Some winner \<Rightarrow>
                              (case checkBudget (rv_sel env) (rv_budget env) (vs_budget s1) (rt_AgentID req)
                                      (rt_BudgetMinor req) (cd_Offer winner) of
                                 Inl _ \<Rightarrow> (Inl (BrokerFault (bNewf BKindInternal)), s1)
                               | Inr False \<Rightarrow>
                                   (Inr budgetExhaustedResponse,
                                    auditSelection env requestID req (flattenGroups groups) ''budget_exhausted'' s1)
                               | Inr True \<Rightarrow>
                                   (case bd_Record (rv_budget env) (vs_budget s1) (rt_AgentID req)
                                           (costFixed (rv_sel env) (cd_Offer winner)) of
                                      (b, True) \<Rightarrow> (Inl (BrokerFault (bNewf BKindInternal)), s1\<lparr>vs_budget := b\<rparr>)
                                    | (b, False) \<Rightarrow>
                                        (Inr \<lparr>rsp_ExchangeID = er_Domain (cd_Exchange winner),
                                           rsp_AbsenceReason = OFFER_ABSENCE_REASON_UNSPECIFIED, rsp_Groups = groups\<rparr>,
                                         auditSelection env requestID req (flattenGroups groups) ''discovered''
                                           (s1\<lparr>vs_budget := b\<rparr>))))))))"

definition connectResolve ::
  "'b resolve_env \<Rightarrow> string \<Rightarrow> DiscoveryRequest \<Rightarrow> 'b resolve_state \<Rightarrow> (Code, DiscoveryResponse) res \<times> 'b resolve_state" where
  "connectResolve env requestID msg s =
     (case validateAndCanonicalizeRequest (rv_ids env) (rampRequestToInput (rv_sel env) msg) of
        Inl e \<Rightarrow> (Inl (bToConnect (BrokerFault e)), s)
      | Inr req \<Rightarrow>
          (case authorizeAgentSelfAct (rv_ids env) (rv_SignatureAgent env) (rt_AgentID req) of
             Some e \<Rightarrow> (Inl (bToConnect (BrokerFault e)), s)
           | None \<Rightarrow>
               (case Resolve env requestID req s of
                  (Inl e, s') \<Rightarrow> (Inl (bToConnect e), s')
                | (Inr resp, s') \<Rightarrow> (Inr (toDiscoveryResponse (rv_ProtocolVersion env) resp), s'))))"

end
