(* ===== verification/Resolve_Laws.thy ===== *)
theory Resolve_Laws
  imports Broker_Resolve
begin

text \<open>
  Laws of the Broker's discovery: routing decisions follow the manifests and the registry, the queries
  sent are the planned routes, collected candidates are verified offers filed under their URL, the
  branches of Resolve and of the Connect handler, and the preservation of the spending cap by one call.
\<close>

section \<open>Routing follows the manifests\<close>

text \<open>\<open>ex\<close> is the live registry row of the domain with the endpoint its own well-known advertises.\<close>

definition usable :: "'b resolve_env \<Rightarrow> Exchange list \<Rightarrow> string \<Rightarrow> Exchange \<Rightarrow> bool" where
  "usable env reg d ex \<longleftrightarrow> (\<exists>m endpoint. m \<in> set reg \<and> xr_Domain m = d \<and> row_Admission m = AdmissionLive \<and>
     rv_ResolveEndpoint env d = Inr endpoint \<and> ex = m\<lparr>xr_Endpoint := endpoint\<rparr>)"

definition scan_ok :: "'b resolve_env \<Rightarrow> Exchange list \<Rightarrow> routeScan \<Rightarrow> bool" where
  "scan_ok env reg scan \<longleftrightarrow>
     (\<forall>d ex. sc_seen scan d = Some ex \<longrightarrow> xr_Domain ex \<noteq> [] \<longrightarrow> usable env reg d ex)"

lemma usable_domain: "usable env reg d ex \<Longrightarrow> xr_Domain ex = d"
  by (auto simp: usable_def)

lemma GetByDomain_InrD: "GetByDomain d reg = Inr m \<Longrightarrow> m \<in> set reg \<and> xr_Domain m = d"
  by (auto simp: GetByDomain_def find_Some_iff split: option.splits)

lemma scan_ok_new [simp]: "scan_ok env reg newRouteScan"
  by (simp add: scan_ok_def newRouteScan_def)

lemma scan_ok_remember:
  "scan_ok env reg scan \<Longrightarrow> (xr_Domain ex \<noteq> [] \<Longrightarrow> usable env reg d ex) \<Longrightarrow> scan_ok env reg (remember d ex t scan)"
  by (auto simp: scan_ok_def remember_def split: if_splits)

lemma zeroExchange_domain [simp]: "xr_Domain zeroExchange = []"
  by (simp add: zeroExchange_def)

lemma registeredHealthy_ok:
  assumes "scan_ok env reg scan" "registeredHealthy env reg d scan = (r, scan')"
  shows "scan_ok env reg scan'" "r = Some ex \<Longrightarrow> usable env reg d ex"
proof -
  have "scan_ok env reg scan' \<and> (\<forall>ex. r = Some ex \<longrightarrow> usable env reg d ex)"
  proof (cases "sc_seen scan d")
    case (Some e)
    then show ?thesis using assms by (auto simp: registeredHealthy_def scan_ok_def split: if_splits)
  next
    case None
    show ?thesis
    proof (cases "\<not> rv_registryDown env \<and> (\<exists>m endpoint. GetByDomain d reg = Inr m \<and>
        row_Admission m = AdmissionLive \<and> rv_ResolveEndpoint env d = Inr endpoint)")
      case True
      then obtain m endpoint where m: "\<not> rv_registryDown env" "GetByDomain d reg = Inr m"
          "row_Admission m = AdmissionLive" "rv_ResolveEndpoint env d = Inr endpoint" by blast
      then have u: "usable env reg d (m\<lparr>xr_Endpoint := endpoint\<rparr>)"
        using GetByDomain_InrD unfolding usable_def by blast
      show ?thesis
        using assms m None u by (auto simp: registeredHealthy_def Let_def intro: scan_ok_remember)
    next
      case False
      then have "r = None \<and> (\<exists>t. scan' = remember d zeroExchange t scan)"
        using assms(2) None by (auto simp: registeredHealthy_def split: if_splits sum.splits)
      then show ?thesis using assms(1) by (auto intro: scan_ok_remember)
    qed
  qed
  then show "scan_ok env reg scan'" "r = Some ex \<Longrightarrow> usable env reg d ex" by blast+
qed

lemma firstHealthy_ok:
  "scan_ok env reg scan \<Longrightarrow> firstHealthy env reg named scan = (r, scan') \<Longrightarrow>
   scan_ok env reg scan' \<and> (\<forall>ex. r = Some ex \<longrightarrow> (\<exists>n \<in> set named. usable env reg (ax_Domain n) ex))"
proof (induction named arbitrary: scan)
  case (Cons n named)
  obtain r1 scan1 where r1: "registeredHealthy env reg (ax_Domain n) scan = (r1, scan1)"
    by (cases "registeredHealthy env reg (ax_Domain n) scan")
  note ok = registeredHealthy_ok [OF Cons.prems(1) r1]
  show ?case
  proof (cases r1)
    case None
    then show ?thesis using Cons.IH [OF ok(1)] Cons.prems(2) r1 by auto
  next
    case (Some ex)
    then show ?thesis using Cons.prems(2) r1 ok by auto
  qed
qed simp

text \<open>The publisher of \<open>uri\<close> names the exchange \<open>d\<close>.\<close>

definition names :: "'b resolve_env \<Rightarrow> (string \<times> Manifest) list \<Rightarrow> string \<Rightarrow> string \<Rightarrow> bool" where
  "names env manifests uri d \<longleftrightarrow> (\<exists>pub m. DomainOf (rv_ids env) uri = Some pub \<and> map_of manifests pub = Some m \<and>
     d \<in> ax_Domain ` set (mf_Exchanges m))"

definition plan_ok :: "'b resolve_env \<Rightarrow> Exchange list \<Rightarrow> (string \<times> Manifest) list \<Rightarrow> routePlan \<Rightarrow> bool" where
  "plan_ok env reg manifests p \<longleftrightarrow>
     (\<forall>d. d \<in> set (rp_exchangeOrder p) \<longleftrightarrow> rp_exchanges p d \<noteq> None) \<and>
     (\<forall>d ex. rp_exchanges p d = Some ex \<longrightarrow> usable env reg d ex) \<and>
     (\<forall>d. \<forall>u \<in> set (rp_exchangeURLs p d). u \<in> set (rp_urlOrder p) \<and> names env manifests u d)"

lemma exchangeForURL_ok:
  assumes "scan_ok env reg scan" "exchangeForURL env reg uri manifests scan = (r, scan')"
  shows "scan_ok env reg scan'" "r = Some ex \<Longrightarrow> \<exists>d. usable env reg d ex \<and> names env manifests uri d"
proof -
  have "scan_ok env reg scan' \<and> (\<forall>ex. r = Some ex \<longrightarrow> (\<exists>d. usable env reg d ex \<and> names env manifests uri d))"
  proof (cases "\<exists>pub m. DomainOf (rv_ids env) uri = Some pub \<and> map_of manifests pub = Some m")
    case True
    then obtain pub m where m: "DomainOf (rv_ids env) uri = Some pub" "map_of manifests pub = Some m" by blast
    then have "firstHealthy env reg (mf_Exchanges m) scan = (r, scan')"
      using assms(2) by (simp add: exchangeForURL_def)
    from firstHealthy_ok [OF assms(1) this] show ?thesis
      using m unfolding names_def by blast
  next
    case False
    then have "r = None \<and> scan' = scan"
      using assms(2) by (auto simp: exchangeForURL_def split: option.splits)
    then show ?thesis using assms(1) by simp
  qed
  then show "scan_ok env reg scan'" "r = Some ex \<Longrightarrow> \<exists>d. usable env reg d ex \<and> names env manifests uri d"
    by blast+
qed

lemma routeURLTo_ok:
  assumes "plan_ok env reg manifests p" "usable env reg d ex" "names env manifests uri d"
  shows "plan_ok env reg manifests (routeURLTo uri ex (p\<lparr>rp_urlOrder := rp_urlOrder p @ [uri]\<rparr>))"
  using assms usable_domain [OF assms(2)]
  by (auto simp: plan_ok_def routeURLTo_def Let_def split: if_splits)

lemma routeURLs_ok:
  "plan_ok env reg manifests p \<Longrightarrow> scan_ok env reg scan \<Longrightarrow> routeURLs env reg uris manifests p scan = (p', scan') \<Longrightarrow>
   plan_ok env reg manifests p' \<and> rp_urlOrder p' = rp_urlOrder p @ uris"
proof (induction uris arbitrary: p scan)
  case (Cons uri uris)
  obtain r scan1 where r: "exchangeForURL env reg uri manifests scan = (r, scan1)"
    by (cases "exchangeForURL env reg uri manifests scan")
  note ok = exchangeForURL_ok [OF Cons.prems(2) r]
  show ?case
  proof (cases r)
    case None
    have "plan_ok env reg manifests (p\<lparr>rp_urlOrder := rp_urlOrder p @ [uri]\<rparr>)"
      using Cons.prems(1) by (auto simp: plan_ok_def)
    then show ?thesis using Cons.IH [OF _ ok(1)] Cons.prems(3) r None by (fastforce simp: Let_def)
  next
    case (Some ex)
    then obtain d where "usable env reg d ex" "names env manifests uri d" using ok(2) by blast
    then have "plan_ok env reg manifests (routeURLTo uri ex (p\<lparr>rp_urlOrder := rp_urlOrder p @ [uri]\<rparr>))"
      using routeURLTo_ok [OF Cons.prems(1)] by blast
    moreover have "rp_urlOrder (routeURLTo uri ex (p\<lparr>rp_urlOrder := rp_urlOrder p @ [uri]\<rparr>)) = rp_urlOrder p @ [uri]"
      by (simp add: routeURLTo_def Let_def)
    ultimately show ?thesis
      using Cons.IH [OF _ ok(1)] Cons.prems(3) r Some by (fastforce simp: Let_def)
  qed
qed simp

lemma buildRoutePlan_ok:
  assumes "buildRoutePlan env reg uris manifests = (p, scan)"
  shows "plan_ok env reg manifests p" "rp_urlOrder p = uris"
proof -
  have "plan_ok env reg manifests \<lparr>rp_urlOrder = [], rp_exchangeURLs = (\<lambda>d. []), rp_exchanges = Map.empty, rp_exchangeOrder = []\<rparr>"
    by (simp add: plan_ok_def)
  from routeURLs_ok [OF this scan_ok_new] show "plan_ok env reg manifests p" "rp_urlOrder p = uris"
    using assms by (auto simp: buildRoutePlan_def)
qed

lemma planRoutes_ok:
  assumes "plan_ok env reg manifests p" "(ex, us) \<in> set (planRoutes p)"
  shows "\<exists>d. usable env reg d ex \<and> (\<forall>u \<in> set us. u \<in> set (rp_urlOrder p) \<and> names env manifests u d)"
proof -
  obtain d where d: "d \<in> set (rp_exchangeOrder p)"
      "ex = (case rp_exchanges p d of None \<Rightarrow> zeroExchange | Some e \<Rightarrow> e)" "us = rp_exchangeURLs p d"
    using assms(2) by (auto simp: planRoutes_def)
  then obtain e where "rp_exchanges p d = Some e" using assms(1) by (auto simp: plan_ok_def)
  then show ?thesis using d assms(1) by (intro exI [of _ d]) (auto simp: plan_ok_def)
qed

lemma map_of_probeDomains:
  "map_of (fst (probeDomains env ds)) d = Some m \<Longrightarrow> Probe env d = Inr m"
proof (induction ds)
  case (Cons x ds)
  obtain out oc where o: "probeDomains env ds = (out, oc)" by (cases "probeDomains env ds")
  show ?case
  proof (cases "Probe env x")
    case (Inl e)
    then show ?thesis using Cons o by (cases e) auto
  next
    case (Inr m')
    then show ?thesis using Cons o by (auto split: if_splits)
  qed
qed simp

section \<open>Queries and groups\<close>

lemma queryExchange_cases:
  assumes "queryExchange env req ex uris s = (r, s')"
  obtains (quiet) "s' = s" "r \<noteq> QSignForward \<longrightarrow> r = QError"
  | (sent) q where "q = buildResourceQuery env req (xr_Domain ex) uris"
      "s' = s\<lparr>vs_calls := vs_calls s @ [(xr_Endpoint ex, q)]\<rparr>"
      "\<And>gs. r = QGroups gs \<Longrightarrow> rv_DiscoverResources env (length (vs_calls s)) (xr_Endpoint ex) q = Some gs"
      "r \<noteq> QSignForward"
proof (cases "rv_IsBareDomain env (xr_Domain ex) \<and> rv_SignForward env (buildResourceQuery env req (xr_Domain ex) uris)")
  case True
  show thesis
    by (rule sent [OF refl]) (use assms True in \<open>auto simp: queryExchange_def Let_def split: option.splits\<close>)
next
  case False
  show thesis
    by (rule quiet) (use assms False in \<open>auto simp: queryExchange_def Let_def split: if_splits\<close>)
qed

text \<open>What a discovery may have done: sent queries to the given routes and nothing else.\<close>

definition sentTo ::
  "'b resolve_env \<Rightarrow> Request \<Rightarrow> (Exchange \<times> string list) set \<Rightarrow> 'b resolve_state \<Rightarrow> 'b resolve_state \<Rightarrow> bool" where
  "sentTo env req routes s s' \<longleftrightarrow> (\<exists>new. s' = s\<lparr>vs_calls := vs_calls s @ new\<rparr> \<and>
     (\<forall>(ep, q) \<in> set new. \<exists>(ex, us) \<in> routes. ep = xr_Endpoint ex \<and> q = buildResourceQuery env req (xr_Domain ex) us))"

lemma sentTo_refl [simp]: "sentTo env req routes s s"
  unfolding sentTo_def by (rule exI [of _ "[]"]) simp

lemma sentTo_trans:
  assumes "sentTo env req routes s s1" "sentTo env req routes s1 s2"
  shows "sentTo env req routes s s2"
proof -
  obtain a where a: "s1 = s\<lparr>vs_calls := vs_calls s @ a\<rparr>" "\<forall>(ep, q) \<in> set a. \<exists>(ex, us) \<in> routes. ep = xr_Endpoint ex \<and> q = buildResourceQuery env req (xr_Domain ex) us"
    using assms(1) unfolding sentTo_def by blast
  obtain b where b: "s2 = s1\<lparr>vs_calls := vs_calls s1 @ b\<rparr>" "\<forall>(ep, q) \<in> set b. \<exists>(ex, us) \<in> routes. ep = xr_Endpoint ex \<and> q = buildResourceQuery env req (xr_Domain ex) us"
    using assms(2) unfolding sentTo_def by blast
  show ?thesis
    unfolding sentTo_def by (rule exI [of _ "a @ b"]) (use a b in auto)
qed

lemma sentTo_mono: "sentTo env req A s s' \<Longrightarrow> A \<subseteq> B \<Longrightarrow> sentTo env req B s s'"
  unfolding sentTo_def by (erule exE) (rule exI, blast)

lemma queryExchange_sentTo:
  assumes "queryExchange env req ex us s = (r, s')" "(ex, us) \<in> routes"
  shows "sentTo env req routes s s'"
  using assms(1)
proof (cases rule: queryExchange_cases)
  case quiet
  then show ?thesis by simp
next
  case (sent q)
  then show ?thesis unfolding sentTo_def using assms(2) by (intro exI [of _ "[(xr_Endpoint ex, q)]"]) auto
qed

text \<open>Every collected candidate is an offer the verifier accepted from a group some exchange returned for
  that very URL, and every collected group is filed under its own URL, with no offers yet.\<close>

definition verifiedFor :: "'b resolve_env \<Rightarrow> string \<Rightarrow> Offer \<Rightarrow> bool" where
  "verifiedFor env uri off \<longleftrightarrow> (\<exists>n ep q gs g. rv_DiscoverResources env n ep q = Some gs \<and> g \<in> set gs \<and>
     wg_Uri g = uri \<and> off \<in> set (rv_Sort env (wg_Offers g)))"

definition groups_ok :: "'b resolve_env \<Rightarrow> (string \<rightharpoonup> OfferGroup) \<Rightarrow> bool" where
  "groups_ok env byURL \<longleftrightarrow> (\<forall>u g. byURL u = Some g \<longrightarrow> og_URI g = u \<and> og_Offers g = [] \<and>
     (\<forall>c \<in> set (og_cands g). verifiedFor env u (cd_Offer c)))"

lemma groups_ok_empty [simp]: "groups_ok env Map.empty"
  by (simp add: groups_ok_def)

lemma collectGroups_ok:
  assumes "rv_DiscoverResources env n ep q = Some all"
  shows "groups_ok env (fst acc) \<Longrightarrow> set gs \<subseteq> set all \<Longrightarrow> groups_ok env (fst (collectGroups env ref gs acc))"
proof (induction gs arbitrary: acc)
  case (Cons wg gs)
  obtain byURL flags where acc: "acc = (byURL, flags)" by (cases acc)
  have new: "verifiedFor env (wg_Uri wg) x" if "x \<in> set (rv_Sort env (wg_Offers wg))" for x
  proof -
    have "wg \<in> set all" using Cons.prems(2) by simp
    then show ?thesis unfolding verifiedFor_def using assms that by blast
  qed
  have old: "og_Offers (groupAt byURL u) = []" "\<And>c. c \<in> set (og_cands (groupAt byURL u)) \<Longrightarrow> verifiedFor env u (cd_Offer c)" for u
    using Cons.prems(1) acc by (auto simp: groups_ok_def groupAt_def zeroGroup_def split: option.splits)
  let ?g1 = "(groupAt byURL (wg_Uri wg))\<lparr>og_URI := wg_Uri wg, og_cands := og_cands (groupAt byURL (wg_Uri wg)) @
      map (\<lambda>o1. \<lparr>cd_Offer = o1, cd_Exchange = ref\<rparr>) (rv_Sort env (wg_Offers wg))\<rparr>"
  let ?r = "GetAbsenceReason wg"
  have ok: "groups_ok env (byURL(wg_Uri wg \<mapsto> ?g1\<lparr>og_AbsenceReason := ?r\<rparr>))"
    "groups_ok env (byURL(wg_Uri wg \<mapsto> ?g1))"
    using Cons.prems(1) acc old new by (auto simp: groups_ok_def)
  have step: "groups_ok env (fst (collectGroups env ref gs (B, fl)))" if "groups_ok env B" for B fl
    using Cons.IH [of "(B, fl)"] that Cons.prems(2) by (simp only: fst_conv set_simps insert_subset)
  show ?case
  proof (cases "?r = OFFER_ABSENCE_REASON_UNSPECIFIED")
    case True
    then have "collectGroups env ref (wg # gs) acc = collectGroups env ref gs (byURL(wg_Uri wg \<mapsto> ?g1), flags)"
      by (simp add: acc Let_def)
    then show ?thesis using step [OF ok(2)] by (simp only:)
  next
    case False
    let ?fl = "flags\<lparr>fl_upstreamReason := ?r, fl_scopeRestricted := (fl_scopeRestricted flags \<or> isCredentialsRestricted ?r)\<rparr>"
    from False have "collectGroups env ref (wg # gs) acc =
        collectGroups env ref gs (byURL(wg_Uri wg \<mapsto> ?g1\<lparr>og_AbsenceReason := ?r\<rparr>), ?fl)"
      by (simp add: acc Let_def)
    then show ?thesis using step [OF ok(1)] by (simp only:)
  qed
qed simp

lemma queryRoutes_ok:
  "queryRoutes env req routes acc failures s = (r, s') \<Longrightarrow> groups_ok env (fst acc) \<Longrightarrow>
   sentTo env req (set routes) s s' \<and> (\<forall>acc' n. r = Some (acc', n) \<longrightarrow> groups_ok env (fst acc'))"
proof (induction routes arbitrary: acc failures s)
  case (Cons x routes)
  obtain ex us where x: "x = (ex, us)" by (cases x)
  obtain qr s1 where q: "queryExchange env req ex us s = (qr, s1)" by (cases "queryExchange env req ex us s")
  have st: "sentTo env req (set (x # routes)) s s1"
    by (rule queryExchange_sentTo [OF q]) (simp add: x)
  have more: "sentTo env req (set routes) s1 s2 \<Longrightarrow> sentTo env req (set (x # routes)) s s2" for s2
    using sentTo_trans [OF st] sentTo_mono [of env req "set routes" s1 s2 "set (x # routes)"] by auto
  show ?case
  proof (cases qr)
    case QSignForward
    then show ?thesis using Cons.prems(1) q st x by simp
  next
    case QError
    then show ?thesis using Cons.IH [of acc "Suc failures" s1] Cons.prems q x more by simp
  next
    case (QGroups gs)
    from q have "groups_ok env (fst (collectGroups env (exchangeRefOf ex) gs acc))"
    proof (cases rule: queryExchange_cases)
      case quiet
      then show ?thesis using QGroups by simp
    next
      case (sent qq)
      show ?thesis by (rule collectGroups_ok [OF sent(3) [OF QGroups] Cons.prems(2) subset_refl])
    qed
    then show ?thesis
      using Cons.IH [of "collectGroups env (exchangeRefOf ex) gs acc" failures s1] Cons.prems q x more QGroups by simp
  qed
qed auto

section \<open>The URL path of Resolve\<close>

definition routes_ok ::
  "'b resolve_env \<Rightarrow> Exchange list \<Rightarrow> string list \<Rightarrow> (string \<times> Manifest) list \<Rightarrow> (Exchange \<times> string list) set" where
  "routes_ok env reg uris manifests =
     {(ex, us). \<exists>d. usable env reg d ex \<and> (\<forall>u \<in> set us. u \<in> set uris \<and> names env manifests u d)}"

text \<open>What the licensed answer to a list of URLs looks like.\<close>

definition answers :: "'b resolve_env \<Rightarrow> string list \<Rightarrow> OfferGroup list \<Rightarrow> bool" where
  "answers env uris groups \<longleftrightarrow> map og_URI groups = uris \<and> ranked_groups (rv_sel env) groups \<and>
     (\<forall>g \<in> set groups. \<forall>c \<in> set (og_Offers g). verifiedFor env (og_URI g) (cd_Offer c))"

lemma finalize_verified:
  assumes "shuffles (se_shuffle sel)" "og_Offers g = []" "\<And>c. c \<in> set (og_cands g) \<Longrightarrow> P (cd_Offer c)"
    and "c \<in> set (og_Offers (finalize sel g))"
  shows "P (cd_Offer c)"
  using assms Dedup_facts(1) [OF assms(1), of "og_cands g"]
  by (auto simp: finalize_def split: if_splits)

lemma og_URI_finalize [simp]: "og_URI (finalize sel g) = og_URI g"
  by (simp add: finalize_def)

lemma assemble_answers:
  assumes "shuffles (se_shuffle (rv_sel env))" "groups_ok env byURL"
  shows "answers env (rp_urlOrder p) (assemble (rv_sel env) p byURL)"
proof -
  let ?f = "\<lambda>uri. case byURL uri of
      Some g \<Rightarrow> finalize (rv_sel env) g
    | None \<Rightarrow> zeroGroup\<lparr>og_URI := uri, og_AbsenceReason := OFFER_ABSENCE_REASON_NOT_IN_CATALOG\<rparr>"
  have "og_URI (?f u) = u \<and> sorted (map (rank_key (rv_sel env)) (og_Offers (?f u))) \<and>
      (\<forall>c \<in> set (og_Offers (?f u)). verifiedFor env u (cd_Offer c))" for u
  proof (cases "byURL u")
    case None
    then show ?thesis by (simp add: zeroGroup_def)
  next
    case (Some g)
    then have g: "og_URI g = u" "og_Offers g = []" "\<And>c. c \<in> set (og_cands g) \<Longrightarrow> verifiedFor env u (cd_Offer c)"
      using assms(2) by (auto simp: groups_ok_def)
    then show ?thesis
      using Some finalize_ranked [of "rv_sel env" g] finalize_verified [OF assms(1) g(2), of "verifiedFor env u"] by auto
  qed
  then show ?thesis by (auto simp: answers_def assemble_def ranked_groups_def comp_def intro: map_idI)
qed

lemma discoverByRoute_ok:
  assumes "discoverByRoute env req uris manifests s = (r, s')" "shuffles (se_shuffle (rv_sel env))"
  shows "sentTo env req (routes_ok env (vs_registry s) uris manifests) s s'"
    "\<And>groups flags. r = Inr (groups, flags) \<Longrightarrow> answers env uris groups"
proof -
  obtain plan scan where p: "buildRoutePlan env (vs_registry s) uris manifests = (plan, scan)"
    by (cases "buildRoutePlan env (vs_registry s) uris manifests")
  note plan = buildRoutePlan_ok [OF p]
  let ?acc = "(Map.empty, zeroFlags\<lparr>fl_namedExchangeDown := sc_sawTransientDecline scan\<rparr>)"
  obtain qr s1 where q: "queryRoutes env req (planRoutes plan) ?acc 0 s = (qr, s1)"
    by (cases "queryRoutes env req (planRoutes plan) ?acc 0 s")
  have ok: "sentTo env req (set (planRoutes plan)) s s1"
      "\<And>acc' n. qr = Some (acc', n) \<Longrightarrow> groups_ok env (fst acc')"
    using queryRoutes_ok [OF q] by auto
  have s1: "s' = s1" using assms(1) p q by (auto split: option.splits prod.splits simp: discoverByRoute_def)
  have "set (planRoutes plan) \<subseteq> routes_ok env (vs_registry s) uris manifests"
    using planRoutes_ok [OF plan(1)] plan(2) by (auto simp: routes_ok_def)
  then show "sentTo env req (routes_ok env (vs_registry s) uris manifests) s s'"
    using ok(1) sentTo_mono s1 by blast
  fix groups flags assume r: "r = Inr (groups, flags)"
  then obtain byURL fl n where qr: "qr = Some ((byURL, fl), n)" "groups = assemble (rv_sel env) plan byURL"
    using assms(1) p q by (auto split: option.splits prod.splits simp: discoverByRoute_def)
  then show "answers env uris groups"
    using assemble_answers [OF assms(2), of byURL plan] ok(2) plan(2) by auto
qed

lemma answers_stamp: "answers env uris groups \<Longrightarrow> answers env uris (stampMethod m groups)"
  by (auto simp: answers_def stampMethod_def ranked_groups_def comp_def)

lemma discover_uris:
  assumes "discover env req manifests s = (r, s')" "requestURIs req \<noteq> []" "shuffles (se_shuffle (rv_sel env))"
  shows "sentTo env req (routes_ok env (vs_registry s) (requestURIs req) manifests) s s'"
    "(\<exists>e. r = Inl e) \<or> (\<exists>groups flags. r = Inr (Inl (groups, flags)) \<and> answers env (requestURIs req) groups \<and>
       (\<forall>g \<in> set groups. og_DiscoveryMethod g = DISCOVERY_METHOD_EXCHANGE))"
proof -
  obtain dr s1 where d: "discoverByRoute env req (requestURIs req) manifests s = (dr, s1)"
    by (cases "discoverByRoute env req (requestURIs req) manifests s")
  note ok = discoverByRoute_ok [OF d assms(3)]
  have "s' = s1" using assms(1,2) d by (auto simp: discover_def split: sum.splits)
  then show "sentTo env req (routes_ok env (vs_registry s) (requestURIs req) manifests) s s'"
    using ok(1) by simp
  show "(\<exists>e. r = Inl e) \<or> (\<exists>groups flags. r = Inr (Inl (groups, flags)) \<and> answers env (requestURIs req) groups \<and>
       (\<forall>g \<in> set groups. og_DiscoveryMethod g = DISCOVERY_METHOD_EXCHANGE))"
  proof (cases dr)
    case (Inl e)
    then show ?thesis using assms(1,2) d by (auto simp: discover_def)
  next
    case (Inr gf)
    obtain groups flags where g: "gf = (groups, flags)" by (cases gf)
    then have a: "answers env (requestURIs req) (stampMethod DISCOVERY_METHOD_EXCHANGE groups)"
      using ok(2) Inr answers_stamp by blast
    have "r = Inr (Inl (stampMethod DISCOVERY_METHOD_EXCHANGE groups, flags))"
      using assms(1,2) d Inr g by (simp add: discover_def)
    moreover have "\<forall>g \<in> set (stampMethod DISCOVERY_METHOD_EXCHANGE groups). og_DiscoveryMethod g = DISCOVERY_METHOD_EXCHANGE"
      by (simp add: stampMethod_def)
    ultimately show ?thesis using a by blast
  qed
qed

lemma pick_not_unspecified: "pickResolveAbsenceReason flags \<noteq> OFFER_ABSENCE_REASON_UNSPECIFIED"
  by (simp add: pickResolveAbsenceReason_def)

lemma refusal_simps [simp]: "rsp_Groups (refusal x) = []" "rsp_AbsenceReason (refusal x) = x"
  by (simp_all add: refusal_def)

lemma auditSelection_simps [simp]:
  "vs_calls (auditSelection env rid req ranked oc s) = vs_calls s"
  "vs_registry (auditSelection env rid req ranked oc s) = vs_registry s"
  "vs_budget (auditSelection env rid req ranked oc s) = vs_budget s"
  by (simp_all add: auditSelection_def)

text \<open>The branches of the call.\<close>

lemma Resolve_cases:
  assumes "Resolve env rid req s = (r, s')"
  obtains (early) "s' = s" "(\<exists>e. r = Inl e) \<or> (\<exists>x. r = Inr (refusal x) \<and> x \<noteq> OFFER_ABSENCE_REASON_UNSPECIFIED)"
  | (failed) domains manifests oc e where "candidateDomains env req = Inr domains"
      "probeDomains env domains = (manifests, oc)" "discover env req manifests s = (Inl e, s')" "r = Inl e"
  | (refused) domains manifests oc x where "candidateDomains env req = Inr domains"
      "probeDomains env domains = (manifests, oc)" "discover env req manifests s = (Inr (Inr x), s')" "r = Inr x"
  | (none) domains manifests oc groups flags where "candidateDomains env req = Inr domains"
      "probeDomains env domains = (manifests, oc)" "discover env req manifests s = (Inr (Inl (groups, flags)), s')"
      "r = Inr (noOffersResponse flags)"
  | (stopped) domains manifests oc groups flags s1 where "candidateDomains env req = Inr domains"
      "probeDomains env domains = (manifests, oc)" "discover env req manifests s = (Inr (Inl (groups, flags)), s1)"
      "(s' = s1 \<or> (\<exists>b c. bd_Record (rv_budget env) (vs_budget s1) (rt_AgentID req) c = (b, True) \<and> s' = s1\<lparr>vs_budget := b\<rparr>)) \<and> (\<exists>e. r = Inl e) \<or>
       r = Inr budgetExhaustedResponse \<and>
       s' = auditSelection env rid req (flattenGroups groups) ''budget_exhausted'' s1"
  | (licensed) domains manifests oc groups flags s1 winner b where "candidateDomains env req = Inr domains"
      "probeDomains env domains = (manifests, oc)" "discover env req manifests s = (Inr (Inl (groups, flags)), s1)"
      "Winner (rv_sel env) groups = Some winner"
      "checkBudget (rv_sel env) (rv_budget env) (vs_budget s1) (rt_AgentID req) (rt_BudgetMinor req) (cd_Offer winner) = Inr True"
      "bd_Record (rv_budget env) (vs_budget s1) (rt_AgentID req) (costFixed (rv_sel env) (cd_Offer winner)) = (b, False)"
      "r = Inr \<lparr>rsp_ExchangeID = er_Domain (cd_Exchange winner),
         rsp_AbsenceReason = OFFER_ABSENCE_REASON_UNSPECIFIED, rsp_Groups = groups\<rparr>"
      "s' = auditSelection env rid req (flattenGroups groups) ''discovered'' (s1\<lparr>vs_budget := b\<rparr>)"
proof (cases "candidateDomains env req")
  case (Inl e)
  show thesis by (rule early) (use assms Inl in \<open>auto simp: Resolve_def\<close>)
next
  case (Inr domains)
  obtain manifests oc where p: "probeDomains env domains = (manifests, oc)" by (cases "probeDomains env domains")
  note start = Inr p
  show thesis
  proof (cases "manifests = []")
    case True
    show thesis
      by (rule early; cases "po_transient oc > 0 \<and> po_missing oc = 0")
        (use assms start True in \<open>auto simp: Resolve_def probeRefusalResponse_def\<close>)
  next
    case False
    obtain d s1 where d: "discover env req manifests s = (d, s1)" by (cases "discover env req manifests s")
    show thesis
    proof (cases d)
      case (Inl e)
      then show thesis by (intro failed [OF start]) (use assms start False d in \<open>auto simp: Resolve_def\<close>)
    next
      case dr: (Inr gr)
      show thesis
      proof (cases gr)
        case (Inr x)
        then show thesis by (intro refused [OF start]) (use assms start False d dr in \<open>auto simp: Resolve_def\<close>)
      next
        case (Inl gf)
        obtain groups flags where g: "gf = (groups, flags)" by (cases gf)
        have D: "discover env req manifests s = (Inr (Inl (groups, flags)), s1)" using d dr Inl g by simp
        have R: "Resolve env rid req s = (case Winner (rv_sel env) groups of
              None \<Rightarrow> (Inr (noOffersResponse flags), s1)
            | Some winner \<Rightarrow>
                (case checkBudget (rv_sel env) (rv_budget env) (vs_budget s1) (rt_AgentID req)
                        (rt_BudgetMinor req) (cd_Offer winner) of
                   Inl _ \<Rightarrow> (Inl (BrokerFault (bNewf BKindInternal)), s1)
                 | Inr False \<Rightarrow>
                     (Inr budgetExhaustedResponse,
                      auditSelection env rid req (flattenGroups groups) ''budget_exhausted'' s1)
                 | Inr True \<Rightarrow>
                     (case bd_Record (rv_budget env) (vs_budget s1) (rt_AgentID req)
                             (costFixed (rv_sel env) (cd_Offer winner)) of
                        (b, True) \<Rightarrow> (Inl (BrokerFault (bNewf BKindInternal)), s1\<lparr>vs_budget := b\<rparr>)
                      | (b, False) \<Rightarrow>
                          (Inr \<lparr>rsp_ExchangeID = er_Domain (cd_Exchange winner),
                             rsp_AbsenceReason = OFFER_ABSENCE_REASON_UNSPECIFIED, rsp_Groups = groups\<rparr>,
                           auditSelection env rid req (flattenGroups groups) ''discovered''
                             (s1\<lparr>vs_budget := b\<rparr>)))))"
          using start False D by (simp add: Resolve_def)
        show thesis
        proof (cases "Winner (rv_sel env) groups")
          case None
          then show thesis using none [OF start] D assms R by simp
        next
          case w: (Some winner)
          show thesis
          proof (cases "checkBudget (rv_sel env) (rv_budget env) (vs_budget s1) (rt_AgentID req) (rt_BudgetMinor req) (cd_Offer winner)")
            case (Inl u)
            show thesis by (rule stopped [OF start D]) (use assms R w Inl in auto)
          next
            case ok: (Inr allowed)
            obtain b bad where b: "bd_Record (rv_budget env) (vs_budget s1) (rt_AgentID req) (costFixed (rv_sel env) (cd_Offer winner)) = (b, bad)"
              by (cases "bd_Record (rv_budget env) (vs_budget s1) (rt_AgentID req) (costFixed (rv_sel env) (cd_Offer winner))")
            show thesis
            proof (cases allowed)
              case False
              show thesis by (rule stopped [OF start D]) (use assms R w ok False in auto)
            next
              case True
              show thesis
              proof (cases bad)
                case bad: True
                show thesis by (rule stopped [OF start D]) (use assms R w ok b True bad in auto)
              next
                case good: False
                show thesis by (rule licensed [OF start D w]) (use assms R w ok b True good in auto)
              qed
            qed
          qed
        qed
      qed
    qed
  qed
qed

lemma Resolve_sent:
  assumes "Resolve env rid req s = (r, s')" "requestURIs req \<noteq> []" "shuffles (se_shuffle (rv_sel env))"
  obtains domains s1 where "sentTo env req (routes_ok env (vs_registry s) (requestURIs req) (fst (probeDomains env domains))) s s1"
    "vs_calls s' = vs_calls s1"
  using assms(1)
proof (cases rule: Resolve_cases)
  case early
  then show thesis using that [of "[]" s] by simp
next
  case (failed domains manifests oc e)
  then show thesis using that [of domains s'] discover_uris(1) [OF failed(3) assms(2,3)] by simp
next
  case (refused domains manifests oc x)
  then show thesis using that [of domains s'] discover_uris(1) [OF refused(3) assms(2,3)] by simp
next
  case (none domains manifests oc groups flags)
  then show thesis using that [of domains s'] discover_uris(1) [OF none(3) assms(2,3)] by simp
next
  case (stopped domains manifests oc groups flags s1)
  then have "vs_calls s' = vs_calls s1" by auto
  then show thesis using that [of domains s1] discover_uris(1) [OF stopped(3) assms(2,3)] stopped(2) by simp
next
  case (licensed domains manifests oc groups flags s1 winner b)
  then show thesis using that [of domains s1] discover_uris(1) [OF licensed(3) assms(2,3)] by simp
qed

lemma Resolve_answers:
  assumes "Resolve env rid req s = (Inr resp, s')" "requestURIs req \<noteq> []" "shuffles (se_shuffle (rv_sel env))"
  shows "rsp_Groups resp = [] \<and> rsp_AbsenceReason resp \<noteq> OFFER_ABSENCE_REASON_UNSPECIFIED \<or>
    rsp_AbsenceReason resp = OFFER_ABSENCE_REASON_UNSPECIFIED \<and> answers env (requestURIs req) (rsp_Groups resp) \<and>
    flattenGroups (rsp_Groups resp) \<noteq> [] \<and>
    (\<forall>g \<in> set (rsp_Groups resp). og_DiscoveryMethod g = DISCOVERY_METHOD_EXCHANGE)"
  using assms(1)
proof (cases rule: Resolve_cases)
  case early
  then show ?thesis by auto
next
  case (refused domains manifests oc x)
  then show ?thesis using discover_uris(2) [OF refused(3) assms(2,3)] by auto
next
  case (none domains manifests oc groups flags)
  then show ?thesis using pick_not_unspecified by (simp add: noOffersResponse_def)
next
  case (stopped domains manifests oc groups flags s1)
  then show ?thesis by (auto simp: budgetExhaustedResponse_def)
next
  case (licensed domains manifests oc groups flags s1 winner b)
  have "flattenGroups groups \<noteq> []" using licensed(4) Winner_None_iff [of "rv_sel env" groups] by simp
  then show ?thesis using discover_uris(2) [OF licensed(3) assms(2,3)] licensed(7) by auto
qed simp

section \<open>The call as the agent sees it\<close>

lemma connectResolve_cases:
  assumes "connectResolve env rid msg s = (r, s')"
  obtains (refused) c where "r = Inl c" "s' = s"
  | (ran) req r' caller dir where
      "validateAndCanonicalizeRequest (rv_ids env) (rampRequestToInput (rv_sel env) msg) = Inr req"
      "rv_SignatureAgent env = Some dir" "FromDirectory (rv_ids env) dir = Some caller" "rt_AgentID req = caller"
      "Resolve env rid req s = (r', s')"
      "r = (case r' of Inl e \<Rightarrow> Inl (bToConnect e) | Inr resp \<Rightarrow> Inr (toDiscoveryResponse (rv_ProtocolVersion env) resp))"
proof (cases "validateAndCanonicalizeRequest (rv_ids env) (rampRequestToInput (rv_sel env) msg)")
  case (Inl e)
  then show thesis using refused [of "bToConnect (BrokerFault e)"] assms by (simp add: connectResolve_def)
next
  case req: (Inr req)
  show thesis
  proof (cases "authorizeAgentSelfAct (rv_ids env) (rv_SignatureAgent env) (rt_AgentID req)")
    case (Some e)
    then show thesis using refused [of "bToConnect (BrokerFault e)"] req assms by (simp add: connectResolve_def)
  next
    case None
    then obtain dir caller where d: "rv_SignatureAgent env = Some dir" "FromDirectory (rv_ids env) dir = Some caller"
        "rt_AgentID req = caller"
      by (auto simp: authorizeAgentSelfAct_def split: option.splits if_splits)
    obtain r' s1 where r': "Resolve env rid req s = (r', s1)" by (cases "Resolve env rid req s")
    have "s1 = s'" using assms req None r' by (auto simp: connectResolve_def split: sum.splits)
    with r' have R: "Resolve env rid req s = (r', s')" by simp
    show thesis
      by (rule ran [OF req d R]) (use assms req None R in \<open>auto simp: connectResolve_def split: sum.splits\<close>)
  qed
qed

lemma validate_InrD:
  assumes "validateAndCanonicalizeRequest ids req0 = Inr req"
  shows "\<exists>a. req = req0\<lparr>rt_AgentID := a\<rparr>"
  using assms by (auto simp: validateAndCanonicalizeRequest_def split: if_splits option.splits)

lemma validated_uris:
  assumes "validateAndCanonicalizeRequest ids (rampRequestToInput sel msg) = Inr req" "dq_Uris msg \<noteq> []"
  shows "requestURIs req = dq_Uris msg"
proof -
  obtain a where "req = (rampRequestToInput sel msg)\<lparr>rt_AgentID := a\<rparr>" using validate_InrD [OF assms(1)] by blast
  then show ?thesis using assms(2) by (simp add: requestURIs_def rampRequestToInput_def)
qed

section \<open>The spending cap\<close>

lemma queryAll_ok:
  "queryAll env req exs order acc failures s = (r, s') \<Longrightarrow> groups_ok env (fst acc) \<Longrightarrow>
   sentTo env req UNIV s s' \<and> (\<forall>o' acc' n. r = Some (o', acc', n) \<longrightarrow> groups_ok env (fst acc'))"
proof (induction exs arbitrary: order acc failures s)
  case (Cons ex exs)
  obtain qr s1 where q: "queryExchange env req ex [] s = (qr, s1)" by (cases "queryExchange env req ex [] s")
  have st: "sentTo env req UNIV s s1" by (rule queryExchange_sentTo [OF q]) simp
  show ?case
  proof (cases qr)
    case QSignForward
    then show ?thesis using Cons.prems(1) q st by simp
  next
    case QError
    then show ?thesis
      using Cons.IH [of order acc "Suc failures" s1] Cons.prems q sentTo_trans [OF st] by simp
  next
    case (QGroups gs)
    from q have "groups_ok env (fst (collectGroups env (exchangeRefOf ex) gs acc))"
    proof (cases rule: queryExchange_cases)
      case quiet
      then show ?thesis using QGroups by simp
    next
      case (sent qq)
      show ?thesis by (rule collectGroups_ok [OF sent(3) [OF QGroups] Cons.prems(2) subset_refl])
    qed
    then show ?thesis
      using Cons.IH [of "appendGroupOrder order (fst acc) gs" "collectGroups env (exchangeRefOf ex) gs acc" failures s1]
        Cons.prems q sentTo_trans [OF st] QGroups by simp
  qed
qed auto

definition sorted_out :: "'b resolve_env \<Rightarrow> Offer \<Rightarrow> bool" where
  "sorted_out env off \<longleftrightarrow> (\<exists>offs. off \<in> set (rv_Sort env offs))"

lemma verifiedFor_sorted_out: "verifiedFor env u off \<Longrightarrow> sorted_out env off"
  by (auto simp: verifiedFor_def sorted_out_def)

lemma broadcastQuery_ok:
  assumes "broadcastQuery env req exs s = (r, s')" "shuffles (se_shuffle (rv_sel env))"
  shows "sentTo env req UNIV s s'"
    "r = Inr (groups, flags) \<Longrightarrow> c \<in> set (flattenGroups groups) \<Longrightarrow> sorted_out env (cd_Offer c)"
proof -
  obtain qr s1 where q: "queryAll env req exs [] (Map.empty, zeroFlags) 0 s = (qr, s1)"
    by (cases "queryAll env req exs [] (Map.empty, zeroFlags) 0 s")
  have ok: "sentTo env req UNIV s s1" "\<And>o' acc' n. qr = Some (o', acc', n) \<Longrightarrow> groups_ok env (fst acc')"
    using queryAll_ok [OF q] by auto
  have "s' = s1" using assms(1) q by (auto simp: broadcastQuery_def split: option.splits prod.splits)
  then show "sentTo env req UNIV s s'" using ok(1) by simp
  assume r: "r = Inr (groups, flags)" and c: "c \<in> set (flattenGroups groups)"
  obtain order byURL fl n where qr: "qr = Some (order, (byURL, fl), n)" "groups = groupsInOrder (rv_sel env) order byURL"
    using assms(1) q r by (auto simp: broadcastQuery_def split: option.splits prod.splits)
  then obtain u where u: "c \<in> set (og_Offers (finalize (rv_sel env) (groupAt byURL u)))"
    using c by (auto simp: flattenGroups_def groupsInOrder_def)
  have g: "og_Offers (groupAt byURL u) = []" "\<And>x. x \<in> set (og_cands (groupAt byURL u)) \<Longrightarrow> sorted_out env (cd_Offer x)"
    using ok(2) [OF qr(1)] by (auto simp: groups_ok_def groupAt_def zeroGroup_def split: option.splits
        intro: verifiedFor_sorted_out)
  show "sorted_out env (cd_Offer c)" by (rule finalize_verified [where P = "sorted_out env", OF assms(2) g u])
qed

lemma flattenGroups_stamp [simp]: "flattenGroups (stampMethod m groups) = flattenGroups groups"
  by (simp add: flattenGroups_def stampMethod_def comp_def)

lemma discover_keeps:
  assumes "discover env req manifests s = (r, s')" "shuffles (se_shuffle (rv_sel env))"
  shows "vs_budget s' = vs_budget s"
    "r = Inr (Inl (groups, flags)) \<Longrightarrow> c \<in> set (flattenGroups groups) \<Longrightarrow> sorted_out env (cd_Offer c)"
proof -
  have "vs_budget s' = vs_budget s \<and>
    (\<forall>groups flags c. r = Inr (Inl (groups, flags)) \<longrightarrow> c \<in> set (flattenGroups groups) \<longrightarrow> sorted_out env (cd_Offer c))"
  proof (cases "requestURIs req = []")
    case False
    note d = discover_uris [OF assms(1) False assms(2)]
    have "vs_budget s' = vs_budget s" using d(1) by (auto simp: sentTo_def)
    moreover have "sorted_out env (cd_Offer c)" if "r = Inr (Inl (groups, flags))" "c \<in> set (flattenGroups groups)" for groups flags c
      using d(2) that verifiedFor_sorted_out by (fastforce simp: answers_def flattenGroups_def)
    ultimately show ?thesis by blast
  next
    case True
    let ?exs = "exchangesFor env (vs_registry s) manifests"
    show ?thesis
    proof (cases "?exs = []")
      case none: True
      then show ?thesis using assms(1) True by (auto simp: discover_def)
    next
      case some: False
      obtain br s1 where b: "broadcastQuery env req ?exs s = (br, s1)" by (cases "broadcastQuery env req ?exs s")
      note ok = broadcastQuery_ok [OF b assms(2)]
      have "s' = s1" using assms(1) True some b by (auto simp: discover_def split: sum.splits)
      then have "vs_budget s' = vs_budget s" using ok(1) by (auto simp: sentTo_def)
      moreover have "sorted_out env (cd_Offer c)" if rr: "r = Inr (Inl (groups, flags))" and cc: "c \<in> set (flattenGroups groups)" for groups flags c
      proof -
        obtain g0 where "br = Inr (g0, flags)" "groups = stampMethod DISCOVERY_METHOD_SEARCH g0"
          using rr assms(1) True some b by (auto simp: discover_def split: sum.splits)
        then show ?thesis using ok(2) cc by simp
      qed
      ultimately show ?thesis by blast
    qed
  qed
  then show "vs_budget s' = vs_budget s"
    "r = Inr (Inl (groups, flags)) \<Longrightarrow> c \<in> set (flattenGroups groups) \<Longrightarrow> sorted_out env (cd_Offer c)" by blast+
qed

lemma Winner_in: "Winner sel groups = Some w \<Longrightarrow> w \<in> set (flattenGroups groups)"
proof -
  assume w: "Winner sel groups = Some w"
  let ?heads = "map (\<lambda>g. hd (og_Offers g)) (filter (\<lambda>g. og_Offers g \<noteq> []) groups)"
  have "?heads \<noteq> []" "w = hd (Rank sel ?heads)" using w by (auto simp: Winner_def Let_def split: if_splits)
  then have "w \<in> set ?heads" using hd_Rank_least(2) [of "hd ?heads" ?heads sel] by (metis hd_in_set)
  then show ?thesis using hd_in_set by (fastforce simp: flattenGroups_def)
qed

lemma costFixed_int64: "(\<And>i. int64 (se_Int64 sel i)) \<Longrightarrow> int64 (costFixed sel off)"
  by (simp add: costFixed_def DecimalToFixedPoint_def Let_def)

text \<open>Every agent's counter lies between zero and the limit.\<close>

definition capHolds :: "string \<Rightarrow> int \<Rightarrow> MemoryService \<Rightarrow> bool" where
  "capHolds period limit m \<longleftrightarrow> (\<forall>a. 0 \<le> memCount m (budgetKey period a) \<and> memCount m (budgetKey period a) \<le> limit)"

lemma Resolve_within:
  assumes "Resolve env rid req s = (r, s')" "shuffles (se_shuffle (rv_sel env))"
    and "rv_budget env = memoryService period" "rt_BudgetMinor req = limit" "rt_AgentID req \<noteq> []"
    and "0 < limit" "int64 limit" "\<And>off. sorted_out env off \<Longrightarrow> costFixed (rv_sel env) off \<le> max_int64 - limit"
    and "\<And>i. int64 (se_Int64 (rv_sel env) i)"
    and "capHolds period limit (vs_budget s)"
  shows "capHolds period limit (vs_budget s')"
  using assms(1)
proof (cases rule: Resolve_cases)
  case (licensed domains manifests oc groups flags s1 winner b)
  let ?c = "costFixed (rv_sel env) (cd_Offer winner)"
  have s1: "vs_budget s1 = vs_budget s" by (rule discover_keeps(1) [OF licensed(3) assms(2)])
  have "sorted_out env (cd_Offer winner)"
    using discover_keeps(2) [OF licensed(3) assms(2)] Winner_in [OF licensed(4)] by blast
  then have c: "?c \<le> max_int64 - limit" "int64 ?c" using assms(8,9) costFixed_int64 by blast+
  have w: "0 \<le> memCount (vs_budget s) (budgetKey period a)" "memCount (vs_budget s) (budgetKey period a) \<le> limit" for a
    using assms(10) by (simp_all add: capHolds_def)
  have sum: "int64 (memCount (vs_budget s) (budgetKey period a) + ?c)" for a
    using c w [of a] by (auto simp: int64_def max_int64_def min_int64_def)
  have fits: "int64 (memCount (vs_budget s) (budgetKey period a))" for a
    using w [of a] assms(7) by (auto simp: int64_def max_int64_def min_int64_def)
  have rec: "bd_Record (memoryService period) (vs_budget s) (rt_AgentID req) ?c = (b, False)"
    using licensed(6) assms(3) s1 by simp
  have chk: "checkBudget (rv_sel env) (memoryService period) (vs_budget s) (rt_AgentID req) limit (cd_Offer winner) = Inr True"
    using licensed(5) assms(3,4) s1 by simp
  have own: "0 \<le> memCount b (budgetKey period (rt_AgentID req)) \<and> memCount b (budgetKey period (rt_AgentID req)) \<le> limit"
    using mem.admitted_within [OF assms(5,6) chk rec assms(7) sum w(1) fits] by blast
  have "0 \<le> memCount b (budgetKey period a) \<and> memCount b (budgetKey period a) \<le> limit" for a
  proof (cases "a = rt_AgentID req")
    case True
    then show ?thesis using own by simp
  next
    case False
    then show ?thesis using mem.others [OF rec False] w [of a] by simp
  qed
  then show ?thesis using licensed(8) by (simp add: capHolds_def)
next
  case (stopped domains manifests oc groups flags s1)
  have "vs_budget s' = vs_budget s1"
    using stopped(4) assms(3) by (auto simp: memoryService_def mem_Record_def Let_def split: if_splits)
  then show ?thesis using discover_keeps(1) [OF stopped(3) assms(2)] assms(10) by simp
qed (use assms(10) discover_keeps(1) [OF _ assms(2)] in auto)

lemma canonicalHost_nonempty: "canonicalHost ids h = Some c \<Longrightarrow> c \<noteq> []"
proof -
  assume "canonicalHost ids h = Some c"
  then obtain n name p where n: "canonicalName ids n = Some name" "c = (if p = [] then name else name @ '':'' @ p)"
    by (auto simp: canonicalHost_def split: prod.splits option.splits)
  have "name \<noteq> []"
  proof (cases "take 1 n = ''[''")
    case True
    then show ?thesis using n(1) by (auto simp: canonicalName_def canonicalIPLiteral_def split: option.splits if_splits)
  next
    case False
    then obtain m where "(if endsInNumericLabel m then canonicalIPv4 ids m else if checkHostName m then Some m else None) = Some name"
      using n(1) by (auto simp: canonicalName_def split: option.splits)
    then show ?thesis
      using join_last by (auto simp: canonicalIPv4_def ParseAddr_def parseIPv4_def checkHostName_def Let_def
          split: option.splits if_splits list.splits)
  qed
  then show ?thesis using n(2) by simp
qed

text \<open>A history of calls: each with its own environment, request id and message.\<close>

fun resolve_run ::
  "('b resolve_env \<times> string \<times> DiscoveryRequest) list \<Rightarrow> 'b resolve_state \<Rightarrow> 'b resolve_state" where
  "resolve_run [] s = s"
| "resolve_run ((env, rid, msg) # calls) s = resolve_run calls (snd (connectResolve env rid msg s))"

definition capped_call :: "string \<Rightarrow> int \<Rightarrow> MemoryService resolve_env \<times> string \<times> DiscoveryRequest \<Rightarrow> bool" where
  "capped_call period limit call \<longleftrightarrow> (case call of (env, rid, msg) \<Rightarrow>
     shuffles (se_shuffle (rv_sel env)) \<and> rv_budget env = memoryService period \<and>
     rt_BudgetMinor (rampRequestToInput (rv_sel env) msg) = limit \<and>
     (\<forall>i. int64 (se_Int64 (rv_sel env) i)) \<and>
     (\<forall>off. sorted_out env off \<longrightarrow> costFixed (rv_sel env) off \<le> max_int64 - limit))"

lemma connectResolve_within:
  assumes "capped_call period limit (env, rid, msg)" "0 < limit" "int64 limit" "capHolds period limit (vs_budget s)"
  shows "capHolds period limit (vs_budget (snd (connectResolve env rid msg s)))"
proof -
  obtain r s' where c: "connectResolve env rid msg s = (r, s')" by (cases "connectResolve env rid msg s")
  then show ?thesis
  proof (cases rule: connectResolve_cases)
    case (refused x)
    then show ?thesis using c assms(4) by simp
  next
    case (ran req r' caller dir)
    obtain a where a: "req = (rampRequestToInput (rv_sel env) msg)\<lparr>rt_AgentID := a\<rparr>" using validate_InrD [OF ran(1)] by blast
    have "caller \<noteq> []"
      using ran(3) canonicalHost_nonempty by (auto simp: FromDirectory_def split: option.splits if_splits)
    then show ?thesis
      using Resolve_within [OF ran(5), of period limit] assms c a ran(4) by (simp add: capped_call_def)
  qed
qed

end
