(* ===== verification/Resolve_Properties.thy ===== *)
theory Resolve_Properties
  imports Resolve_Laws
begin

text \<open>
  Properties of the Broker's discovery call, from the signed wire request to the wire response, with a
  deployment of two publishers and two exchanges as the concrete instance.
\<close>

section \<open>Statements\<close>

text \<open>C33. Every query goes where the publisher said: for a request naming URLs, each query the Broker
  sends goes to the endpoint an unblocked, healthy registered exchange advertises itself, is
  addressed to that exchange, carries only requested URLs whose own publisher's manifest names that
  exchange, and is made in the name of the identity that signed the request.\<close>

theorem resolve_routes_by_manifest:
  assumes "shuffles (se_shuffle (rv_sel env))" "dq_Uris msg \<noteq> []" "connectResolve env rid msg s = (r, s')"
  shows "\<exists>new. vs_calls s' = vs_calls s @ new \<and> (\<forall>(endpoint, q) \<in> set new.
    (\<exists>m \<in> set (vs_registry s). xr_Domain m = qy_Exchange q \<and> row_Admission m = AdmissionLive \<and>
       rv_ResolveEndpoint env (qy_Exchange q) = Inr endpoint) \<and>
    (\<forall>u \<in> set (qy_Uris q). u \<in> set (dq_Uris msg) \<and>
       (\<exists>pub m. DomainOf (rv_ids env) u = Some pub \<and> Probe env pub = Inr m \<and>
          qy_Exchange q \<in> ax_Domain ` set (mf_Exchanges m))) \<and>
    (\<exists>dir. rv_SignatureAgent env = Some dir \<and> FromDirectory (rv_ids env) dir = Some (rr_Id (qy_Requester q))))"
  using assms(3)
proof (cases rule: connectResolve_cases)
  case (refused c)
  then show ?thesis by simp
next
  case (ran req r' caller dir)
  have uris: "requestURIs req = dq_Uris msg" by (rule validated_uris [OF ran(1) assms(2)])
  obtain domains s1 where s1: "sentTo env req (routes_ok env (vs_registry s) (requestURIs req) (fst (probeDomains env domains))) s s1"
      "vs_calls s' = vs_calls s1"
    using Resolve_sent [OF ran(5)] uris assms(1,2) by metis
  let ?R = "routes_ok env (vs_registry s) (requestURIs req) (fst (probeDomains env domains))"
  obtain new where new: "s1 = s\<lparr>vs_calls := vs_calls s @ new\<rparr>"
      "\<forall>(ep, q) \<in> set new. \<exists>(ex, us) \<in> ?R. ep = xr_Endpoint ex \<and> q = buildResourceQuery env req (xr_Domain ex) us"
    using s1(1) unfolding sentTo_def by blast
  have "(\<exists>m \<in> set (vs_registry s). xr_Domain m = qy_Exchange q \<and> row_Admission m = AdmissionLive \<and>
       rv_ResolveEndpoint env (qy_Exchange q) = Inr ep) \<and>
    (\<forall>u \<in> set (qy_Uris q). u \<in> set (dq_Uris msg) \<and>
       (\<exists>pub m. DomainOf (rv_ids env) u = Some pub \<and> Probe env pub = Inr m \<and>
          qy_Exchange q \<in> ax_Domain ` set (mf_Exchanges m))) \<and> rr_Id (qy_Requester q) = caller"
    if call: "(ep, q) \<in> set new" for ep q
  proof -
    obtain ex us d where e: "usable env (vs_registry s) d ex" "ep = xr_Endpoint ex"
        "\<forall>u \<in> set us. u \<in> set (requestURIs req) \<and> names env (fst (probeDomains env domains)) u d"
        "q = buildResourceQuery env req (xr_Domain ex) us"
      using new(2) call unfolding routes_ok_def by blast
    have q: "qy_Exchange q = d" "qy_Uris q = us" "rr_Id (qy_Requester q) = caller"
      using e(4) usable_domain [OF e(1)] ran(4) by (simp_all add: buildResourceQuery_def buildRequester_def)
    have "\<exists>m \<in> set (vs_registry s). xr_Domain m = d \<and> row_Admission m = AdmissionLive \<and> rv_ResolveEndpoint env d = Inr ep"
      using e(1,2) by (auto simp: usable_def)
    moreover have "\<exists>pub m. DomainOf (rv_ids env) u = Some pub \<and> Probe env pub = Inr m \<and> d \<in> ax_Domain ` set (mf_Exchanges m)"
      if "u \<in> set us" for u
      using e(3) that map_of_probeDomains unfolding names_def by blast
    ultimately show ?thesis using q e(3) uris by auto
  qed
  then show ?thesis using s1(2) new(1) ran(2,3) by (intro exI [of _ new]) auto
qed

text \<open>C34. What the agent gets back: the answer to a request naming URLs is either a refusal that states
  its reason and carries no group, or exactly one group per requested URL, in request order, marked
  as found by exchange lookup, at least one of them with an offer, and every offer passed the
  verifier in a group some exchange returned for that very URL.\<close>

theorem resolve_answers_each_url:
  assumes "shuffles (se_shuffle (rv_sel env))" "dq_Uris msg \<noteq> []" "connectResolve env rid msg s = (Inr resp, s')"
  shows "(dr_OfferGroups resp = [] \<and> dr_AbsenceReason resp \<noteq> None) \<or>
    (dr_AbsenceReason resp = None \<and> map wg_Uri (dr_OfferGroups resp) = dq_Uris msg \<and>
     (\<exists>g \<in> set (dr_OfferGroups resp). wg_Offers g \<noteq> []) \<and>
     (\<forall>g \<in> set (dr_OfferGroups resp). wg_DiscoveryMethod g = Some DISCOVERY_METHOD_EXCHANGE \<and>
        (\<forall>off \<in> set (wg_Offers g). verifiedFor env (wg_Uri g) off)))"
  using assms(3)
proof (cases rule: connectResolve_cases)
  case (ran req r' caller dir)
  have uris: "requestURIs req = dq_Uris msg" by (rule validated_uris [OF ran(1) assms(2)])
  obtain resp' where r': "r' = Inr resp'" "resp = toDiscoveryResponse (rv_ProtocolVersion env) resp'"
    using ran(6) by (auto split: sum.splits)
  have "Resolve env rid req s = (Inr resp', s')" using ran(5) r'(1) by simp
  from Resolve_answers [OF this] uris assms(1,2)
  consider "rsp_Groups resp' = []" "rsp_AbsenceReason resp' \<noteq> OFFER_ABSENCE_REASON_UNSPECIFIED"
    | "rsp_AbsenceReason resp' = OFFER_ABSENCE_REASON_UNSPECIFIED" "answers env (dq_Uris msg) (rsp_Groups resp')"
      "flattenGroups (rsp_Groups resp') \<noteq> []"
      "\<forall>g \<in> set (rsp_Groups resp'). og_DiscoveryMethod g = DISCOVERY_METHOD_EXCHANGE"
    by auto
  then show ?thesis
  proof cases
    case 1
    then show ?thesis using r'(2) by (simp add: toDiscoveryResponse_def)
  next
    case 2
    then show ?thesis
      using r'(2) by (auto simp: toDiscoveryResponse_def toWireOfferGroup_def answers_def flattenGroups_def comp_def)
  qed
qed simp

text \<open>C35. The cap holds: over any sequence of discovery calls by any agents against the in-memory
  service, each carrying the same period budget, no agent's recorded spend ever exceeds it, provided
  no verified price is so large that adding it to the budget leaves the \<open>int64\<close> range.\<close>

theorem resolve_spend_capped:
  assumes "\<forall>call \<in> set calls. capped_call period limit call" "0 < limit" "int64 limit"
    and "capHolds period limit (vs_budget s)"
  shows "capHolds period limit (vs_budget (resolve_run calls s))"
  using assms(1,4)
proof (induction calls arbitrary: s)
  case (Cons call calls)
  obtain env rid msg where call: "call = (env, rid, msg)" by (cases call)
  have "capHolds period limit (vs_budget (snd (connectResolve env rid msg s)))"
    using connectResolve_within [OF _ assms(2,3)] Cons.prems call by simp
  then show ?case using Cons.IH Cons.prems(1) call by simp
qed simp

section \<open>A concrete deployment\<close>

text \<open>Two publishers, each naming one of two registered exchanges; \<open>answer\<close> is what the exchanges return.\<close>

definition vx_manifest :: "string \<Rightarrow> WellKnownManifest" where
  "vx_manifest d = \<lparr>wk_Ver = ''1'', wk_Domain = d, wk_Exchanges = [(if d = ''p.com'' then ''x.com'' else ''y.com'', [])],
     wk_SupportedProfiles = []\<rparr>"

definition vx_genuine :: "Offer list" where
  "vx_genuine = [sx_offer ''ox'' ''p'' ''2'', sx_offer ''oy'' ''q'' ''1'', sx_offer ''oy'' ''p'' ''1'']"

definition vx_env :: "(string \<Rightarrow> WireGroup list) \<Rightarrow> MemoryService resolve_env" where
  "vx_env answer = \<lparr>rv_sel = sx_env, rv_ids = exAgentid, rv_budget = memoryService ''2026-01'',
     rv_SignatureAgent = Some ''https://agent.com'', rv_Search = (\<lambda>q. None),
     rv_manifestGet = (\<lambda>d. if d = ''p.com'' \<or> d = ''q.com'' then Inr (vx_manifest d) else Inl True),
     rv_rangeManifests = (\<lambda>ms. ms), rv_registryDown = False, rv_ResolveEndpoint = (\<lambda>d. Inr (''at-'' @ d)),
     rv_IsBareDomain = (\<lambda>d. True), rv_SignForward = (\<lambda>q. True),
     rv_DiscoverResources = (\<lambda>n ep q. Some (answer (qy_Exchange q))),
     rv_Sort = filter (\<lambda>off. off \<in> set vx_genuine), rv_logFault = False, rv_ProtocolVersion = ''1''\<rparr>"

definition vx_row :: "string \<Rightarrow> Exchange" where
  "vx_row d = \<lparr>xr_ID = d, xr_Domain = d, xr_Endpoint = [], xr_TrustLevel = TrustLevelVerified, xr_Healthy = True,
     xr_SupportedProfiles = [], xr_Priority = 0\<rparr>"

definition vx_state :: "MemoryService resolve_state" where
  "vx_state = \<lparr>vs_registry = [vx_row ''x.com'', vx_row ''y.com''], vs_budget = NewMemory, vs_log = [], vs_calls = []\<rparr>"

definition vx_msg :: DiscoveryRequest where
  "vx_msg = \<lparr>dq_Requester = \<lparr>rr_Id = ''agent.com'', rr_Domain = []\<rparr>, dq_Query = [],
     dq_Uris = [''https://p.com/a'', ''https://q.com/b''], dq_AcceptableRestrictions = [],
     dq_Constraints = Some (Some ''2'', None)\<rparr>"

definition vx_group :: "string \<Rightarrow> Offer list \<Rightarrow> WireGroup" where
  "vx_group uri offs = \<lparr>wg_Uri = uri, wg_DiscoveryMethod = None, wg_AbsenceReason = None, wg_Offers = offs\<rparr>"

definition vx_fair :: "string \<Rightarrow> WireGroup list" where
  "vx_fair d = (if d = ''x.com'' then [vx_group ''https://p.com/a'' [sx_offer ''ox'' ''p'' ''2'']]
                else [vx_group ''https://q.com/b'' [sx_offer ''oy'' ''q'' ''1'']])"

definition vx_rejected :: "string \<Rightarrow> WireGroup list" where
  "vx_rejected d = (if d = ''x.com'' then [vx_group ''https://p.com/a'' [sx_offer ''bad'' ''p'' ''2'']]
                    else [vx_group ''https://q.com/b'' [sx_offer ''oy'' ''q'' ''1'']])"


definition vx_groups :: "(Code, DiscoveryResponse) res \<Rightarrow> (string \<times> string list \<times> bool) list" where
  "vx_groups r = (case r of Inl e \<Rightarrow> []
     | Inr resp \<Rightarrow> map (\<lambda>g. (wg_Uri g, map of_OfferId (wg_Offers g), wg_AbsenceReason g = None)) (dr_OfferGroups resp))"

lemma vx_shuffles: "shuffles (se_shuffle (rv_sel (vx_env answer)))"
  using sx_shuffles(1) by (simp add: vx_env_def)

theorem resolve_routes_by_manifest_witness:
  "shuffles (se_shuffle (rv_sel (vx_env vx_fair))) \<and> dq_Uris vx_msg \<noteq> [] \<and>
   map fst (vs_calls (snd (connectResolve (vx_env vx_fair) ''r1'' vx_msg vx_state))) = [''at-x.com'', ''at-y.com''] \<and>
   list_all (\<lambda>(endpoint, q). list_ex (\<lambda>m. xr_Domain m = qy_Exchange q \<and> row_Admission m = AdmissionLive) (vs_registry vx_state))
     (vs_calls (snd (connectResolve (vx_env vx_fair) ''r1'' vx_msg vx_state)))"
proof -
  let ?c = "connectResolve (vx_env vx_fair) ''r1'' vx_msg vx_state"
  have msg: "dq_Uris vx_msg \<noteq> []" by (simp add: vx_msg_def)
  have calls: "map fst (vs_calls (snd ?c)) = [''at-x.com'', ''at-y.com'']" by code_simp
  have pair: "?c = (fst ?c, snd ?c)" by simp
  from resolve_routes_by_manifest [OF vx_shuffles msg pair]
  have "\<forall>(endpoint, q) \<in> set (vs_calls (snd ?c)). \<exists>m \<in> set (vs_registry vx_state).
      xr_Domain m = qy_Exchange q \<and> row_Admission m = AdmissionLive"
    by (elim exE conjE) (simp add: vx_state_def, blast)
  then show ?thesis using msg calls vx_shuffles by (simp add: list_all_iff list_ex_iff)
qed

theorem resolve_answers_each_url_witness:
  "vx_groups (fst (connectResolve (vx_env vx_fair) ''r1'' vx_msg vx_state)) =
     [(''https://p.com/a'', [''ox''], True), (''https://q.com/b'', [''oy''], True)] \<and>
   (\<exists>resp. fst (connectResolve (vx_env vx_fair) ''r1'' vx_msg vx_state) = Inr resp \<and>
      map wg_Uri (dr_OfferGroups resp) = dq_Uris vx_msg)"
proof -
  let ?c = "connectResolve (vx_env vx_fair) ''r1'' vx_msg vx_state"
  have g: "vx_groups (fst ?c) = [(''https://p.com/a'', [''ox''], True), (''https://q.com/b'', [''oy''], True)]"
    by code_simp
  then obtain resp where r: "fst ?c = Inr resp" by (auto simp: vx_groups_def split: sum.splits)
  then have eq: "?c = (Inr resp, snd ?c)" by (metis prod.collapse)
  have "dr_OfferGroups resp \<noteq> []" using g r by (auto simp: vx_groups_def)
  moreover have "dq_Uris vx_msg \<noteq> []" by (simp add: vx_msg_def)
  ultimately have "map wg_Uri (dr_OfferGroups resp) = dq_Uris vx_msg"
    using resolve_answers_each_url [OF vx_shuffles _ eq] by blast
  then show ?thesis using g r by blast
qed

lemma vx_capped: "capped_call ''2026-01'' 200000000 (vx_env vx_fair, ''r1'', vx_msg)"
proof -
  have cost: "costFixed sx_env off \<le> max_int64 - 200000000" if "off \<in> set vx_genuine" for off
  proof -
    have "list_all (\<lambda>off. costFixed sx_env off \<le> max_int64 - 200000000) vx_genuine" by code_simp
    then show ?thesis using that by (simp add: list_all_iff)
  qed
  have "rt_BudgetMinor (rampRequestToInput sx_env vx_msg) = 200000000" by code_simp
  moreover have "int64 (se_Int64 sx_env i)" for i
    by (simp add: sx_env_def int64_def min_int64_def max_int64_def)
  moreover have "off \<in> set vx_genuine" if "sorted_out (vx_env vx_fair) off" for off
    using that by (auto simp: sorted_out_def vx_env_def)
  ultimately show ?thesis
    using cost vx_shuffles [of vx_fair] by (auto simp: capped_call_def vx_env_def)
qed

theorem resolve_spend_capped_witness:
  "capHolds ''2026-01'' 200000000
     (vs_budget (resolve_run [(vx_env vx_fair, ''r1'', vx_msg), (vx_env vx_fair, ''r2'', vx_msg)] vx_state)) \<and>
   memCount (vs_budget (resolve_run [(vx_env vx_fair, ''r1'', vx_msg), (vx_env vx_fair, ''r2'', vx_msg)] vx_state))
     (budgetKey ''2026-01'' ''agent.com'') = 200000000"
proof -
  have two: "\<forall>call \<in> set [(vx_env vx_fair, ''r1'', vx_msg), (vx_env vx_fair, ''r2'', vx_msg)]. capped_call ''2026-01'' 200000000 call"
    using vx_capped by (simp add: capped_call_def)
  have "capHolds ''2026-01'' 200000000 (vs_budget vx_state)"
    by (simp add: capHolds_def vx_state_def NewMemory_def memCount_def)
  moreover have "memCount (vs_budget (resolve_run [(vx_env vx_fair, ''r1'', vx_msg), (vx_env vx_fair, ''r2'', vx_msg)] vx_state))
     (budgetKey ''2026-01'' ''agent.com'') = 200000000"
    by code_simp
  ultimately show ?thesis
    using resolve_spend_capped [OF two] by (simp add: int64_def min_int64_def max_int64_def)
qed

text \<open>An absence without a cause: when every offer an exchange returned for a URL fails verification
  and another URL of the request is served, the agent receives a group with neither an offer nor a
  reason for the first URL.\<close>

theorem resolve_unexplained_absence:
  "vx_groups (fst (connectResolve (vx_env vx_rejected) ''r1'' vx_msg vx_state)) =
     [(''https://p.com/a'', [], True), (''https://q.com/b'', [''oy''], True)]"
  by code_simp


end
