(* ===== verification/Go_Strings.thy ===== *)
theory Go_Strings
  imports Agent_Id Sha256
begin

text \<open>
  The parts of the Go standard library the signature and document packages use on strings and byte
  slices: \<open>strings.TrimSpace\<close> on UTF-8 text, ASCII case folding, \<open>strings.HasPrefix\<close> and the two
  base64 encodings. Strings are sequences of bytes.
\<close>

section \<open>Strings\<close>

text \<open>The UTF-8 encodings of the code points \<open>unicode.IsSpace\<close> accepts.\<close>

definition spaceRunes :: "string list" where
  "spaceRunes = [[CHR 0x09], [CHR 0x0A], [CHR 0x0B], [CHR 0x0C], [CHR 0x0D], [CHR 0x20],
     [CHR 0xC2, CHR 0x85], [CHR 0xC2, CHR 0xA0], [CHR 0xE1, CHR 0x9A, CHR 0x80]] @
     map (\<lambda>n. [CHR 0xE2, CHR 0x80, char_of (n :: nat)]) ([0x80..<0x8B] @ [0xA8, 0xA9, 0xAF]) @
     [[CHR 0xE2, CHR 0x81, CHR 0x9F], [CHR 0xE3, CHR 0x80, CHR 0x80]]"

function trimLeading :: "string list \<Rightarrow> string \<Rightarrow> string" where
  "trimLeading ws s =
     (case find (\<lambda>w. w \<noteq> [] \<and> take (length w) s = w) ws of
        None \<Rightarrow> s
      | Some w \<Rightarrow> trimLeading ws (drop (length w) s))"
  by pat_completeness auto
termination
proof (relation "measure (\<lambda>(ws, s). length s)", simp)
  fix ws :: "string list" and s w
  assume "find (\<lambda>w. w \<noteq> [] \<and> take (length w) s = w) ws = Some w"
  then have "w \<noteq> []" "take (length w) s = w" by (auto simp: find_Some_iff)
  then have "0 < length w" "0 < length s" by auto
  then show "((ws, drop (length w) s), (ws, s)) \<in> measure (\<lambda>(ws, s). length s)" by simp
qed

declare trimLeading.simps [simp del]

definition TrimSpace :: "string \<Rightarrow> string" where
  "TrimSpace s = rev (trimLeading (map rev spaceRunes) (rev (trimLeading spaceRunes s)))"

text \<open>\<open>strings.ToLower\<close> and \<open>strings.EqualFold\<close> on ASCII text.\<close>

definition ToLower :: "string \<Rightarrow> string" where "ToLower = map ascii_lower"

definition EqualFold :: "string \<Rightarrow> string \<Rightarrow> bool" where
  "EqualFold a b \<longleftrightarrow> ToLower a = ToLower b"

definition ascii_upper :: "char \<Rightarrow> char" where
  "ascii_upper c = (if 97 \<le> (of_char c :: nat) \<and> of_char c \<le> (122 :: nat) then char_of (of_char c - 32 :: nat) else c)"

definition ToUpper :: "string \<Rightarrow> string" where "ToUpper = map ascii_upper"

definition HasPrefix :: "string \<Rightarrow> string \<Rightarrow> bool" where
  "HasPrefix s p \<longleftrightarrow> take (length p) s = p"

definition TrimPrefix :: "string \<Rightarrow> string \<Rightarrow> string" where
  "TrimPrefix s p = (if HasPrefix s p then drop (length p) s else s)"

section \<open>Base64\<close>

text \<open>\<open>base64.StdEncoding\<close> and \<open>base64.RawURLEncoding\<close> as functions on bytes below 256.\<close>

definition b64_char :: "string \<Rightarrow> nat \<Rightarrow> char" where
  "b64_char tail n =
     (if n < 26 then char_of (65 + n) else if n < 52 then char_of (71 + n)
      else if n < 62 then char_of (n - 4) else if n = 62 then tail ! 0 else tail ! 1)"

fun b64_encode :: "string \<Rightarrow> string \<Rightarrow> nat list \<Rightarrow> string" where
  "b64_encode tail fill [] = []"
| "b64_encode tail fill [a] =
     [b64_char tail (a div 4), b64_char tail (a mod 4 * 16)] @ fill @ fill"
| "b64_encode tail fill [a, b] =
     [b64_char tail (a div 4), b64_char tail (a mod 4 * 16 + b div 16), b64_char tail (b mod 16 * 4)] @ fill"
| "b64_encode tail fill (a # b # c # r) =
     [b64_char tail (a div 4), b64_char tail (a mod 4 * 16 + b div 16),
      b64_char tail (b mod 16 * 4 + c div 64), b64_char tail (c mod 64)] @ b64_encode tail fill r"

definition StdEncode :: "nat list \<Rightarrow> string" where "StdEncode = b64_encode ''+/'' ''=''"

definition RawURLEncode :: "nat list \<Rightarrow> string" where "RawURLEncode = b64_encode ''-_'' []"

definition url_value :: "char \<Rightarrow> nat option" where
  "url_value c = (let n = of_char c :: nat in
     if 65 \<le> n \<and> n \<le> 90 then Some (n - 65) else if 97 \<le> n \<and> n \<le> 122 then Some (n - 71)
     else if 48 \<le> n \<and> n \<le> 57 then Some (n + 4) else if c = CHR ''-'' then Some 62
     else if c = CHR ''_'' then Some 63 else None)"

fun b64_group :: "nat list \<Rightarrow> nat list option" where
  "b64_group [] = Some []"
| "b64_group [p] = None"
| "b64_group [p, q] = Some [p * 4 + q div 16]"
| "b64_group [p, q, r] = Some [p * 4 + q div 16, q mod 16 * 16 + r div 4]"
| "b64_group (p # q # r # s # t) =
     map_option (\<lambda>bs. [p * 4 + q div 16, q mod 16 * 16 + r div 4, r mod 4 * 64 + s] @ bs) (b64_group t)"

text \<open>\<open>RawURLEncoding.DecodeString\<close> skips line breaks and ignores the unused low bits of the last
  character; \<open>None\<close> is a corrupt input.\<close>

definition RawURLDecode :: "string \<Rightarrow> nat list option" where
  "RawURLDecode s =
     (let vs = map url_value (filter (\<lambda>c. c \<noteq> CHR 0x0A \<and> c \<noteq> CHR 0x0D) s)
      in if None \<in> set vs then None else b64_group (map the vs))"

section \<open>Lemmas\<close>

lemma length_ToLower [simp]: "length (ToLower s) = length s"
  by (simp add: ToLower_def)

lemma ascii_lower_idem [simp]: "ascii_lower (ascii_lower c) = ascii_lower c"
proof (cases "65 \<le> (of_char c :: nat) \<and> of_char c \<le> (90 :: nat)")
  case True
  then have "of_char (char_of (of_char c + 32 :: nat)) = (of_char c + 32 :: nat)" by (simp add: of_char_of)
  then show ?thesis using True by (simp add: ascii_lower_def)
qed (auto simp: ascii_lower_def)

lemma ToLower_idem [simp]: "ToLower (ToLower s) = ToLower s"
  by (simp add: ToLower_def)

lemma trimLeading_plain:
  assumes "s \<noteq> []" "\<forall>w \<in> set ws. w \<noteq> [] \<longrightarrow> hd w \<noteq> hd s"
  shows "trimLeading ws s = s"
proof -
  have "\<not> (w \<noteq> [] \<and> take (length w) s = w)" if "w \<in> set ws" for w
    using assms that by (cases s; cases w) auto
  then have "find (\<lambda>w. w \<noteq> [] \<and> take (length w) s = w) ws = None" by (auto simp: find_None_iff)
  then show ?thesis by (simp add: trimLeading.simps [of ws s])
qed

lemma spaceRunes_ends: "w \<in> set spaceRunes \<Longrightarrow> w \<noteq> [] \<and>
    (of_char (hd w) \<le> (32 :: nat) \<or> 127 < (of_char (hd w) :: nat)) \<and>
    (of_char (last w) \<le> (32 :: nat) \<or> 127 < (of_char (last w) :: nat))"
  by (auto simp: spaceRunes_def of_char_of)

lemma TrimSpace_graph:
  assumes "s \<noteq> []" "32 < (of_char (hd s) :: nat)" "of_char (hd s) < (127 :: nat)"
    "32 < (of_char (last s) :: nat)" "of_char (last s) < (127 :: nat)"
  shows "TrimSpace s = s"
proof -
  have "trimLeading spaceRunes s = s"
    by (rule trimLeading_plain [OF assms(1)]) (use spaceRunes_ends assms(2,3) in fastforce)
  moreover have "trimLeading (map rev spaceRunes) (rev s) = rev s"
    by (rule trimLeading_plain) (use spaceRunes_ends assms in \<open>fastforce simp: hd_rev\<close>)+
  ultimately show ?thesis by (simp add: TrimSpace_def)
qed

lemma url_value_char: "n < 64 \<Longrightarrow> url_value (b64_char ''-_'' n) = Some n"
  by (auto simp: url_value_def b64_char_def of_char_of Let_def)

lemma b64_char_no_break: "n < 64 \<Longrightarrow> b64_char ''-_'' n \<noteq> CHR 0x0A \<and> b64_char ''-_'' n \<noteq> CHR 0x0D"
  using url_value_char [of n] by (auto simp: url_value_def)

lemma RawURLDecode_chars:
  assumes "\<forall>v \<in> set vs. v < 64"
  shows "RawURLDecode (map (b64_char ''-_'') vs) = b64_group vs"
proof -
  have "filter (\<lambda>c. c \<noteq> CHR 0x0A \<and> c \<noteq> CHR 0x0D) (map (b64_char ''-_'') vs) = map (b64_char ''-_'') vs"
    by (rule filter_True) (use assms b64_char_no_break in auto)
  moreover have "map url_value (map (b64_char ''-_'') vs) = map Some vs"
    using assms url_value_char by auto
  ultimately have "RawURLDecode (map (b64_char ''-_'') vs) =
      (if None \<in> set (map Some vs) then None else b64_group (map the (map Some vs)))"
    unfolding RawURLDecode_def Let_def by (simp only:)
  then show ?thesis by (simp add: comp_def image_iff)
qed

fun b64_values :: "nat list \<Rightarrow> nat list" where
  "b64_values [] = []"
| "b64_values [a] = [a div 4, a mod 4 * 16]"
| "b64_values [a, b] = [a div 4, a mod 4 * 16 + b div 16, b mod 16 * 4]"
| "b64_values (a # b # c # r) =
     [a div 4, a mod 4 * 16 + b div 16, b mod 16 * 4 + c div 64, c mod 64] @ b64_values r"

lemma b64_encode_values: "b64_encode tail [] bs = map (b64_char tail) (b64_values bs)"
  by (induction bs rule: b64_values.induct) auto

lemma b64_pack:
  fixes a b c :: nat
  assumes "a < 256" "b < 256" "c < 256"
  shows "a div 4 < 64" "a mod 4 * 16 < 64" "a mod 4 * 16 + b div 16 < 64" "b mod 16 * 4 < 64"
    "b mod 16 * 4 + c div 64 < 64" "c mod 64 < 64"
proof -
  have "a mod 4 < 4" "b mod 16 < 16" "c mod 64 < 64" "b div 16 < 16" "c div 64 < 4" "a div 4 < 64"
    using assms by simp_all
  then show "a div 4 < 64" "a mod 4 * 16 < 64" "a mod 4 * 16 + b div 16 < 64" "b mod 16 * 4 < 64"
    "b mod 16 * 4 + c div 64 < 64" "c mod 64 < 64" by linarith+
qed

lemma b64_values_range: "\<forall>b \<in> set bs. b < 256 \<Longrightarrow> \<forall>v \<in> set (b64_values bs). v < 64"
  by (induction bs rule: b64_values.induct) (auto simp: b64_pack)

lemma b64_unpack:
  fixes a b c :: nat
  assumes "b < 256" "c < 256"
  shows "a div 4 * 4 + (a mod 4 * 16 + b div 16) div 16 = a" "a div 4 * 4 + a mod 4 * 16 div 16 = a"
    "(a mod 4 * 16 + b div 16) mod 16 * 16 + (b mod 16 * 4 + c div 64) div 4 = b"
    "(a mod 4 * 16 + b div 16) mod 16 * 16 + b mod 16 * 4 div 4 = b"
    "(b mod 16 * 4 + c div 64) mod 4 * 64 + c mod 64 = c"
proof -
  have "b div 16 < 16" "c div 64 < 4" using assms by simp_all
  then show "a div 4 * 4 + (a mod 4 * 16 + b div 16) div 16 = a"
    "(a mod 4 * 16 + b div 16) mod 16 * 16 + (b mod 16 * 4 + c div 64) div 4 = b"
    "(a mod 4 * 16 + b div 16) mod 16 * 16 + b mod 16 * 4 div 4 = b"
    "(b mod 16 * 4 + c div 64) mod 4 * 64 + c mod 64 = c" by simp_all
  show "a div 4 * 4 + a mod 4 * 16 div 16 = a" by simp
qed

lemma b64_group_values: "\<forall>b \<in> set bs. b < 256 \<Longrightarrow> b64_group (b64_values bs) = Some bs"
  by (induction bs rule: b64_values.induct) (use b64_unpack in auto)

lemma RawURL_roundtrip: "\<forall>b \<in> set bs. b < 256 \<Longrightarrow> RawURLDecode (RawURLEncode bs) = Some bs"
  by (simp add: RawURLEncode_def b64_encode_values RawURLDecode_chars b64_values_range b64_group_values)

end
