(* ===== verification/Http_Signature.thy ===== *)
theory Http_Signature
  imports Go_Strings Replay_Store
begin

text \<open>
  HTTP message signatures (\<open>internal/httpsig\<close>): parsing of the signature headers, the verifier and its
  forwarding chain, the signers of the RAMP and Web Bot Auth profiles, the agent-binding signature
  base, the replay store and the middleware.

  Structured-field parsing (\<open>httpsfv\<close>), the signature base and the Ed25519 calls (\<open>httpsign\<close>) and the
  random source are parameters in \<open>httpsig_env\<close>; the key directory is the \<open>resolver\<close> argument. The
  library stamps the creation time itself, so its signing call takes the clock reading.
  Header names are matched without regard to case, so a header is a function of the lower-case name.
  Instants and durations are nanoseconds. A private key is its 64 bytes, of which the last 32 are the
  public key. Nil structured-field parameters are the empty list.
\<close>

section \<open>Requests\<close>

type_synonym Header = "string \<Rightarrow> string list"

definition header_values :: "Header \<Rightarrow> string \<Rightarrow> string list" where
  "header_values h name = h (ToLower name)"

definition header_get :: "Header \<Rightarrow> string \<Rightarrow> string" where
  "header_get h name = (case header_values h name of [] \<Rightarrow> [] | v # _ \<Rightarrow> v)"

definition header_set :: "Header \<Rightarrow> string \<Rightarrow> string \<Rightarrow> Header" where
  "header_set h name v = h(ToLower name := [v])"

record HttpRequest =
  hr_Method :: string
  hr_TargetURI :: string
  hr_Authority :: string
  hr_Path :: string
  hr_Header :: Header
  hr_Body :: "string option"
  hr_BodyFails :: bool

definition setHeader :: "HttpRequest \<Rightarrow> string \<Rightarrow> string \<Rightarrow> HttpRequest" where
  "setHeader req name v = req\<lparr>hr_Header := header_set (hr_Header req) name v\<rparr>"

section \<open>Structured fields and the libraries\<close>

datatype bare_item = BareString string | BareInteger int | BareBytes string | BareOther

type_synonym sf_params = "(string \<times> bare_item) list"

datatype sf_member = MemberInnerList "(bare_item \<times> sf_params) list" sf_params | MemberItem bare_item sf_params

type_synonym Dictionary = "(string \<times> sf_member) list"

text \<open>The covered fields and the signature parameters handed to \<open>httpsign\<close>.\<close>

datatype sign_field = FieldHeader string | FieldDict string string

record SignConfig =
  sc_KeyID :: string
  sc_Expires :: "int option"
  sc_Tag :: "string option"
  sc_Nonce :: "string option"

record httpsig_env =
  he_ids :: agentid_env
  he_UnmarshalDictionary :: "string list \<Rightarrow> Dictionary option"
  he_MarshalString :: "string \<Rightarrow> string option"
  he_SignRequest :: "int \<Rightarrow> string \<Rightarrow> sign_field list \<Rightarrow> SignConfig \<Rightarrow> string \<Rightarrow> HttpRequest \<Rightarrow> (string \<times> string) option"
  he_VerifyRequest :: "string \<Rightarrow> string \<Rightarrow> HttpRequest \<Rightarrow> bool"
  he_random :: "nat \<Rightarrow> nat list option"

datatype httpsig_error = ErrMissingSignatureInput | ErrMissingSignature | ErrMissingContentDigest
  | ErrMalformedSignatureInput | ErrUnsupportedAlgorithm | ErrDigestMismatch | ErrSignatureVerify
  | ErrBrokenSignatureChain | ErrTooManyHops | ErrInvalidSigningKey | ErrMissingRequiredComponent string
  | ErrExpired | ErrFutureCreated | ErrMissingCreated | ErrMissingExpires | ErrReplayed
  | ErrMissingDirectory | ErrMissingKeyID | ErrKeyLength | ErrReadBody | ErrLibrary | ErrReplayStore
  | ErrResolve string

section \<open>Covered components\<close>

record ComponentParam =
  cp_Key :: string
  cp_Val :: string

record CoveredComponent =
  cc_Name :: string
  cc_Params :: "ComponentParam list"

record Params =
  pa_Label :: string
  pa_Covered :: "CoveredComponent list"
  pa_KeyID :: string
  pa_Alg :: string
  pa_Created :: int
  pa_Expires :: int
  pa_Tag :: string
  pa_Nonce :: string

definition coversComponent :: "CoveredComponent list \<Rightarrow> string \<Rightarrow> bool" where
  "coversComponent covered name \<longleftrightarrow> list_ex (\<lambda>c. EqualFold (cc_Name c) name) covered"

definition plainComponents :: "string list \<Rightarrow> CoveredComponent list" where
  "plainComponents names = map (\<lambda>n. \<lparr>cc_Name = n, cc_Params = []\<rparr>) names"

definition componentParam :: "CoveredComponent \<Rightarrow> string \<Rightarrow> string" where
  "componentParam c key = (case find (\<lambda>p. cp_Key p = key) (cc_Params c) of None \<Rightarrow> [] | Some p \<Rightarrow> cp_Val p)"

definition contentDigest :: "string \<Rightarrow> string" where
  "contentDigest body = ''sha-256=:'' @ StdEncode (sha256 body) @ '':''"

definition verifyContentDigest :: "Header \<Rightarrow> string \<Rightarrow> CoveredComponent list \<Rightarrow> httpsig_error option" where
  "verifyContentDigest h body covered =
     (if \<not> coversComponent covered ''content-digest'' then None
      else let raw = header_get h ''Content-Digest''
           in if raw = [] then Some ErrMissingContentDigest
              else if TrimSpace raw \<noteq> contentDigest body then Some ErrDigestMismatch else None)"

section \<open>Parsing\<close>

fun itemParams :: "sf_params \<Rightarrow> string list \<Rightarrow> (httpsig_error, ComponentParam list) res" where
  "itemParams ps [] = Inr []"
| "itemParams ps (k # ks) =
     (case map_of ps k of
        None \<Rightarrow> itemParams ps ks
      | Some (BareString v) \<Rightarrow> map_sum (\<lambda>e. e) (\<lambda>r. \<lparr>cp_Key = k, cp_Val = v\<rparr> # r) (itemParams ps ks)
      | Some _ \<Rightarrow> Inl ErrMalformedSignatureInput)"

definition coveredFromItem :: "bare_item \<times> sf_params \<Rightarrow> (httpsig_error, CoveredComponent) res" where
  "coveredFromItem item =
     (case fst item of
        BareString name \<Rightarrow>
          map_sum (\<lambda>e. e) (\<lambda>ps. \<lparr>cc_Name = name, cc_Params = ps\<rparr>) (itemParams (snd item) (map fst (snd item)))
      | _ \<Rightarrow> Inl ErrMalformedSignatureInput)"

fun coveredFromItems :: "(bare_item \<times> sf_params) list \<Rightarrow> (httpsig_error, CoveredComponent list) res" where
  "coveredFromItems [] = Inr []"
| "coveredFromItems (item # items) =
     (case coveredFromItem item of
        Inl e \<Rightarrow> Inl e
      | Inr c \<Rightarrow> map_sum (\<lambda>e. e) (\<lambda>cs. c # cs) (coveredFromItems items))"

definition stringParam :: "sf_params \<Rightarrow> string \<Rightarrow> string \<Rightarrow> (httpsig_error, string) res" where
  "stringParam ps name dst =
     (case map_of ps name of
        None \<Rightarrow> Inr dst
      | Some (BareString s) \<Rightarrow> Inr s
      | Some _ \<Rightarrow> Inl ErrMalformedSignatureInput)"

definition intParam :: "sf_params \<Rightarrow> string \<Rightarrow> int \<Rightarrow> (httpsig_error, int) res" where
  "intParam ps name dst =
     (case map_of ps name of
        None \<Rightarrow> Inr dst
      | Some (BareInteger n) \<Rightarrow> Inr n
      | Some _ \<Rightarrow> Inl ErrMalformedSignatureInput)"

definition applySignatureParams :: "Params \<Rightarrow> sf_params \<Rightarrow> (httpsig_error, Params) res" where
  "applySignatureParams p ps =
     (case stringParam ps ''keyid'' (pa_KeyID p) of Inl e \<Rightarrow> Inl e | Inr keyid \<Rightarrow>
      case stringParam ps ''alg'' (pa_Alg p) of Inl e \<Rightarrow> Inl e | Inr alg \<Rightarrow>
      case stringParam ps ''tag'' (pa_Tag p) of Inl e \<Rightarrow> Inl e | Inr tag \<Rightarrow>
      case stringParam ps ''nonce'' (pa_Nonce p) of Inl e \<Rightarrow> Inl e | Inr nonce \<Rightarrow>
      case intParam ps ''created'' (pa_Created p) of Inl e \<Rightarrow> Inl e | Inr created \<Rightarrow>
      case intParam ps ''expires'' (pa_Expires p) of Inl e \<Rightarrow> Inl e | Inr expires \<Rightarrow>
      Inr (p\<lparr>pa_KeyID := keyid, pa_Alg := alg, pa_Tag := tag, pa_Nonce := nonce, pa_Created := created,
        pa_Expires := expires\<rparr>))"

definition parseInputLabel :: "Dictionary \<Rightarrow> string \<Rightarrow> (httpsig_error, Params) res" where
  "parseInputLabel d label =
     (case map_of d label of
        Some (MemberInnerList items ps) \<Rightarrow>
          (case coveredFromItems items of
             Inl e \<Rightarrow> Inl e
           | Inr covered \<Rightarrow>
               (case applySignatureParams \<lparr>pa_Label = label, pa_Covered = covered, pa_KeyID = [], pa_Alg = [],
                   pa_Created = 0, pa_Expires = 0, pa_Tag = [], pa_Nonce = []\<rparr> ps of
                  Inl e \<Rightarrow> Inl e
                | Inr params \<Rightarrow> if pa_KeyID params = [] then Inl ErrMalformedSignatureInput else Inr params))
      | _ \<Rightarrow> Inl ErrMalformedSignatureInput)"

definition parseSigLabel :: "Dictionary \<Rightarrow> string \<Rightarrow> (httpsig_error, string) res" where
  "parseSigLabel d label =
     (case map_of d label of
        Some (MemberItem (BareBytes raw) _) \<Rightarrow> Inr raw
      | _ \<Rightarrow> Inl ErrMalformedSignatureInput)"

fun parseLabels :: "Dictionary \<Rightarrow> Dictionary \<Rightarrow> string list \<Rightarrow> (httpsig_error, (Params \<times> string) list) res" where
  "parseLabels inputDict sigDict [] = Inr []"
| "parseLabels inputDict sigDict (label # names) =
     (case parseInputLabel inputDict label of
        Inl e \<Rightarrow> Inl e
      | Inr params \<Rightarrow>
          (case parseSigLabel sigDict label of
             Inl e \<Rightarrow> Inl e
           | Inr raw \<Rightarrow> map_sum (\<lambda>e. e) (\<lambda>r. (params, raw) # r) (parseLabels inputDict sigDict names)))"

text \<open>The parsed labels in header order, and the signature bytes by label.\<close>

definition parseAllSignatures ::
  "httpsig_env \<Rightarrow> Header \<Rightarrow> (httpsig_error, Params list \<times> (string \<times> string) list) res" where
  "parseAllSignatures env h =
     (let inputValues = header_values h ''Signature-Input''; sigValues = header_values h ''Signature''
      in if inputValues = [] then Inl ErrMissingSignatureInput
         else if sigValues = [] then Inl ErrMissingSignature
         else case he_UnmarshalDictionary env inputValues of
             None \<Rightarrow> Inl ErrMalformedSignatureInput
           | Some inputDict \<Rightarrow>
               (case he_UnmarshalDictionary env sigValues of
                  None \<Rightarrow> Inl ErrMalformedSignatureInput
                | Some sigDict \<Rightarrow>
                    if inputDict = [] then Inl ErrMalformedSignatureInput
                    else map_sum (\<lambda>e. e) (\<lambda>r. (map fst r, map (\<lambda>(p, raw). (pa_Label p, raw)) r))
                           (parseLabels inputDict sigDict (map fst inputDict))))"

definition ParseSignatureLabels :: "httpsig_env \<Rightarrow> Header \<Rightarrow> (httpsig_error, Params list) res" where
  "ParseSignatureLabels env h = map_sum (\<lambda>e. e) fst (parseAllSignatures env h)"

section \<open>Verifier\<close>

definition requiredCoveredComponents :: "string list" where
  "requiredCoveredComponents = [''@method'', ''@target-uri'', ''content-digest'', ''authorization'', ''signature-agent'']"

definition entitlementHeaderLower :: string where "entitlementHeaderLower = ''x-ramp-entitlement-biscuit''"

definition maxFutureSkew :: int where "maxFutureSkew = 300 * 1000000000"

record VerifyRequestOptions =
  vo_MaxFutureSkew :: int
  vo_MaxSignatures :: int

record hsVerifiedRequest =
  hv_KeyID :: string
  hv_Algorithm :: string
  hv_Label :: string
  hv_Signature :: string
  hv_Created :: int
  hv_Expires :: int
  hv_PublicKey :: string
  hv_SignatureAgent :: string

type_synonym key_resolver = "string \<Rightarrow> string \<Rightarrow> (string, string) res"

definition enforceRequiredComponents :: "CoveredComponent list \<Rightarrow> httpsig_error option" where
  "enforceRequiredComponents covered =
     (let seen = map (\<lambda>c. ToLower (cc_Name c)) covered
      in map_option ErrMissingRequiredComponent (find (\<lambda>need. need \<notin> set seen) requiredCoveredComponents))"

definition enforceEntitlementCoverage :: "Header \<Rightarrow> CoveredComponent list \<Rightarrow> httpsig_error option" where
  "enforceEntitlementCoverage h covered =
     (if header_get h ''X-RAMP-Entitlement-Biscuit'' = [] then None
      else if list_ex (\<lambda>c. ToLower (cc_Name c) = entitlementHeaderLower) covered then None
      else Some (ErrMissingRequiredComponent entitlementHeaderLower))"

definition unix :: "int \<Rightarrow> int" where "unix now = now div 1000000000"

text \<open>\<open>int64(d.Seconds())\<close>, exact for durations below \<open>2 ^ 22\<close> seconds.\<close>

definition wholeSeconds :: "int \<Rightarrow> int" where
  "wholeSeconds d = (if d < 0 then - ((- d) div 1000000000) else d div 1000000000)"

definition enforceCreatedExpires :: "Params \<Rightarrow> int \<Rightarrow> int \<Rightarrow> httpsig_error option" where
  "enforceCreatedExpires p now maxSkew =
     (if pa_Created p = 0 then Some ErrMissingCreated
      else if pa_Expires p = 0 then Some ErrMissingExpires
      else if pa_Expires p < unix now then Some ErrExpired
      else if pa_Created p > wrap64 (unix now + wholeSeconds maxSkew) then Some ErrFutureCreated
      else None)"

text \<open>The key of the last \<open>signature\<close> component and their number.\<close>

fun chainLinkFrom :: "CoveredComponent list \<Rightarrow> string \<times> nat \<Rightarrow> string \<times> nat" where
  "chainLinkFrom [] acc = acc"
| "chainLinkFrom (c # covered) acc =
     chainLinkFrom covered
       (if EqualFold (cc_Name c) ''signature'' then (componentParam c ''key'', Suc (snd acc)) else acc)"

definition chainLink :: "CoveredComponent list \<Rightarrow> string \<times> nat" where
  "chainLink covered = chainLinkFrom covered ([], 0)"

definition sigLabel :: "nat \<Rightarrow> string" where "sigLabel n = ''sig'' @ decimal n"

fun enforceChainFrom :: "nat \<Rightarrow> Params list \<Rightarrow> httpsig_error option" where
  "enforceChainFrom i [] = None"
| "enforceChainFrom i (p # ps) =
     (if pa_Label p \<noteq> sigLabel (i + 1) then Some ErrBrokenSignatureChain
      else case chainLink (pa_Covered p) of (link, count) \<Rightarrow>
        if i = 0 then (if count \<noteq> 0 then Some ErrBrokenSignatureChain else enforceChainFrom (i + 1) ps)
        else if count \<noteq> 1 \<or> link \<noteq> sigLabel i then Some ErrBrokenSignatureChain
        else enforceChainFrom (i + 1) ps)"

definition enforceSignatureChain :: "Params list \<Rightarrow> httpsig_error option" where
  "enforceSignatureChain allParams = enforceChainFrom 0 allParams"

definition buildVerifyOptions :: "VerifyRequestOptions list \<Rightarrow> VerifyRequestOptions" where
  "buildVerifyOptions opts =
     (let o1 = (case opts of [] \<Rightarrow> \<lparr>vo_MaxFutureSkew = 0, vo_MaxSignatures = 0\<rparr> | a # _ \<Rightarrow> a)
      in if vo_MaxFutureSkew o1 = 0 then o1\<lparr>vo_MaxFutureSkew := maxFutureSkew\<rparr> else o1)"

definition readAndRestoreBody :: "HttpRequest \<Rightarrow> (httpsig_error, string option) res" where
  "readAndRestoreBody req =
     (case hr_Body req of
        None \<Rightarrow> Inr None
      | Some b \<Rightarrow> if hr_BodyFails req then Inl ErrReadBody else Inr (Some b))"

definition bodyBytes :: "string option \<Rightarrow> string" where
  "bodyBytes body = (case body of None \<Rightarrow> [] | Some b \<Rightarrow> b)"

definition verifyEd25519 :: "httpsig_env \<Rightarrow> HttpRequest \<Rightarrow> string \<Rightarrow> string \<Rightarrow> httpsig_error option" where
  "verifyEd25519 env req label pub =
     (if he_VerifyRequest env label pub req then None else Some ErrSignatureVerify)"

text \<open>\<open>now\<close> is the clock reading of this signature.\<close>

definition verifySingleSignature ::
  "httpsig_env \<Rightarrow> key_resolver \<Rightarrow> VerifyRequestOptions \<Rightarrow> int \<Rightarrow> HttpRequest \<Rightarrow> Params \<Rightarrow> (string \<times> string) list \<Rightarrow>
   string option \<Rightarrow> (httpsig_error, hsVerifiedRequest) res" where
  "verifySingleSignature env resolver opts now req params sigMap body =
     (if \<not> EqualFold (pa_Alg params) ''ed25519'' then Inl ErrUnsupportedAlgorithm else
      case enforceRequiredComponents (pa_Covered params) of Some e \<Rightarrow> Inl e | None \<Rightarrow>
      case enforceEntitlementCoverage (hr_Header req) (pa_Covered params) of Some e \<Rightarrow> Inl e | None \<Rightarrow>
      case enforceCreatedExpires params now (vo_MaxFutureSkew opts) of Some e \<Rightarrow> Inl e | None \<Rightarrow>
      case verifyContentDigest (hr_Header req) (bodyBytes body) (pa_Covered params) of Some e \<Rightarrow> Inl e | None \<Rightarrow>
      let sigAgent = DirectoryFromRequest (he_ids env) (header_values (hr_Header req) ''Signature-Agent'')
      in case resolver sigAgent (pa_KeyID params) of
           Inl e \<Rightarrow> Inl (ErrResolve e)
         | Inr pub \<Rightarrow>
             if length pub \<noteq> 32 then Inl ErrKeyLength
             else case map_of sigMap (pa_Label params) of
                 None \<Rightarrow> Inl ErrMalformedSignatureInput
               | Some sigBytes \<Rightarrow>
                   (case verifyEd25519 env req (pa_Label params) pub of
                      Some e \<Rightarrow> Inl e
                    | None \<Rightarrow> Inr \<lparr>hv_KeyID = pa_KeyID params, hv_Algorithm = pa_Alg params,
                        hv_Label = pa_Label params, hv_Signature = StdEncode (map of_char sigBytes),
                        hv_Created = pa_Created params, hv_Expires = pa_Expires params,
                        hv_PublicKey = pub, hv_SignatureAgent = sigAgent\<rparr>))"

definition VerifyRequest ::
  "httpsig_env \<Rightarrow> key_resolver \<Rightarrow> VerifyRequestOptions list \<Rightarrow> (nat \<Rightarrow> int) \<Rightarrow> HttpRequest \<Rightarrow> (httpsig_error, hsVerifiedRequest) res" where
  "VerifyRequest env resolver opts clk req =
     (case parseAllSignatures env (hr_Header req) of
        Inl e \<Rightarrow> Inl e
      | Inr (allParams, sigMap) \<Rightarrow>
          (case allParams of
             [] \<Rightarrow> Inl ErrMissingSignatureInput
           | p # _ \<Rightarrow>
               (case readAndRestoreBody req of
                  Inl e \<Rightarrow> Inl e
                | Inr body \<Rightarrow> verifySingleSignature env resolver (buildVerifyOptions opts) (clk 0) req p sigMap body)))"

fun verifyEach ::
  "httpsig_env \<Rightarrow> key_resolver \<Rightarrow> VerifyRequestOptions \<Rightarrow> (nat \<Rightarrow> int) \<Rightarrow> HttpRequest \<Rightarrow> (string \<times> string) list \<Rightarrow>
   string option \<Rightarrow> nat \<Rightarrow> Params list \<Rightarrow> (httpsig_error, hsVerifiedRequest list) res" where
  "verifyEach env resolver opts clk req sigMap body i [] = Inr []"
| "verifyEach env resolver opts clk req sigMap body i (p # ps) =
     (case verifySingleSignature env resolver opts (clk i) req p sigMap body of
        Inl e \<Rightarrow> Inl e
      | Inr v \<Rightarrow> map_sum (\<lambda>e. e) (\<lambda>vs. v # vs) (verifyEach env resolver opts clk req sigMap body (i + 1) ps))"

text \<open>\<open>clk i\<close> is the clock reading for the signature at position \<open>i\<close>.\<close>

definition VerifyMultisigRequest ::
  "httpsig_env \<Rightarrow> key_resolver \<Rightarrow> VerifyRequestOptions list \<Rightarrow> (nat \<Rightarrow> int) \<Rightarrow> HttpRequest \<Rightarrow> (httpsig_error, hsVerifiedRequest list) res" where
  "VerifyMultisigRequest env resolver opts clk req =
     (let options = buildVerifyOptions opts
      in case parseAllSignatures env (hr_Header req) of
           Inl e \<Rightarrow> Inl e
         | Inr (allParams, sigMap) \<Rightarrow>
             if vo_MaxSignatures options > 0 \<and> int (length allParams) > vo_MaxSignatures options
             then Inl ErrTooManyHops
             else case enforceSignatureChain allParams of
                 Some e \<Rightarrow> Inl e
               | None \<Rightarrow>
                   (case readAndRestoreBody req of
                      Inl e \<Rightarrow> Inl e
                    | Inr body \<Rightarrow> verifyEach env resolver options clk req sigMap body 0 allParams))"

section \<open>Signers\<close>

definition setContentDigest :: "HttpRequest \<Rightarrow> string \<Rightarrow> HttpRequest" where
  "setContentDigest req body = setHeader req ''Content-Digest'' (contentDigest body)"

definition bindAuthorization :: "HttpRequest \<Rightarrow> HttpRequest" where
  "bindAuthorization req =
     (if header_get (hr_Header req) ''Authorization'' = [] then setHeader req ''Authorization'' [] else req)"

definition bindSignatureAgent :: "HttpRequest \<Rightarrow> HttpRequest" where
  "bindSignatureAgent req =
     (if header_get (hr_Header req) ''Signature-Agent'' = [] then setHeader req ''Signature-Agent'' [] else req)"

definition rampCoveredComponents :: "Header \<Rightarrow> CoveredComponent list" where
  "rampCoveredComponents h = plainComponents (requiredCoveredComponents @
     (if header_get h ''X-RAMP-Entitlement-Biscuit'' \<noteq> [] then [entitlementHeaderLower] else []))"

definition rampChainCoveredComponents :: "Header \<Rightarrow> string \<Rightarrow> bool \<Rightarrow> CoveredComponent list" where
  "rampChainCoveredComponents h prevLabel hasPrev =
     rampCoveredComponents h @
     (if hasPrev then [\<lparr>cc_Name = ''signature'', cc_Params = [\<lparr>cp_Key = ''key'', cp_Val = prevLabel\<rparr>]\<rparr>] else [])"

datatype sigWriteMode = SigWriteSet | SigWriteAppend

fun coveredToFields :: "CoveredComponent list \<Rightarrow> (httpsig_error, sign_field list) res" where
  "coveredToFields [] = Inr []"
| "coveredToFields (c # covered) =
     (if EqualFold (cc_Name c) ''signature'' then
        (let key = componentParam c ''key''
         in if key = [] then Inl ErrMalformedSignatureInput
            else map_sum (\<lambda>e. e) (\<lambda>r. FieldDict ''signature'' key # r) (coveredToFields covered))
      else map_sum (\<lambda>e. e) (\<lambda>r. FieldHeader (cc_Name c) # r) (coveredToFields covered))"

definition signConfig :: "Params \<Rightarrow> SignConfig" where
  "signConfig params = \<lparr>sc_KeyID = pa_KeyID params,
     sc_Expires = (if pa_Expires params \<noteq> 0 then Some (pa_Expires params) else None),
     sc_Tag = (if pa_Tag params \<noteq> [] then Some (pa_Tag params) else None),
     sc_Nonce = (if pa_Nonce params \<noteq> [] then Some (pa_Nonce params) else None)\<rparr>"

definition joinHeader :: "HttpRequest \<Rightarrow> string \<Rightarrow> string \<Rightarrow> string" where
  "joinHeader req name v =
     (let existing = header_get (hr_Header req) name in if existing \<noteq> [] then existing @ '', '' @ v else v)"

definition signWithParams ::
  "httpsig_env \<Rightarrow> int \<Rightarrow> HttpRequest \<Rightarrow> Params \<Rightarrow> string \<Rightarrow> sigWriteMode \<Rightarrow> (httpsig_error, HttpRequest) res" where
  "signWithParams env now req params priv mode =
     (if length priv \<noteq> 64 then Inl ErrInvalidSigningKey
      else case coveredToFields (pa_Covered params) of
          Inl e \<Rightarrow> Inl e
        | Inr flds \<Rightarrow>
            (case he_SignRequest env now (pa_Label params) flds (signConfig params) priv req of
               None \<Rightarrow> Inl ErrLibrary
             | Some (sigInput, sigValue) \<Rightarrow>
                 let inp = (if mode = SigWriteAppend then joinHeader req ''Signature-Input'' sigInput else sigInput);
                     val = (if mode = SigWriteAppend then joinHeader req ''Signature'' sigValue else sigValue)
                 in Inr (setHeader (setHeader req ''Signature-Input'' inp) ''Signature'' val)))"

definition SignRequest ::
  "httpsig_env \<Rightarrow> int \<Rightarrow> HttpRequest \<Rightarrow> string \<Rightarrow> string \<Rightarrow> Params \<Rightarrow> (httpsig_error, HttpRequest) res" where
  "SignRequest env now req body priv params =
     (let params' = (if pa_Label params = [] then params\<lparr>pa_Label := ''sig1''\<rparr> else params);
          req' = (if coversComponent (pa_Covered params') ''content-digest'' then setContentDigest req body else req)
      in signWithParams env now req' params' priv SigWriteSet)"

definition rampParams :: "string \<Rightarrow> CoveredComponent list \<Rightarrow> string \<Rightarrow> int \<Rightarrow> Params" where
  "rampParams label covered keyID expires = \<lparr>pa_Label = label, pa_Covered = covered, pa_KeyID = keyID,
     pa_Alg = ''ed25519'', pa_Created = 0, pa_Expires = expires, pa_Tag = [], pa_Nonce = []\<rparr>"

definition SignRequestRAMP ::
  "httpsig_env \<Rightarrow> int \<Rightarrow> HttpRequest \<Rightarrow> string \<Rightarrow> string \<Rightarrow> string \<Rightarrow> int \<Rightarrow> (httpsig_error, HttpRequest) res" where
  "SignRequestRAMP env now req body keyID priv expires =
     (let req' = bindSignatureAgent (bindAuthorization req)
      in SignRequest env now req' body priv (rampParams ''sig1'' (rampCoveredComponents (hr_Header req')) keyID expires))"

fun maxLabelFrom :: "string list \<Rightarrow> int \<Rightarrow> int" where
  "maxLabelFrom [] maxN = maxN"
| "maxLabelFrom (label # labels) maxN =
     maxLabelFrom labels
       (if \<not> HasPrefix label ''sig'' then maxN
        else case Atoi (TrimPrefix label ''sig'') of
            None \<Rightarrow> maxN
          | Some num \<Rightarrow> if num > maxN then num else maxN)"

definition maxSignatureLabelN :: "httpsig_env \<Rightarrow> Header \<Rightarrow> (httpsig_error, int) res" where
  "maxSignatureLabelN env h =
     (let values = header_values h ''Signature-Input''
      in if values = [] then Inr 0
         else case he_UnmarshalDictionary env values of
             None \<Rightarrow> Inl ErrMalformedSignatureInput
           | Some dict \<Rightarrow> Inr (maxLabelFrom (map fst dict) 0))"

definition AppendSignatureRAMP ::
  "httpsig_env \<Rightarrow> int \<Rightarrow> HttpRequest \<Rightarrow> string \<Rightarrow> string \<Rightarrow> string \<Rightarrow> int \<Rightarrow> (httpsig_error, HttpRequest) res" where
  "AppendSignatureRAMP env now req body keyID priv expires =
     (let req1 = (if header_get (hr_Header req) ''Content-Digest'' = [] then setContentDigest req body else req);
          req2 = bindSignatureAgent (bindAuthorization req1)
      in case maxSignatureLabelN env (hr_Header req2) of
           Inl e \<Rightarrow> Inl e
         | Inr maxN \<Rightarrow>
             let hasPrev = (maxN > 0);
                 prevLabel = (if hasPrev then ''sig'' @ decimal_int maxN else []);
                 label = ''sig'' @ decimal_int (wrap64 (maxN + 1))
             in signWithParams env now req2
                  (rampParams label (rampChainCoveredComponents (hr_Header req2) prevLabel hasPrev) keyID expires)
                  priv SigWriteAppend)"

section \<open>Web Bot Auth\<close>

definition WBATag :: string where "WBATag = ''web-bot-auth''"

definition wbaNonceBytes :: nat where "wbaNonceBytes = 32"

record WBAOptions =
  wo_Directory :: string
  wo_KeyID :: string
  wo_Expires :: int
  wo_Nonce :: string

definition WBACoveredComponents :: "bool \<Rightarrow> CoveredComponent list" where
  "WBACoveredComponents hasBody =
     plainComponents ([''@authority'', ''signature-agent''] @ (if hasBody then [''content-digest''] else []))"

definition randomNonce :: "httpsig_env \<Rightarrow> (httpsig_error, string) res" where
  "randomNonce env =
     (case he_random env wbaNonceBytes of None \<Rightarrow> Inl ErrLibrary | Some b \<Rightarrow> Inr (RawURLEncode b))"

definition SignRequestWBA ::
  "httpsig_env \<Rightarrow> int \<Rightarrow> HttpRequest \<Rightarrow> string \<Rightarrow> string \<Rightarrow> WBAOptions \<Rightarrow> (httpsig_error, HttpRequest) res" where
  "SignRequestWBA env now req body priv opts =
     (if wo_Directory opts = [] then Inl ErrMissingDirectory
      else if wo_KeyID opts = [] then Inl ErrMissingKeyID
      else if wo_Expires opts \<le> 0 then Inl ErrMissingExpires
      else case he_MarshalString env (wo_Directory opts) of
          None \<Rightarrow> Inl ErrLibrary
        | Some agent \<Rightarrow>
            (case (if wo_Nonce opts = [] then randomNonce env else Inr (wo_Nonce opts)) of
               Inl e \<Rightarrow> Inl e
             | Inr nonce \<Rightarrow>
                 SignRequest env now (setHeader req ''Signature-Agent'' agent) body priv
                   \<lparr>pa_Label = ''sig1'', pa_Covered = WBACoveredComponents (body \<noteq> []), pa_KeyID = wo_KeyID opts,
                    pa_Alg = ''ed25519'', pa_Created = 0, pa_Expires = wo_Expires opts, pa_Tag = WBATag,
                    pa_Nonce = nonce\<rparr>))"

section \<open>Agent binding\<close>

definition PoPSignatureBase :: "string \<Rightarrow> string \<Rightarrow> string \<Rightarrow> string" where
  "PoPSignatureBase meth rawURL rawParams =
     join [CHR 0x0A] [[CHR 0x22] @ ''@method'' @ [CHR 0x22] @ '': '' @ ToUpper meth,
       [CHR 0x22] @ ''@target-uri'' @ [CHR 0x22] @ '': '' @ rawURL,
       [CHR 0x22] @ ''@signature-params'' @ [CHR 0x22] @ '': '' @ rawParams]"

text \<open>One attempt of the pattern \<open>created=(\d+);expires=(\d+)\<close> at the start of the text.\<close>

definition popWindowHere :: "string \<Rightarrow> (string \<times> string) option" where
  "popWindowHere s =
     (if \<not> HasPrefix s ''created='' then None
      else let r = drop 8 s; c = takeWhile isDigit r; q = dropWhile isDigit r
           in if c = [] \<or> \<not> HasPrefix q '';expires='' then None
              else let e = takeWhile isDigit (drop 9 q) in if e = [] then None else Some (c, e))"

fun popWindow :: "string \<Rightarrow> (string \<times> string) option" where
  "popWindow [] = None"
| "popWindow (x # s) = (case popWindowHere (x # s) of Some m \<Rightarrow> Some m | None \<Rightarrow> popWindow s)"

definition PoPWindowOf :: "string \<Rightarrow> (int \<times> int) option" where
  "PoPWindowOf signatureInput =
     (case popWindow signatureInput of
        None \<Rightarrow> None
      | Some (c, e) \<Rightarrow>
          (if int64 (int (undecimal c)) \<and> int64 (int (undecimal e))
           then Some (int (undecimal c), int (undecimal e)) else None))"

section \<open>Replay store\<close>

text \<open>The in-process store of this package has its own copy of the operations of \<open>internal/replay\<close>.\<close>

definition NewMemoryReplayStore :: MemoryStore where "NewMemoryReplayStore = \<lparr>ms_seen = []\<rparr>"

definition hs_replayKey :: "string \<Rightarrow> string \<Rightarrow> string" where
  "hs_replayKey keyID signature = sha256_hex (keyID @ [NUL] @ signature)"

definition hs_sweepLocked :: "int \<Rightarrow> MemoryStore \<Rightarrow> MemoryStore" where
  "hs_sweepLocked now s = s\<lparr>ms_seen := filter (\<lambda>(k, ex). now < ex) (ms_seen s)\<rparr>"

definition hs_SeenOrAdd :: "int \<Rightarrow> string \<Rightarrow> string \<Rightarrow> int \<Rightarrow> MemoryStore \<Rightarrow> bool \<times> MemoryStore" where
  "hs_SeenOrAdd now keyID signature ttl s =
     (let key = hs_replayKey keyID signature;
          added = hs_sweepLocked now (s\<lparr>ms_seen := AList.update key (now + ttl) (ms_seen s)\<rparr>)
      in case map_of (ms_seen s) key of
           Some ex \<Rightarrow> if now < ex then (True, s) else (False, added)
         | None \<Rightarrow> (False, added))"

definition hs_Seen :: "int \<Rightarrow> string \<Rightarrow> string \<Rightarrow> MemoryStore \<Rightarrow> bool" where
  "hs_Seen now keyID signature s =
     (case map_of (ms_seen s) (hs_replayKey keyID signature) of None \<Rightarrow> False | Some ex \<Rightarrow> now < ex)"

text \<open>The Redis store: \<open>SET key 1 NX EX ttl\<close> and \<open>EXISTS key\<close> on a server state \<open>'r\<close>. The answer of
  \<open>SET NX\<close> is whether the key was set; \<open>None\<close> is a server error.\<close>

record 'r nxapi =
  nx_SetNX :: "int \<Rightarrow> 'r \<Rightarrow> string \<Rightarrow> int \<Rightarrow> 'r \<times> bool option"
  nx_Exists :: "int \<Rightarrow> 'r \<Rightarrow> string \<Rightarrow> bool option"

definition redisPrefix :: "string \<Rightarrow> string" where
  "redisPrefix given = (if given = [] then ''httpsig:replay:'' else given)"

definition redis_SeenOrAdd ::
  "'r nxapi \<Rightarrow> string \<Rightarrow> int \<Rightarrow> string \<Rightarrow> string \<Rightarrow> int \<Rightarrow> 'r \<Rightarrow> (httpsig_error, bool) res \<times> 'r" where
  "redis_SeenOrAdd api given now keyID signature ttl r =
     (case nx_SetNX api now r (redisPrefix given @ hs_replayKey keyID signature) ttl of
        (r', None) \<Rightarrow> (Inl ErrReplayStore, r')
      | (r', Some ok) \<Rightarrow> (Inr (\<not> ok), r'))"

definition redis_Seen ::
  "'r nxapi \<Rightarrow> string \<Rightarrow> int \<Rightarrow> string \<Rightarrow> string \<Rightarrow> 'r \<Rightarrow> (httpsig_error, bool) res" where
  "redis_Seen api given now keyID signature r =
     (case nx_Exists api now r (redisPrefix given @ hs_replayKey keyID signature) of
        None \<Rightarrow> Inl ErrReplayStore
      | Some b \<Rightarrow> Inr b)"

section \<open>Middleware\<close>

text \<open>The replay store as the middleware calls it.\<close>

record 's replayStore =
  rs_Seen :: "int \<Rightarrow> string \<Rightarrow> string \<Rightarrow> 's \<Rightarrow> (httpsig_error, bool) res"
  rs_SeenOrAdd :: "int \<Rightarrow> string \<Rightarrow> string \<Rightarrow> int \<Rightarrow> 's \<Rightarrow> (httpsig_error, bool) res \<times> 's"

definition memoryReplay :: "MemoryStore replayStore" where
  "memoryReplay = \<lparr>rs_Seen = (\<lambda>now k g s. Inr (hs_Seen now k g s)),
     rs_SeenOrAdd = (\<lambda>now k g ttl s. case hs_SeenOrAdd now k g ttl s of (b, s') \<Rightarrow> (Inr b, s'))\<rparr>"

definition redisReplay :: "'r nxapi \<Rightarrow> string \<Rightarrow> 'r replayStore" where
  "redisReplay api given = \<lparr>rs_Seen = redis_Seen api given, rs_SeenOrAdd = redis_SeenOrAdd api given\<rparr>"

definition hs_ReplayTTL :: int where "hs_ReplayTTL = 5 * 60 * 1000000000"

record InterceptorOptions =
  io_PathPredicate :: "(string \<Rightarrow> bool) option"
  io_RequestPredicate :: "(HttpRequest \<Rightarrow> bool) option"
  io_ReplayWindow :: int
  io_MaxSignatures :: int

record middlewareConfig =
  mc_predicate :: "HttpRequest \<Rightarrow> bool"
  mc_verifyOpts :: VerifyRequestOptions
  mc_ttl :: int

definition defaultPathPredicate :: "string \<Rightarrow> bool" where
  "defaultPathPredicate path \<longleftrightarrow> HasPrefix path ''/ramp.''"

definition newMiddlewareConfig :: "InterceptorOptions \<Rightarrow> middlewareConfig" where
  "newMiddlewareConfig opts =
     (let pathPredicate = (case io_PathPredicate opts of None \<Rightarrow> defaultPathPredicate | Some p \<Rightarrow> p)
      in \<lparr>mc_predicate = (case io_RequestPredicate opts of None \<Rightarrow> (\<lambda>r. pathPredicate (hr_Path r)) | Some p \<Rightarrow> p),
          mc_verifyOpts = \<lparr>vo_MaxFutureSkew = 0, vo_MaxSignatures = io_MaxSignatures opts\<rparr>,
          mc_ttl = (if io_ReplayWindow opts \<le> 0 then hs_ReplayTTL else io_ReplayWindow opts)\<rparr>)"

fun replayCheck :: "'s replayStore \<Rightarrow> int \<Rightarrow> hsVerifiedRequest list \<Rightarrow> 's \<Rightarrow> httpsig_error option" where
  "replayCheck st now [] s = None"
| "replayCheck st now (v # vs) s =
     (case rs_Seen st now (hv_KeyID v) (hv_Signature v) s of
        Inl e \<Rightarrow> Some e
      | Inr seen \<Rightarrow> if seen then Some ErrReplayed else replayCheck st now vs s)"

fun replayCommit :: "'s replayStore \<Rightarrow> int \<Rightarrow> int \<Rightarrow> hsVerifiedRequest list \<Rightarrow> 's \<Rightarrow> httpsig_error option \<times> 's" where
  "replayCommit st now ttl [] s = (None, s)"
| "replayCommit st now ttl (v # vs) s =
     (case rs_SeenOrAdd st now (hv_KeyID v) (hv_Signature v) ttl s of
        (Inl e, s') \<Rightarrow> (Some e, s')
      | (Inr seen, s') \<Rightarrow> if seen then (Some ErrReplayed, s') else replayCommit st now ttl vs s')"

text \<open>\<open>now\<close> is the store's clock reading; \<open>clk\<close> gives those of the verifier.\<close>

definition verifyMultisig ::
  "httpsig_env \<Rightarrow> key_resolver \<Rightarrow> 's replayStore \<Rightarrow> middlewareConfig \<Rightarrow> (nat \<Rightarrow> int) \<Rightarrow> int \<Rightarrow> HttpRequest \<Rightarrow> 's \<Rightarrow>
   (httpsig_error, hsVerifiedRequest list) res \<times> 's" where
  "verifyMultisig env resolver st c clk now r s =
     (case VerifyMultisigRequest env resolver [mc_verifyOpts c] clk r of
        Inl e \<Rightarrow> (Inl e, s)
      | Inr sigs \<Rightarrow>
          (case replayCheck st now sigs s of
             Some e \<Rightarrow> (Inl e, s)
           | None \<Rightarrow>
               (case replayCommit st now (mc_ttl c) sigs s of
                  (Some e, s') \<Rightarrow> (Inl e, s')
                | (None, s') \<Rightarrow> (Inr sigs, s'))))"

text \<open>The two context slots.\<close>

record hsContext =
  cx_verified :: "hsVerifiedRequest option"
  cx_multisig :: "hsVerifiedRequest list option"

definition FromContext :: "hsContext \<Rightarrow> hsVerifiedRequest option" where
  "FromContext ctx =
     (case cx_multisig ctx of Some (v # _) \<Rightarrow> Some v | _ \<Rightarrow> cx_verified ctx)"

definition AllSignaturesFromContext :: "hsContext \<Rightarrow> hsVerifiedRequest list option" where
  "AllSignaturesFromContext ctx =
     (case cx_multisig ctx of
        Some sigs \<Rightarrow> Some sigs
      | None \<Rightarrow> map_option (\<lambda>v. [v]) (cx_verified ctx))"

definition NewContext :: "hsContext \<Rightarrow> hsVerifiedRequest \<Rightarrow> hsContext" where
  "NewContext ctx v = ctx\<lparr>cx_verified := Some v\<rparr>"

definition NewMultisigContext :: "hsContext \<Rightarrow> hsVerifiedRequest list \<Rightarrow> hsContext" where
  "NewMultisigContext ctx sigs = ctx\<lparr>cx_multisig := Some sigs\<rparr>"

definition withVerified :: "hsContext \<Rightarrow> hsVerifiedRequest \<Rightarrow> hsContext" where
  "withVerified ctx v = (if AllSignaturesFromContext ctx \<noteq> None then ctx else ctx\<lparr>cx_verified := Some v\<rparr>)"

definition withMultisigVerified :: "hsContext \<Rightarrow> hsVerifiedRequest list \<Rightarrow> hsContext" where
  "withMultisigVerified ctx sigs = ctx\<lparr>cx_multisig := Some sigs\<rparr>"

definition rejectStatus :: "httpsig_error \<Rightarrow> nat" where
  "rejectStatus e = (if e = ErrTooManyHops then 429 else 401)"

text \<open>The next handler runs with a context, or the request is rejected with a status.\<close>

datatype mw_outcome = NextHandler hsContext | RejectedWith httpsig_error nat

definition Middleware ::
  "httpsig_env \<Rightarrow> key_resolver \<Rightarrow> 's replayStore \<Rightarrow> InterceptorOptions \<Rightarrow> (nat \<Rightarrow> int) \<Rightarrow> int \<Rightarrow> HttpRequest \<Rightarrow> hsContext \<Rightarrow>
   's \<Rightarrow> mw_outcome \<times> 's" where
  "Middleware env resolver st opts clk now r ctx s =
     (let cfg = newMiddlewareConfig opts
      in if \<not> mc_predicate cfg r then (NextHandler ctx, s)
         else case verifyMultisig env resolver st cfg clk now r s of
             (Inl e, s') \<Rightarrow> (RejectedWith e (rejectStatus e), s')
           | (Inr sigs, s') \<Rightarrow>
               let ctx1 = withMultisigVerified ctx sigs
               in (NextHandler (case sigs of [] \<Rightarrow> ctx1 | v # _ \<Rightarrow> withVerified ctx1 v), s'))"

end
