(* ===== verification/Http_Signature_Laws.thy ===== *)
theory Http_Signature_Laws
  imports Http_Signature
begin

text \<open>
  Lemmas on the HTTP message signatures: the forwarding chain as a condition on positions, what an
  accepted request satisfies, and the chain the signers build.
\<close>

section \<open>The forwarding chain\<close>

text \<open>What the gate asks of the signature at position \<open>k\<close>, counted from zero.\<close>

definition linked :: "nat \<Rightarrow> Params \<Rightarrow> bool" where
  "linked k p \<longleftrightarrow> pa_Label p = sigLabel (k + 1) \<and>
     (if k = 0 then snd (chainLink (pa_Covered p)) = 0 else chainLink (pa_Covered p) = (sigLabel k, 1))"

lemma enforceChainFrom_None:
  "enforceChainFrom i ps = None \<longleftrightarrow> (\<forall>j < length ps. linked (i + j) (ps ! j))"
proof (induction ps arbitrary: i)
  case (Cons p ps)
  have "enforceChainFrom i (p # ps) = None \<longleftrightarrow> linked i p \<and> enforceChainFrom (i + 1) ps = None"
    by (auto simp: linked_def split: prod.splits)
  also have "\<dots> \<longleftrightarrow> linked i p \<and> (\<forall>j < length ps. linked (i + Suc j) (ps ! j))" using Cons by simp
  also have "\<dots> \<longleftrightarrow> (\<forall>j < length (p # ps). linked (i + j) ((p # ps) ! j))"
    by (auto simp: nth_Cons less_Suc_eq_0_disj split: nat.splits)
  finally show ?case .
qed simp

lemma enforceChainFrom_error: "enforceChainFrom i ps = Some e \<Longrightarrow> e = ErrBrokenSignatureChain"
  by (induction ps arbitrary: i) (auto split: if_splits prod.splits)

lemma chain_None: "enforceSignatureChain ps = None \<longleftrightarrow> (\<forall>j < length ps. linked j (ps ! j))"
  by (simp add: enforceSignatureChain_def enforceChainFrom_None)

lemma sigLabel_inj [simp]: "sigLabel m = sigLabel n \<longleftrightarrow> m = n"
  using decimal_inj by (auto simp: sigLabel_def)

lemma chain_sublist:
  assumes "enforceSignatureChain ps = None" "set qs \<subseteq> set ps"
  shows "enforceSignatureChain qs = None \<longleftrightarrow> (\<exists>k. qs = take k ps)"
proof
  assume qs: "enforceSignatureChain qs = None"
  have at: "j < length ps \<and> qs ! j = ps ! j" if j: "j < length qs" for j
  proof -
    obtain m where m: "m < length ps" "qs ! j = ps ! m"
      using assms(2) nth_mem [OF j] by (metis in_set_conv_nth subsetD)
    then have "sigLabel (j + 1) = sigLabel (m + 1)"
      using assms(1) qs j by (auto simp: chain_None linked_def)
    then show ?thesis using m by simp
  qed
  have len: "length qs \<le> length ps" using at [of "length qs - 1"] by (cases qs) auto
  have "qs = take (length qs) ps" by (rule nth_equalityI) (use at len in auto)
  then show "\<exists>k. qs = take k ps" ..
next
  assume "\<exists>k. qs = take k ps"
  then show "enforceSignatureChain qs = None" using assms(1) by (auto simp: chain_None)
qed

section \<open>One signature\<close>

lemma enforceRequired_None:
  "enforceRequiredComponents covered = None \<longleftrightarrow>
     set requiredCoveredComponents \<subseteq> (\<lambda>c. ToLower (cc_Name c)) ` set covered"
  by (auto simp: enforceRequiredComponents_def find_None_iff Let_def)

definition verified_as ::
  "httpsig_env \<Rightarrow> key_resolver \<Rightarrow> int \<Rightarrow> int \<Rightarrow> HttpRequest \<Rightarrow> string \<Rightarrow> (string \<times> string) list \<Rightarrow> Params \<Rightarrow> hsVerifiedRequest \<Rightarrow> bool" where
  "verified_as env resolver skew now req body sigMap p v \<longleftrightarrow>
     EqualFold (pa_Alg p) ''ed25519'' \<and>
     set requiredCoveredComponents \<subseteq> (\<lambda>c. ToLower (cc_Name c)) ` set (pa_Covered p) \<and>
     enforceEntitlementCoverage (hr_Header req) (pa_Covered p) = None \<and>
     pa_Created p \<noteq> 0 \<and> pa_Expires p \<noteq> 0 \<and> unix now \<le> pa_Expires p \<and>
     pa_Created p \<le> wrap64 (unix now + wholeSeconds skew) \<and>
     TrimSpace (header_get (hr_Header req) ''Content-Digest'') = contentDigest body \<and>
     (\<exists>raw. map_of sigMap (pa_Label p) = Some raw \<and>
        v = \<lparr>hv_KeyID = pa_KeyID p, hv_Algorithm = pa_Alg p, hv_Label = pa_Label p,
             hv_Signature = StdEncode (map of_char raw), hv_Created = pa_Created p, hv_Expires = pa_Expires p,
             hv_PublicKey = hv_PublicKey v,
             hv_SignatureAgent = DirectoryFromRequest (he_ids env) (header_values (hr_Header req) ''Signature-Agent'')\<rparr>) \<and>
     resolver (hv_SignatureAgent v) (pa_KeyID p) = Inr (hv_PublicKey v) \<and> length (hv_PublicKey v) = 32 \<and>
     he_VerifyRequest env (pa_Label p) (hv_PublicKey v) req"

lemma enforceCreatedExpires_None:
  "enforceCreatedExpires p now skew = None \<longleftrightarrow> pa_Created p \<noteq> 0 \<and> pa_Expires p \<noteq> 0 \<and> unix now \<le> pa_Expires p \<and>
     pa_Created p \<le> wrap64 (unix now + wholeSeconds skew)"
  by (auto simp: enforceCreatedExpires_def)

lemma contentDigest_TrimSpace [simp]: "TrimSpace (contentDigest body) = contentDigest body"
  by (rule TrimSpace_graph) (simp_all add: contentDigest_def)

lemma TrimSpace_Nil [simp]: "TrimSpace [] = []"
proof -
  have none: "find (\<lambda>w. w \<noteq> [] \<and> take (length w) [] = w) ws = None" for ws :: "string list"
    by (auto simp: find_None_iff)
  have "trimLeading ws [] = []" for ws
    using none [of ws] by (simp add: trimLeading.simps [of ws "[]"])
  then show ?thesis by (simp add: TrimSpace_def)
qed

lemma verifyContentDigest_None:
  assumes "coversComponent covered ''content-digest''"
  shows "verifyContentDigest h body covered = None \<longleftrightarrow>
    TrimSpace (header_get h ''Content-Digest'') = contentDigest body"
proof -
  have "contentDigest body \<noteq> []" by (simp add: contentDigest_def)
  then show ?thesis using assms by (auto simp: verifyContentDigest_def Let_def)
qed

lemma required_covers_digest:
  assumes "set requiredCoveredComponents \<subseteq> (\<lambda>c. ToLower (cc_Name c)) ` set covered"
  shows "coversComponent covered ''content-digest''"
proof -
  have "''content-digest'' \<in> (\<lambda>c. ToLower (cc_Name c)) ` set covered"
    using assms by (auto simp: requiredCoveredComponents_def)
  moreover have "ToLower ''content-digest'' = ''content-digest''" by code_simp
  ultimately show ?thesis by (auto simp: coversComponent_def EqualFold_def list_ex_iff)
qed

lemma verifySingle_Inr:
  "verifySingleSignature env resolver opts now req p sigMap body = Inr v \<longleftrightarrow>
     verified_as env resolver (vo_MaxFutureSkew opts) now req (bodyBytes body) sigMap p v"
proof (cases "EqualFold (pa_Alg p) ''ed25519'' \<and> enforceRequiredComponents (pa_Covered p) = None")
  case True
  have dig: "verifyContentDigest (hr_Header req) (bodyBytes body) (pa_Covered p) = None \<longleftrightarrow>
      TrimSpace (header_get (hr_Header req) ''Content-Digest'') = contentDigest (bodyBytes body)"
    using True required_covers_digest verifyContentDigest_None by (simp add: enforceRequired_None)
  let ?d = "DirectoryFromRequest (he_ids env) (header_values (hr_Header req) ''Signature-Agent'')"
  show ?thesis
  proof (cases "resolver ?d (pa_KeyID p)")
    case (Inl e)
    then show ?thesis using True
      by (cases v) (auto simp: verifySingleSignature_def verified_as_def Let_def split: option.splits)
  next
    case (Inr pub)
    then show ?thesis
      using True dig enforceRequired_None [of "pa_Covered p"] enforceCreatedExpires_None [of p now "vo_MaxFutureSkew opts"]
      by (cases v) (auto simp: verifySingleSignature_def verified_as_def Let_def verifyEd25519_def
          split: option.splits if_splits)
  qed
next
  case False
  then show ?thesis by (auto simp: verifySingleSignature_def verified_as_def enforceRequired_None split: option.splits)
qed

lemma verifyEach_Inr:
  "verifyEach env resolver opts clk req sigMap body i ps = Inr vs \<longleftrightarrow> length vs = length ps \<and>
     (\<forall>j < length ps. verified_as env resolver (vo_MaxFutureSkew opts) (clk (i + j)) req (bodyBytes body) sigMap (ps ! j) (vs ! j))"
proof (induction ps arbitrary: i vs)
  case (Cons p ps)
  have "verifyEach env resolver opts clk req sigMap body i (p # ps) = Inr vs \<longleftrightarrow>
      (\<exists>v ws. vs = v # ws \<and> verifySingleSignature env resolver opts (clk i) req p sigMap body = Inr v \<and>
         verifyEach env resolver opts clk req sigMap body (i + 1) ps = Inr ws)"
    by (auto split: sum.splits simp: map_sum_def)
  also have "\<dots> \<longleftrightarrow> length vs = length (p # ps) \<and> (\<forall>j < length (p # ps).
      verified_as env resolver (vo_MaxFutureSkew opts) (clk (i + j)) req (bodyBytes body) sigMap ((p # ps) ! j) (vs ! j))"
    unfolding Cons verifySingle_Inr
    by (cases vs) (auto simp: nth_Cons less_Suc_eq_0_disj split: nat.splits)
  finally show ?case .
qed auto

section \<open>The whole request\<close>

lemma VerifyMultisig_Inr:
  "VerifyMultisigRequest env resolver opts clk req = Inr vs \<longleftrightarrow>
     (\<exists>ps sigMap body. parseAllSignatures env (hr_Header req) = Inr (ps, sigMap) \<and> readAndRestoreBody req = Inr body \<and>
        (vo_MaxSignatures (buildVerifyOptions opts) > 0 \<longrightarrow> int (length ps) \<le> vo_MaxSignatures (buildVerifyOptions opts)) \<and>
        (\<forall>j < length ps. linked j (ps ! j)) \<and> length vs = length ps \<and>
        (\<forall>j < length ps. verified_as env resolver (vo_MaxFutureSkew (buildVerifyOptions opts)) (clk j) req
           (bodyBytes body) sigMap (ps ! j) (vs ! j)))"
  unfolding VerifyMultisigRequest_def Let_def
  by (auto simp: verifyEach_Inr chain_None [symmetric] split: sum.splits option.splits if_splits)

section \<open>What the libraries document\<close>

fun fieldItem :: "sign_field \<Rightarrow> bare_item \<times> sf_params" where
  "fieldItem (FieldHeader n) = (BareString n, [])"
| "fieldItem (FieldDict n k) = (BareString n, [(''key'', BareString k)])"

definition sigParams :: "int \<Rightarrow> SignConfig \<Rightarrow> sf_params" where
  "sigParams created cfg =
     [(''created'', BareInteger created)] @
     (case sc_Expires cfg of None \<Rightarrow> [] | Some e \<Rightarrow> [(''expires'', BareInteger e)]) @
     [(''alg'', BareString ''ed25519''), (''keyid'', BareString (sc_KeyID cfg))] @
     (case sc_Nonce cfg of None \<Rightarrow> [] | Some n \<Rightarrow> [(''nonce'', BareString n)]) @
     (case sc_Tag cfg of None \<Rightarrow> [] | Some t \<Rightarrow> [(''tag'', BareString t)])"

definition member :: "httpsig_env \<Rightarrow> HttpRequest \<Rightarrow> string \<Rightarrow> string \<Rightarrow> sf_member option" where
  "member env req name label =
     (case he_UnmarshalDictionary env (header_values (hr_Header req) name) of None \<Rightarrow> None | Some d \<Rightarrow> map_of d label)"

text \<open>The value of a covered field on a request.\<close>

fun component :: "httpsig_env \<Rightarrow> HttpRequest \<Rightarrow> sign_field \<Rightarrow> string list + sf_member option" where
  "component env req (FieldHeader n) = Inl
     (if n = ''@method'' then [hr_Method req] else if n = ''@target-uri'' then [hr_TargetURI req]
      else if n = ''@authority'' then [hr_Authority req] else header_values (hr_Header req) n)"
| "component env req (FieldDict n k) = Inr (member env req n k)"

text \<open>A signature is emitted as one member of each dictionary; dictionaries joined by a comma have the
  members of both when the labels differ; and a signature verifies on every request that still
  carries its two members and has the same values of the covered fields.\<close>

definition emit_law :: "httpsig_env \<Rightarrow> bool" where
  "emit_law env \<longleftrightarrow>
     (\<forall>now label fs cfg priv req inp val. he_SignRequest env now label fs cfg priv req = Some (inp, val) \<longrightarrow>
        inp \<noteq> [] \<and> val \<noteq> [] \<and>
        he_UnmarshalDictionary env [inp] = Some [(label, MemberInnerList (map fieldItem fs) (sigParams (unix now) cfg))] \<and>
        (\<exists>raw. he_UnmarshalDictionary env [val] = Some [(label, MemberItem (BareBytes raw) [])]))"

definition join_law :: "httpsig_env \<Rightarrow> bool" where
  "join_law env \<longleftrightarrow>
     (\<forall>a b d d'. he_UnmarshalDictionary env [a] = Some d \<longrightarrow> he_UnmarshalDictionary env [b] = Some d' \<longrightarrow>
        d \<noteq> [] \<longrightarrow> d' \<noteq> [] \<longrightarrow> fst ` set d \<inter> fst ` set d' = {} \<longrightarrow>
        he_UnmarshalDictionary env [a @ '', '' @ b] = Some (d @ d'))"

definition verify_law :: "httpsig_env \<Rightarrow> bool" where
  "verify_law env \<longleftrightarrow>
     (\<forall>now label fs cfg priv req inp val g req'. he_SignRequest env now label fs cfg priv req = Some (inp, val) \<longrightarrow>
        he_UnmarshalDictionary env [val] = Some [(label, g)] \<longrightarrow>
        member env req' ''Signature-Input'' label = Some (MemberInnerList (map fieldItem fs) (sigParams (unix now) cfg)) \<longrightarrow>
        member env req' ''Signature'' label = Some g \<longrightarrow>
        (\<forall>f \<in> set fs. component env req' f = component env req f) \<longrightarrow>
        he_VerifyRequest env label (drop 32 priv) req')"

definition httpsign_laws :: "httpsig_env \<Rightarrow> bool" where
  "httpsign_laws env \<longleftrightarrow> emit_law env \<and> join_law env \<and> verify_law env"

lemma sign_emits:
  assumes "httpsign_laws env" "he_SignRequest env now label fs cfg priv req = Some (inp, val)"
  obtains raw where "inp \<noteq> []" "val \<noteq> []"
    "he_UnmarshalDictionary env [inp] = Some [(label, MemberInnerList (map fieldItem fs) (sigParams (unix now) cfg))]"
    "he_UnmarshalDictionary env [val] = Some [(label, MemberItem (BareBytes raw) [])]"
proof -
  have "emit_law env" using assms(1) by (simp add: httpsign_laws_def)
  from this [unfolded emit_law_def, rule_format, OF assms(2)] show thesis using that by blast
qed

lemma dict_join:
  assumes "httpsign_laws env" "he_UnmarshalDictionary env [a] = Some d" "he_UnmarshalDictionary env [b] = Some d'"
    "d \<noteq> []" "d' \<noteq> []" "fst ` set d \<inter> fst ` set d' = {}"
  shows "he_UnmarshalDictionary env [a @ '', '' @ b] = Some (d @ d')"
proof -
  have "join_law env" using assms(1) by (simp add: httpsign_laws_def)
  from this [unfolded join_law_def, rule_format, OF assms(2-6)] show ?thesis .
qed

lemma sign_verifies:
  assumes "httpsign_laws env" "he_SignRequest env now label fs cfg priv req = Some (inp, val)"
    "he_UnmarshalDictionary env [val] = Some [(label, g)]"
    "member env req' ''Signature-Input'' label = Some (MemberInnerList (map fieldItem fs) (sigParams (unix now) cfg))"
    "member env req' ''Signature'' label = Some g" "\<And>f. f \<in> set fs \<Longrightarrow> component env req' f = component env req f"
  shows "he_VerifyRequest env label (drop 32 priv) req'"
proof -
  have "verify_law env" using assms(1) by (simp add: httpsign_laws_def)
  from this [unfolded verify_law_def, rule_format, OF assms(2-6)] show ?thesis by assumption
qed

section \<open>Headers\<close>

lemma ToLower_names [simp]:
  "ToLower ''Signature-Input'' = ''signature-input''" "ToLower ''Signature'' = ''signature''"
  "ToLower ''Content-Digest'' = ''content-digest''" "ToLower ''Authorization'' = ''authorization''"
  "ToLower ''Signature-Agent'' = ''signature-agent''"
  "ToLower ''X-RAMP-Entitlement-Biscuit'' = ''x-ramp-entitlement-biscuit''"
  "ToLower ''signature'' = ''signature''" "ToLower ''content-digest'' = ''content-digest''"
  "ToLower ''authorization'' = ''authorization''" "ToLower ''signature-agent'' = ''signature-agent''"
  "ToLower ''x-ramp-entitlement-biscuit'' = ''x-ramp-entitlement-biscuit''"
  "ToLower ''@method'' = ''@method''" "ToLower ''@target-uri'' = ''@target-uri''"
  "ToLower ''@authority'' = ''@authority''"
  by code_simp+

lemma setHeader_simps [simp]:
  "hr_Method (setHeader r n v) = hr_Method r" "hr_TargetURI (setHeader r n v) = hr_TargetURI r"
  "hr_Authority (setHeader r n v) = hr_Authority r" "hr_Path (setHeader r n v) = hr_Path r"
  "hr_Body (setHeader r n v) = hr_Body r" "hr_BodyFails (setHeader r n v) = hr_BodyFails r"
  by (simp_all add: setHeader_def)

lemma values_setHeader:
  "header_values (hr_Header (setHeader r n v)) m = (if ToLower m = ToLower n then [v] else header_values (hr_Header r) m)"
  by (simp add: setHeader_def header_set_def header_values_def)

lemma header_get_values: "header_get h n = (case header_values h n of [] \<Rightarrow> [] | v # _ \<Rightarrow> v)"
  by (simp add: header_get_def)

definition bound :: "Header \<Rightarrow> string \<Rightarrow> bool" where
  "bound h n \<longleftrightarrow> header_get h n \<noteq> [] \<or> header_values h n = [[]]"

lemma setHeader_same: "header_values (hr_Header r) n = [v] \<Longrightarrow> setHeader r n v = r"
  by (simp add: setHeader_def header_set_def header_values_def fun_upd_idem)

lemma bind_bound:
  "bound (hr_Header r) ''Authorization'' \<Longrightarrow> bindAuthorization r = r"
  "bound (hr_Header r) ''Signature-Agent'' \<Longrightarrow> bindSignatureAgent r = r"
  by (auto simp: bindAuthorization_def bindSignatureAgent_def bound_def setHeader_same)

lemma bound_bind:
  "bound (hr_Header (bindAuthorization r)) ''Authorization''"
  "bound (hr_Header (bindSignatureAgent r)) ''Signature-Agent''"
  "bound (hr_Header r) ''Authorization'' \<Longrightarrow> bound (hr_Header (bindSignatureAgent r)) ''Authorization''"
  by (auto simp: bindAuthorization_def bindSignatureAgent_def bound_def header_get_values values_setHeader)

lemma values_bind:
  "ToLower n \<noteq> ''authorization'' \<Longrightarrow> header_values (hr_Header (bindAuthorization r)) n = header_values (hr_Header r) n"
  "ToLower n \<noteq> ''signature-agent'' \<Longrightarrow> header_values (hr_Header (bindSignatureAgent r)) n = header_values (hr_Header r) n"
  by (simp_all add: bindAuthorization_def bindSignatureAgent_def values_setHeader)

section \<open>The covered set of a hop\<close>

abbreviation biscuitNames :: "Header \<Rightarrow> string list" where
  "biscuitNames h \<equiv> (if header_get h ''X-RAMP-Entitlement-Biscuit'' \<noteq> [] then [entitlementHeaderLower] else [])"

definition hopCovered :: "Header \<Rightarrow> nat \<Rightarrow> CoveredComponent list" where
  "hopCovered h j = rampChainCoveredComponents h (if 0 < j then sigLabel j else []) (0 < j)"

definition hopFields :: "Header \<Rightarrow> nat \<Rightarrow> sign_field list" where
  "hopFields h j = map FieldHeader (requiredCoveredComponents @ biscuitNames h) @
     (if 0 < j then [FieldDict ''signature'' (sigLabel j)] else [])"

lemma covered_names_not_signature:
  "n \<in> set (requiredCoveredComponents @ [entitlementHeaderLower]) \<Longrightarrow> \<not> EqualFold n ''signature''"
  by (auto simp: requiredCoveredComponents_def entitlementHeaderLower_def EqualFold_def)

lemma hopCovered_names:
  assumes "c \<in> set (rampCoveredComponents h)"
  shows "\<not> EqualFold (cc_Name c) ''signature''" "cc_Params c = []"
  using assms covered_names_not_signature
  by (auto simp: rampCoveredComponents_def plainComponents_def split: if_splits)

lemma coveredToFields_plain:
  "\<forall>c \<in> set cs. \<not> EqualFold (cc_Name c) ''signature'' \<Longrightarrow>
     coveredToFields (cs @ ds) = map_sum (\<lambda>e. e) (\<lambda>r. map (FieldHeader \<circ> cc_Name) cs @ r) (coveredToFields ds)"
  by (induction cs) (simp_all add: map_sum_def split: sum.splits)

lemma sigLabel_nonempty [simp]: "sigLabel n \<noteq> []"
  by (simp add: sigLabel_def)

lemma hopFields_of: "coveredToFields (hopCovered h j) = Inr (hopFields h j)"
proof -
  have "coveredToFields (if 0 < j then [\<lparr>cc_Name = ''signature'', cc_Params = [\<lparr>cp_Key = ''key'', cp_Val = sigLabel j\<rparr>]\<rparr>] else []) =
      Inr (if 0 < j then [FieldDict ''signature'' (sigLabel j)] else [])"
    by (simp add: EqualFold_def componentParam_def Let_def)
  moreover have "map (FieldHeader \<circ> cc_Name) (rampCoveredComponents h) =
      map FieldHeader (requiredCoveredComponents @ biscuitNames h)"
    by (simp add: rampCoveredComponents_def plainComponents_def)
  moreover have "\<forall>c \<in> set (rampCoveredComponents h). \<not> EqualFold (cc_Name c) ''signature''"
    using hopCovered_names by blast
  ultimately show ?thesis
    unfolding hopCovered_def hopFields_def rampChainCoveredComponents_def
    by (subst coveredToFields_plain) (auto split: if_splits)
qed

lemma coveredFromItems_fields:
  "coveredFromItems (map fieldItem (map FieldHeader ns @ fs)) =
     map_sum (\<lambda>e. e) (\<lambda>r. plainComponents ns @ r) (coveredFromItems (map fieldItem fs))"
  by (induction ns) (simp_all add: plainComponents_def coveredFromItem_def sum.map_comp comp_def sum.map_ident)

lemma hopCovered_from: "coveredFromItems (map fieldItem (hopFields h j)) = Inr (hopCovered h j)"
proof -
  have "coveredFromItems (map fieldItem (if 0 < j then [FieldDict ''signature'' (sigLabel j)] else [])) =
      Inr (if 0 < j then [\<lparr>cc_Name = ''signature'', cc_Params = [\<lparr>cp_Key = ''key'', cp_Val = sigLabel j\<rparr>]\<rparr>] else [])"
    by (simp add: coveredFromItem_def)
  then show ?thesis
    unfolding hopCovered_def hopFields_def rampChainCoveredComponents_def rampCoveredComponents_def
    by (subst coveredFromItems_fields) (auto split: if_splits)
qed

lemma chainLinkFrom_plain:
  "\<forall>c \<in> set cs. \<not> EqualFold (cc_Name c) ''signature'' \<Longrightarrow> chainLinkFrom (cs @ ds) acc = chainLinkFrom ds acc"
  by (induction cs) simp_all

lemma linked_hop: "pa_Label p = sigLabel (j + 1) \<Longrightarrow> pa_Covered p = hopCovered h j \<Longrightarrow> linked j p"
proof -
  have "\<forall>c \<in> set (rampCoveredComponents h). \<not> EqualFold (cc_Name c) ''signature''"
    using hopCovered_names by blast
  then have "chainLink (hopCovered h j) = (if 0 < j then (sigLabel j, 1) else ([], 0))"
    unfolding chainLink_def hopCovered_def rampChainCoveredComponents_def
    by (subst chainLinkFrom_plain) (simp_all add: EqualFold_def componentParam_def)
  then show "pa_Label p = sigLabel (j + 1) \<Longrightarrow> pa_Covered p = hopCovered h j \<Longrightarrow> linked j p"
    by (auto simp: linked_def split: if_splits)
qed

lemma hopCovered_required:
  "set requiredCoveredComponents \<subseteq> (\<lambda>c. ToLower (cc_Name c)) ` set (hopCovered h j)"
proof
  fix n assume n: "n \<in> set requiredCoveredComponents"
  then have "ToLower n = n" by (auto simp: requiredCoveredComponents_def)
  moreover have "\<lparr>cc_Name = n, cc_Params = []\<rparr> \<in> set (hopCovered h j)"
    using n by (simp add: hopCovered_def rampChainCoveredComponents_def rampCoveredComponents_def plainComponents_def)
  ultimately show "n \<in> (\<lambda>c. ToLower (cc_Name c)) ` set (hopCovered h j)"
    by (intro image_eqI [where x = "\<lparr>cc_Name = n, cc_Params = []\<rparr>"]) simp_all
qed

lemma hopCovered_entitlement: "enforceEntitlementCoverage h (hopCovered h j) = None"
proof -
  have "ToLower entitlementHeaderLower = entitlementHeaderLower" by (simp add: entitlementHeaderLower_def)
  then show ?thesis
    by (auto simp: enforceEntitlementCoverage_def hopCovered_def rampChainCoveredComponents_def
        rampCoveredComponents_def plainComponents_def list_ex_iff)
qed

section \<open>The chain the signers build\<close>

text \<open>A hop is the clock reading, key id, private key and expiry one party signs with.\<close>

type_synonym hop = "int \<times> string \<times> string \<times> int"

definition hopConfig :: "string \<Rightarrow> int \<Rightarrow> SignConfig" where
  "hopConfig k e = signConfig (rampParams [] [] k e)"

definition labels :: "nat \<Rightarrow> string list" where
  "labels n = map (\<lambda>j. sigLabel (j + 1)) [0..<n]"

definition signed_at :: "httpsig_env \<Rightarrow> HttpRequest \<Rightarrow> nat \<Rightarrow> hop \<Rightarrow> sf_member \<Rightarrow> sf_member \<Rightarrow> bool" where
  "signed_at env req j hop m g \<longleftrightarrow> (case hop of (t, k, priv, e) \<Rightarrow> length priv = 64 \<and>
     m = MemberInnerList (map fieldItem (hopFields (hr_Header req) j)) (sigParams (unix t) (hopConfig k e)) \<and>
     (\<exists>raw. g = MemberItem (BareBytes raw) []) \<and>
     (\<exists>rq inp val. he_SignRequest env t (sigLabel (j + 1)) (hopFields (hr_Header req) j) (hopConfig k e) priv rq = Some (inp, val) \<and>
        he_UnmarshalDictionary env [val] = Some [(sigLabel (j + 1), g)] \<and>
        (\<forall>f \<in> set (hopFields (hr_Header req) j). component env req f = component env rq f)))"

definition prepared :: "string \<Rightarrow> HttpRequest \<Rightarrow> bool" where
  "prepared body req \<longleftrightarrow> header_values (hr_Header req) ''Content-Digest'' = [contentDigest body] \<and>
     bound (hr_Header req) ''Authorization'' \<and> bound (hr_Header req) ''Signature-Agent''"

definition carries :: "httpsig_env \<Rightarrow> HttpRequest \<Rightarrow> string \<Rightarrow> sf_member list \<Rightarrow> bool" where
  "carries env req name ms \<longleftrightarrow>
     (if ms = [] then header_values (hr_Header req) name = []
      else \<exists>v. header_values (hr_Header req) name = [v] \<and> v \<noteq> [] \<and>
             he_UnmarshalDictionary env [v] = Some (zip (labels (length ms)) ms))"

definition chained ::
  "httpsig_env \<Rightarrow> string \<Rightarrow> hop list \<Rightarrow> HttpRequest \<Rightarrow> sf_member list \<Rightarrow> sf_member list \<Rightarrow> bool" where
  "chained env body hops req ms gs \<longleftrightarrow> prepared body req \<and>
     length ms = length hops \<and> length gs = length hops \<and>
     carries env req ''Signature-Input'' ms \<and> carries env req ''Signature'' gs \<and>
     (\<forall>j < length hops. signed_at env req j (hops ! j) (ms ! j) (gs ! j))"

lemma length_labels [simp]: "length (labels n) = n"
  by (simp add: labels_def)

lemma labels_Suc: "labels (Suc n) = labels n @ [sigLabel (n + 1)]"
  by (simp add: labels_def)

lemma distinct_labels [simp]: "distinct (labels n)"
  by (simp add: labels_def distinct_map inj_on_def)

lemma set_labels: "set (labels n) = {sigLabel (j + 1) | j. j < n}"
  by (auto simp: labels_def)

lemma nth_labels [simp]: "j < n \<Longrightarrow> labels n ! j = sigLabel (j + 1)"
  by (simp add: labels_def)

lemma map_of_labels:
  "j < length ms \<Longrightarrow> map_of (zip (labels (length ms)) ms) (sigLabel (j + 1)) = Some (ms ! j)"
  using map_of_zip_nth [of "labels (length ms)" ms j] by simp

lemma zip_labels_snoc: "zip (labels (Suc (length ms))) (ms @ [m]) = zip (labels (length ms)) ms @ [(sigLabel (length ms + 1), m)]"
  by (simp add: labels_Suc)

text \<open>Writing the two signature headers leaves every other header alone.\<close>

definition resigned :: "HttpRequest \<Rightarrow> string \<Rightarrow> string \<Rightarrow> HttpRequest" where
  "resigned req inp val = setHeader (setHeader req ''Signature-Input'' inp) ''Signature'' val"

lemma resigned_simps [simp]:
  "hr_Method (resigned r i v) = hr_Method r" "hr_TargetURI (resigned r i v) = hr_TargetURI r"
  "hr_Authority (resigned r i v) = hr_Authority r" "hr_Body (resigned r i v) = hr_Body r"
  "hr_BodyFails (resigned r i v) = hr_BodyFails r"
  by (simp_all add: resigned_def)

lemma values_resigned:
  "header_values (hr_Header (resigned req inp val)) n =
     (if ToLower n = ''signature'' then [val] else if ToLower n = ''signature-input'' then [inp]
      else header_values (hr_Header req) n)"
  by (simp add: resigned_def values_setHeader)

lemma hopFields_resigned [simp]: "hopFields (hr_Header (resigned req inp val)) j = hopFields (hr_Header req) j"
  by (simp add: hopFields_def header_get_values values_resigned)

lemma prepared_resigned [simp]: "prepared body (resigned req inp val) = prepared body req"
  by (simp add: prepared_def bound_def header_get_values values_resigned)

lemma hopField_cases:
  assumes "f \<in> set (hopFields h j)"
  obtains n where "f = FieldHeader n" "ToLower n \<noteq> ''signature''" "ToLower n \<noteq> ''signature-input''"
  | "f = FieldDict ''signature'' (sigLabel j)" "0 < j"
proof -
  have "ToLower n \<noteq> ''signature'' \<and> ToLower n \<noteq> ''signature-input''"
    if "n \<in> set (requiredCoveredComponents @ [entitlementHeaderLower])" for n
    using that by (auto simp: requiredCoveredComponents_def entitlementHeaderLower_def)
  then show thesis using assms that unfolding hopFields_def by (auto split: if_splits)
qed

lemma component_resigned:
  assumes "f \<in> set (hopFields h j)" "j \<le> length gs" "carries env req ''Signature'' gs"
    "carries env (resigned req inp val) ''Signature'' (gs @ [g])"
  shows "component env (resigned req inp val) f = component env req f"
  using assms(1)
proof (cases rule: hopField_cases)
  case (1 n)
  then show ?thesis by (simp add: values_resigned)
next
  case 2
  then obtain i where i: "j = i + 1" "i < length gs" using assms(2) by (metis Suc_eq_plus1 Suc_le_eq gr0_implies_Suc)
  have "gs \<noteq> []" using i by auto
  then obtain v where "header_values (hr_Header req) ''Signature'' = [v]"
      "he_UnmarshalDictionary env [v] = Some (zip (labels (length gs)) gs)"
    using assms(3) by (auto simp: carries_def)
  then have old: "member env req ''Signature'' (sigLabel j) = Some (gs ! i)"
    using map_of_labels [OF i(2)] i(1) by (simp add: member_def)
  obtain v' where "header_values (hr_Header (resigned req inp val)) ''Signature'' = [v']"
      "he_UnmarshalDictionary env [v'] = Some (zip (labels (length (gs @ [g]))) (gs @ [g]))"
    using assms(4) by (auto simp: carries_def)
  then have new: "member env (resigned req inp val) ''Signature'' (sigLabel j) = Some (gs ! i)"
    using map_of_labels [of i "gs @ [g]"] i by (simp add: member_def nth_append)
  have "member env r ''signature'' l = member env r ''Signature'' l" for r l
    by (simp add: member_def header_values_def)
  then show ?thesis using old new 2 by simp
qed

lemma carries_join:
  assumes "httpsign_laws env" "carries env req name ms" "he_UnmarshalDictionary env [v] = Some [(sigLabel (length ms + 1), m)]"
    "v \<noteq> []" "header_values (hr_Header req') name = [joinHeader req name v]"
  shows "carries env req' name (ms @ [m])"
proof (cases "ms = []")
  case True
  then have "joinHeader req name v = v" using assms(2) by (simp add: carries_def joinHeader_def header_get_values)
  then show ?thesis using assms True by (simp add: carries_def labels_def)
next
  case False
  then obtain x where x: "header_values (hr_Header req) name = [x]" "x \<noteq> []"
      "he_UnmarshalDictionary env [x] = Some (zip (labels (length ms)) ms)"
    using assms(2) by (auto simp: carries_def)
  then have j: "joinHeader req name v = x @ '', '' @ v" by (simp add: joinHeader_def header_get_values Let_def)
  have "sigLabel (length ms + 1) \<notin> set (labels (length ms))" by (auto simp: set_labels)
  then have "fst ` set (zip (labels (length ms)) ms) \<inter> fst ` set [(sigLabel (length ms + 1), m)] = {}"
    by (auto dest: set_zip_leftD)
  moreover have "zip (labels (length ms)) ms \<noteq> []" using False by (cases ms) (auto simp: labels_def upt_conv_Cons)
  ultimately have "he_UnmarshalDictionary env [x @ '', '' @ v] = Some (zip (labels (length ms)) ms @ [(sigLabel (length ms + 1), m)])"
    using dict_join [OF assms(1) x(3) assms(3)] by simp
  then show ?thesis using assms(5) j x(2) by (simp add: carries_def zip_labels_snoc)
qed

lemma sign_step:
  assumes "httpsign_laws env" "chained env body hops req ms gs"
    "signWithParams env t req (rampParams (sigLabel (length hops + 1)) (hopCovered (hr_Header req) (length hops)) k e) priv SigWriteAppend = Inr req'"
  shows "\<exists>m g inp val. chained env body (hops @ [(t, k, priv, e)]) req' (ms @ [m]) (gs @ [g]) \<and> req' = resigned req inp val"
proof -
  let ?n = "length hops" and ?h = "hr_Header req"
  obtain si sv where s: "length priv = 64"
      "he_SignRequest env t (sigLabel (?n + 1)) (hopFields ?h ?n) (hopConfig k e) priv req = Some (si, sv)"
      "req' = resigned req (joinHeader req ''Signature-Input'' si) (joinHeader req ''Signature'' sv)"
    using assms(3) by (auto simp: signWithParams_def hopFields_of rampParams_def hopConfig_def signConfig_def resigned_def Let_def
        split: if_splits option.splits)
  obtain raw where r: "si \<noteq> []" "sv \<noteq> []"
      "he_UnmarshalDictionary env [si] = Some [(sigLabel (?n + 1), MemberInnerList (map fieldItem (hopFields ?h ?n)) (sigParams (unix t) (hopConfig k e)))]"
      "he_UnmarshalDictionary env [sv] = Some [(sigLabel (?n + 1), MemberItem (BareBytes raw) [])]"
    using sign_emits [OF assms(1) s(2)] by blast
  define m where "m = MemberInnerList (map fieldItem (hopFields ?h ?n)) (sigParams (unix t) (hopConfig k e))"
  define g where "g = MemberItem (BareBytes raw) []"
  have len: "length ms = ?n" "length gs = ?n" using assms(2) by (auto simp: chained_def)
  have ci: "carries env req' ''Signature-Input'' (ms @ [m])"
    by (rule carries_join [OF assms(1), where v = si])
      (use assms(2) r s(3) len in \<open>auto simp: chained_def m_def values_resigned\<close>)
  have cg: "carries env req' ''Signature'' (gs @ [g])"
    by (rule carries_join [OF assms(1), where v = sv])
      (use assms(2) r s(3) len in \<open>auto simp: chained_def g_def values_resigned\<close>)
  have comp: "component env req' f = component env req f" if "f \<in> set (hopFields ?h j)" "j \<le> ?n" for f j
    using component_resigned [OF that(1), of gs env req] that(2) len(2) assms(2) cg s(3) by (auto simp: chained_def)
  have new: "signed_at env req' ?n (t, k, priv, e) m g"
    unfolding signed_at_def using s r comp [of _ ?n] by (auto simp: m_def g_def)
  have old: "signed_at env req' j (hops ! j) (ms ! j) (gs ! j)" if j: "j < ?n" for j
  proof -
    have "signed_at env req j (hops ! j) (ms ! j) (gs ! j)" using assms(2) j by (simp add: chained_def)
    then show ?thesis using comp [of _ j] j s(3) unfolding signed_at_def by (fastforce split: prod.splits)
  qed
  have "signed_at env req' j ((hops @ [(t, k, priv, e)]) ! j) ((ms @ [m]) ! j) ((gs @ [g]) ! j)" if "j < Suc ?n" for j
    using that new old len by (cases "j = ?n") (auto simp: nth_append)
  then have "chained env body (hops @ [(t, k, priv, e)]) req' (ms @ [m]) (gs @ [g])"
    using assms(2) ci cg s(3) unfolding chained_def by simp
  then show ?thesis using s(3) by blast
qed

section \<open>Appending\<close>

lemma maxLabelFrom_labels:
  assumes "i \<le> n" "int n \<le> max_int64"
  shows "maxLabelFrom (map (\<lambda>j. sigLabel (j + 1)) [i..<n]) (int i) = int n"
  using assms
proof (induction "n - i" arbitrary: i)
  case (Suc d)
  then have "[i..<n] = i # [Suc i..<n]" by (simp add: upt_conv_Cons)
  moreover have "Atoi (decimal (i + 1)) = Some (int (Suc i))"
    using Atoi_decimal [of "i + 1"] Suc.hyps(2) Suc.prems by simp
  ultimately show ?case
    using Suc.hyps(1) [of "Suc i"] Suc.hyps(2) Suc.prems by (simp add: sigLabel_def HasPrefix_def TrimPrefix_def)
qed simp

lemma maxSignatureLabelN_chained:
  assumes "chained env body hops req ms gs" "int (length hops) \<le> max_int64"
  shows "maxSignatureLabelN env (hr_Header req) = Inr (int (length hops))"
proof (cases "hops = []")
  case True
  then show ?thesis using assms(1) by (simp add: chained_def carries_def maxSignatureLabelN_def)
next
  case False
  then obtain v where "header_values (hr_Header req) ''Signature-Input'' = [v]"
      "he_UnmarshalDictionary env [v] = Some (zip (labels (length ms)) ms)" "length ms = length hops"
    using assms(1) by (auto simp: chained_def carries_def split: if_splits)
  then show ?thesis
    using maxLabelFrom_labels [of 0 "length hops"] assms(2)
    by (simp add: maxSignatureLabelN_def labels_def)
qed

lemma rampChain_hop:
  "rampChainCoveredComponents h (if 0 < int n then ''sig'' @ decimal_int (int n) else []) (0 < int n) = hopCovered h n"
  by (simp add: hopCovered_def sigLabel_def decimal_int_def)

lemma append_signs:
  assumes "chained env body hops req ms gs" "int (length hops) < max_int64"
  shows "AppendSignatureRAMP env t req body k priv e =
    signWithParams env t req (rampParams (sigLabel (length hops + 1)) (hopCovered (hr_Header req) (length hops)) k e) priv SigWriteAppend"
proof -
  have p: "prepared body req" using assms(1) by (simp add: chained_def)
  then have "header_get (hr_Header req) ''Content-Digest'' \<noteq> []"
    by (simp add: prepared_def header_get_values contentDigest_def)
  moreover have "bindSignatureAgent (bindAuthorization req) = req" using p by (simp add: prepared_def bind_bound)
  moreover have "wrap64 (int (length hops) + 1) = int (length hops + 1)"
    using assms(2) by (simp add: int64_def max_int64_def min_int64_def)
  moreover have "decimal_int (int (length hops + 1)) = decimal (length hops + 1)"
    unfolding decimal_int_def by (simp only: nat_int) simp
  ultimately show ?thesis
    using maxSignatureLabelN_chained [OF assms(1)] assms(2) rampChain_hop [of "hr_Header req" "length hops"]
    unfolding AppendSignatureRAMP_def Let_def by (simp add: sigLabel_def)
qed

lemma append_step:
  assumes "httpsign_laws env" "chained env body hops req ms gs" "int (length hops) < max_int64"
    "AppendSignatureRAMP env t req body k priv e = Inr req'"
  shows "\<exists>m g inp val. chained env body (hops @ [(t, k, priv, e)]) req' (ms @ [m]) (gs @ [g]) \<and> req' = resigned req inp val"
  by (rule sign_step [OF assms(1,2)]) (use append_signs [OF assms(2,3)] assms(4) in simp)

fun appendAll :: "httpsig_env \<Rightarrow> string \<Rightarrow> hop list \<Rightarrow> HttpRequest \<Rightarrow> (httpsig_error, HttpRequest) res" where
  "appendAll env body [] req = Inr req"
| "appendAll env body ((t, k, priv, e) # hops) req =
     (case AppendSignatureRAMP env t req body k priv e of
        Inl er \<Rightarrow> Inl er
      | Inr req' \<Rightarrow> appendAll env body hops req')"

lemma appendAll_chained:
  assumes "httpsign_laws env" "chained env body hops req ms gs" "int (length (hops @ later)) \<le> max_int64"
    "appendAll env body later req = Inr req'"
  shows "\<exists>ms' gs'. chained env body (hops @ later) req' ms' gs' \<and> hr_Body req' = hr_Body req \<and> hr_BodyFails req' = hr_BodyFails req \<and>
    (\<forall>n. ToLower n \<noteq> ''signature'' \<longrightarrow> ToLower n \<noteq> ''signature-input'' \<longrightarrow>
       header_values (hr_Header req') n = header_values (hr_Header req) n)"
  using assms(2-4)
proof (induction later arbitrary: hops req ms gs)
  case (Cons a later)
  obtain t k priv e where a: "a = (t, k, priv, e)" by (cases a)
  obtain r1 where r1: "AppendSignatureRAMP env t req body k priv e = Inr r1" "appendAll env body later r1 = Inr req'"
    using Cons.prems(3) a by (auto split: sum.splits)
  have "int (length hops) < max_int64" using Cons.prems(2) by simp
  from append_step [OF assms(1) Cons.prems(1) this r1(1)] obtain m g inp val
    where c: "chained env body (hops @ [a]) r1 (ms @ [m]) (gs @ [g])" "r1 = resigned req inp val"
    using a by blast
  have "int (length ((hops @ [a]) @ later)) \<le> max_int64" using Cons.prems(2) by simp
  from Cons.IH [OF c(1) this r1(2)] show ?case using c(2) by (simp add: values_resigned)
qed auto

section \<open>The first signature\<close>

lemma sigLabel_1: "sigLabel (Suc 0) = ''sig1''" by code_simp

lemma signWithParams_fresh:
  assumes "header_values (hr_Header req) ''Signature-Input'' = []" "header_values (hr_Header req) ''Signature'' = []"
  shows "signWithParams env t req params priv SigWriteSet = signWithParams env t req params priv SigWriteAppend"
  using assms by (auto simp: signWithParams_def joinHeader_def header_get_values Let_def split: sum.splits option.splits)

definition prepare :: "HttpRequest \<Rightarrow> string \<Rightarrow> HttpRequest" where
  "prepare req body = setContentDigest (bindSignatureAgent (bindAuthorization req)) body"

lemma prepared_prepare: "prepared body (prepare req body)"
proof -
  let ?r = "bindSignatureAgent (bindAuthorization req)"
  have "bound (hr_Header ?r) ''Authorization''" "bound (hr_Header ?r) ''Signature-Agent''"
    by (simp_all add: bound_bind)
  then show ?thesis
    by (simp add: prepared_def prepare_def setContentDigest_def bound_def header_get_values values_setHeader)
qed

lemma prepare_body [simp]: "hr_Body (prepare req body) = hr_Body req" "hr_BodyFails (prepare req body) = hr_BodyFails req"
  by (simp_all add: prepare_def setContentDigest_def bindSignatureAgent_def bindAuthorization_def)

lemma values_prepare:
  assumes "ToLower n \<notin> {''content-digest'', ''signature-agent'', ''authorization''}"
  shows "header_values (hr_Header (prepare req body)) n = header_values (hr_Header req) n"
  using assms by (simp add: prepare_def setContentDigest_def values_setHeader values_bind)

lemma SignRequestRAMP_signs:
  assumes "header_values (hr_Header req) ''Signature-Input'' = []" "header_values (hr_Header req) ''Signature'' = []"
  shows "SignRequestRAMP env t req body k priv e =
    signWithParams env t (prepare req body)
      (rampParams (sigLabel 1) (hopCovered (hr_Header (prepare req body)) 0) k e) priv SigWriteAppend"
proof -
  let ?r = "bindSignatureAgent (bindAuthorization req)"
  have cov: "rampCoveredComponents (hr_Header ?r) = hopCovered (hr_Header (prepare req body)) 0"
    by (simp add: hopCovered_def rampChainCoveredComponents_def rampCoveredComponents_def header_get_values
        prepare_def setContentDigest_def values_setHeader)
  have "coversComponent (hopCovered (hr_Header (prepare req body)) 0) ''content-digest''"
    by (rule required_covers_digest [OF hopCovered_required])
  then have "SignRequestRAMP env t req body k priv e = signWithParams env t (prepare req body)
      (rampParams (sigLabel 1) (hopCovered (hr_Header (prepare req body)) 0) k e) priv SigWriteSet"
    unfolding SignRequestRAMP_def SignRequest_def Let_def cov by (simp add: rampParams_def prepare_def sigLabel_1)
  then show ?thesis using assms signWithParams_fresh by (simp add: values_prepare)
qed

lemma first_chained:
  assumes "httpsign_laws env" "header_values (hr_Header req) ''Signature-Input'' = []"
    "header_values (hr_Header req) ''Signature'' = []" "SignRequestRAMP env t req body k priv e = Inr req'"
  shows "\<exists>ms gs inp val. chained env body [(t, k, priv, e)] req' ms gs \<and> req' = resigned (prepare req body) inp val"
proof -
  have "chained env body [] (prepare req body) [] []"
    using assms(2,3) by (simp add: chained_def prepared_prepare carries_def values_prepare)
  from sign_step [OF assms(1) this, of t k e priv req'] show ?thesis
    using assms(4) SignRequestRAMP_signs [OF assms(2,3)] by auto
qed

lemma setHeader_commute:
  "ToLower m \<noteq> ToLower n \<Longrightarrow> setHeader (setHeader r m v) n w = setHeader (setHeader r n w) m v"
  by (simp add: setHeader_def header_set_def fun_upd_twist)

lemma get_setHeader_other:
  "ToLower m \<noteq> ToLower n \<Longrightarrow> header_get (hr_Header (setHeader r n v)) m = header_get (hr_Header r) m"
  by (simp add: header_get_values values_setHeader)

lemma bind_digest_commute:
  "bindSignatureAgent (bindAuthorization (setContentDigest req body)) = prepare req body"
  by (simp add: prepare_def setContentDigest_def bindSignatureAgent_def bindAuthorization_def get_setHeader_other
      setHeader_commute [of "''Content-Digest''"])

lemma Append_fresh:
  assumes "header_values (hr_Header req) ''Signature-Input'' = []" "header_values (hr_Header req) ''Signature'' = []"
    "header_get (hr_Header req) ''Content-Digest'' = []"
  shows "AppendSignatureRAMP env t req body k priv e = SignRequestRAMP env t req body k priv e"
proof -
  have "maxSignatureLabelN env (hr_Header (prepare req body)) = Inr 0"
    using assms(1) by (simp add: maxSignatureLabelN_def values_prepare)
  moreover have "''sig'' @ decimal_int 1 = sigLabel 1" by (simp add: sigLabel_def decimal_int_def)
  moreover have "wrap64 1 = 1" by (simp add: wrap64_def)
  ultimately show ?thesis
    using assms(3) SignRequestRAMP_signs [OF assms(1,2)] rampChain_hop [of "hr_Header (prepare req body)" 0]
    by (simp add: AppendSignatureRAMP_def bind_digest_commute Let_def)
qed

section \<open>Verifying the chain\<close>

lemma parseLabels_Inr:
  assumes "\<And>l. l \<in> set ls \<Longrightarrow> parseInputLabel d l = Inr (P l) \<and> parseSigLabel sgd l = Inr (G l)"
  shows "parseLabels d sgd ls = Inr (map (\<lambda>l. (P l, G l)) ls)"
  using assms by (induction ls) simp_all

lemma map_of_tabulated: "l \<in> set ls \<Longrightarrow> map_of (map (\<lambda>l. (l, G l)) ls) l = Some (G l)"
  by (induction ls) auto

definition hopParams :: "Header \<Rightarrow> nat \<Rightarrow> hop \<Rightarrow> Params" where
  "hopParams h j hop = (case hop of (t, k, priv, e) \<Rightarrow>
     (rampParams (sigLabel (j + 1)) (hopCovered h j) k e)\<lparr>pa_Created := unix t\<rparr>)"

lemma parseInputLabel_hop:
  assumes "map_of d l = Some (MemberInnerList (map fieldItem (hopFields h j)) (sigParams (unix t) (hopConfig k e)))"
    "l = sigLabel (j + 1)" "k \<noteq> []" "e \<noteq> 0"
  shows "parseInputLabel d l = Inr (hopParams h j (t, k, priv, e))"
  using assms by (simp add: parseInputLabel_def hopCovered_from applySignatureParams_def stringParam_def intParam_def
      sigParams_def hopConfig_def signConfig_def hopParams_def rampParams_def)

definition member_bytes :: "sf_member \<Rightarrow> string" where
  "member_bytes g = (case g of MemberItem (BareBytes raw) _ \<Rightarrow> raw | _ \<Rightarrow> [])"

lemma parse_chained:
  assumes "chained env body hops req ms gs" "hops \<noteq> []"
    "\<forall>(t, k, priv, e) \<in> set hops. k \<noteq> [] \<and> e \<noteq> 0"
  shows "\<exists>G. parseAllSignatures env (hr_Header req) =
    Inr (map (\<lambda>j. hopParams (hr_Header req) j (hops ! j)) [0..<length hops], map (\<lambda>l. (l, G l)) (labels (length hops)))"
proof -
  let ?n = "length hops" and ?h = "hr_Header req"
  let ?d = "zip (labels ?n) ms" and ?sgd = "zip (labels ?n) gs"
  obtain si sv where v: "header_values ?h ''Signature-Input'' = [si]" "he_UnmarshalDictionary env [si] = Some ?d"
      "header_values ?h ''Signature'' = [sv]" "he_UnmarshalDictionary env [sv] = Some ?sgd"
      and len: "length ms = ?n" "length gs = ?n"
    using assms(1,2) by (auto simp: chained_def carries_def split: if_splits)
  define P where "P l = projr (parseInputLabel ?d l)" for l
  define G where "G l = projr (parseSigLabel ?sgd l)" for l
  have at: "parseInputLabel ?d (sigLabel (j + 1)) = Inr (hopParams ?h j (hops ! j))"
      "\<exists>raw. parseSigLabel ?sgd (sigLabel (j + 1)) = Inr raw" if j: "j < ?n" for j
  proof -
    obtain t k priv e where hop: "hops ! j = (t, k, priv, e)" by (cases "hops ! j")
    have s: "signed_at env req j (hops ! j) (ms ! j) (gs ! j)" using assms(1) j by (simp add: chained_def)
    have ke: "k \<noteq> []" "e \<noteq> 0" using assms(3) nth_mem [OF j] hop by auto
    have "map_of ?d (sigLabel (j + 1)) = Some (ms ! j)" using map_of_labels [of j ms] j len by simp
    then show "parseInputLabel ?d (sigLabel (j + 1)) = Inr (hopParams ?h j (hops ! j))"
      using s hop ke parseInputLabel_hop by (simp add: signed_at_def)
    have "map_of ?sgd (sigLabel (j + 1)) = Some (gs ! j)" using map_of_labels [of j gs] j len by simp
    then show "\<exists>raw. parseSigLabel ?sgd (sigLabel (j + 1)) = Inr raw"
      using s hop by (auto simp: signed_at_def parseSigLabel_def)
  qed
  have "parseInputLabel ?d l = Inr (P l) \<and> parseSigLabel ?sgd l = Inr (G l)" if l: "l \<in> set (labels ?n)" for l
  proof -
    obtain j where j: "j < ?n" "l = sigLabel (j + 1)" using l by (auto simp: set_labels)
    obtain raw where "parseSigLabel ?sgd l = Inr raw" using at(2) j by blast
    then show ?thesis using at(1) [OF j(1)] j(2) by (simp add: P_def G_def)
  qed
  then have "parseLabels ?d ?sgd (labels ?n) = Inr (map (\<lambda>l. (P l, G l)) (labels ?n))" by (rule parseLabels_Inr)
  moreover have "map fst ?d = labels ?n" using len by simp
  moreover have "map P (labels ?n) = map (\<lambda>j. hopParams ?h j (hops ! j)) [0..<?n]"
    using at(1) by (simp add: labels_def P_def)
  moreover have "map (\<lambda>l. (pa_Label (P l), G l)) (labels ?n) = map (\<lambda>l. (l, G l)) (labels ?n)"
    using at(1) by (auto simp: labels_def P_def hopParams_def rampParams_def split: prod.splits)
  moreover have "?d \<noteq> []" using assms(2) len by (cases hops; cases ms) (auto simp: labels_def upt_conv_Cons)
  ultimately have "parseAllSignatures env ?h = Inr (map (\<lambda>j. hopParams ?h j (hops ! j)) [0..<?n], map (\<lambda>l. (l, G l)) (labels ?n))"
    using v by (simp add: parseAllSignatures_def comp_def)
  then show ?thesis by (rule exI [of _ G])
qed

definition hop_accepted :: "key_resolver \<Rightarrow> string \<Rightarrow> int \<Rightarrow> int \<Rightarrow> hop \<Rightarrow> bool" where
  "hop_accepted resolver agent skew now hop \<longleftrightarrow> (case hop of (t, k, priv, e) \<Rightarrow>
     resolver agent k = Inr (drop 32 priv) \<and> k \<noteq> [] \<and> e \<noteq> 0 \<and> unix t \<noteq> 0 \<and> unix now \<le> e \<and>
     unix t \<le> wrap64 (unix now + wholeSeconds skew))"

lemma hop_verified:
  assumes "httpsign_laws env" "chained env body hops req ms gs" "j < length hops"
    "hop_accepted resolver (DirectoryFromRequest (he_ids env) (header_values (hr_Header req) ''Signature-Agent'')) skew now (hops ! j)"
  shows "\<exists>v. verified_as env resolver skew now req body (map (\<lambda>l. (l, G l)) (labels (length hops)))
      (hopParams (hr_Header req) j (hops ! j)) v \<and>
    hv_Label v = sigLabel (j + 1) \<and> hv_KeyID v = fst (snd (hops ! j)) \<and> hv_PublicKey v = drop 32 (fst (snd (snd (hops ! j))))"
proof -
  obtain t k priv e where hop: "hops ! j = (t, k, priv, e)" by (cases "hops ! j")
  let ?h = "hr_Header req" and ?l = "sigLabel (j + 1)"
  let ?v = "\<lparr>hv_KeyID = k, hv_Algorithm = ''ed25519'', hv_Label = ?l, hv_Signature = StdEncode (map of_char (G ?l)),
      hv_Created = unix t, hv_Expires = e, hv_PublicKey = drop 32 priv,
      hv_SignatureAgent = DirectoryFromRequest (he_ids env) (header_values ?h ''Signature-Agent'')\<rparr>"
  have s: "signed_at env req j (hops ! j) (ms ! j) (gs ! j)" and len: "length ms = length hops" "length gs = length hops"
    using assms(2,3) by (auto simp: chained_def)
  have mem: "member env req ''Signature-Input'' ?l = Some (ms ! j)" "member env req ''Signature'' ?l = Some (gs ! j)"
    using assms(2,3) map_of_labels [of j ms] map_of_labels [of j gs] len
    by (auto simp: chained_def carries_def member_def split: if_splits)
  obtain rq inp val where sg: "he_SignRequest env t ?l (hopFields ?h j) (hopConfig k e) priv rq = Some (inp, val)"
      "he_UnmarshalDictionary env [val] = Some [(?l, gs ! j)]"
      "\<And>f. f \<in> set (hopFields ?h j) \<Longrightarrow> component env req f = component env rq f"
      and m: "ms ! j = MemberInnerList (map fieldItem (hopFields ?h j)) (sigParams (unix t) (hopConfig k e))"
    using s hop by (auto simp: signed_at_def)
  have "he_VerifyRequest env ?l (drop 32 priv) req"
    by (rule sign_verifies [OF assms(1) sg(1,2) _ mem(2) sg(3)]) (use mem(1) m in simp_all)
  moreover have "map_of (map (\<lambda>l. (l, G l)) (labels (length hops))) ?l = Some (G ?l)"
    by (rule map_of_tabulated) (use assms(3) in \<open>auto simp: set_labels\<close>)
  moreover have "length priv = 64" using s hop by (simp add: signed_at_def)
  moreover have "TrimSpace (header_get ?h ''Content-Digest'') = contentDigest body"
    using assms(2) by (simp add: chained_def prepared_def header_get_values)
  ultimately have "verified_as env resolver skew now req body (map (\<lambda>l. (l, G l)) (labels (length hops)))
      (hopParams ?h j (hops ! j)) ?v"
    using assms(4) hop hopCovered_required [of ?h j] hopCovered_entitlement [of ?h j]
    by (simp add: verified_as_def hopParams_def rampParams_def hop_accepted_def EqualFold_def)
  then show ?thesis using hop by (intro exI [of _ ?v]) simp
qed

lemma chain_verifies:
  assumes "httpsign_laws env" "chained env body hops req ms gs" "hops \<noteq> []" "readAndRestoreBody req = Inr b" "bodyBytes b = body"
    "vo_MaxSignatures (buildVerifyOptions opts) > 0 \<longrightarrow> int (length hops) \<le> vo_MaxSignatures (buildVerifyOptions opts)"
    "\<forall>j < length hops. hop_accepted resolver
       (DirectoryFromRequest (he_ids env) (header_values (hr_Header req) ''Signature-Agent''))
       (vo_MaxFutureSkew (buildVerifyOptions opts)) (clk j) (hops ! j)"
  shows "\<exists>vs. VerifyMultisigRequest env resolver opts clk req = Inr vs \<and> map hv_Label vs = labels (length hops) \<and>
    map hv_KeyID vs = map (fst \<circ> snd) hops \<and> map hv_PublicKey vs = map (drop 32 \<circ> fst \<circ> snd \<circ> snd) hops"
proof -
  let ?n = "length hops" and ?h = "hr_Header req"
  have "\<forall>(t, k, priv, e) \<in> set hops. k \<noteq> [] \<and> e \<noteq> 0"
  proof (clarify)
    fix t k priv e assume "(t, k, priv, e) \<in> set hops"
    then obtain j where "j < ?n" "hops ! j = (t, k, priv, e)" by (metis in_set_conv_nth)
    then show "k \<noteq> [] \<and> e \<noteq> 0" using assms(7) by (auto simp: hop_accepted_def)
  qed
  then obtain G where G: "parseAllSignatures env ?h =
      Inr (map (\<lambda>j. hopParams ?h j (hops ! j)) [0..<?n], map (\<lambda>l. (l, G l)) (labels ?n))"
    using parse_chained [OF assms(2,3)] by blast
  let ?ok = "\<lambda>j v. verified_as env resolver (vo_MaxFutureSkew (buildVerifyOptions opts)) (clk j) req body
      (map (\<lambda>l. (l, G l)) (labels ?n)) (hopParams ?h j (hops ! j)) v \<and>
    hv_Label v = sigLabel (j + 1) \<and> hv_KeyID v = fst (snd (hops ! j)) \<and> hv_PublicKey v = drop 32 (fst (snd (snd (hops ! j))))"
  define V where "V j = (SOME v. ?ok j v)" for j
  have V: "?ok j (V j)" if j: "j < ?n" for j
    unfolding V_def by (rule someI_ex) (use hop_verified [OF assms(1,2) j] assms(7) j in blast)
  let ?vs = "map V [0..<?n]"
  have "\<forall>j < ?n. linked j (hopParams ?h j (hops ! j))"
    by (auto intro!: linked_hop simp: hopParams_def rampParams_def split: prod.splits)
  then have "VerifyMultisigRequest env resolver opts clk req = Inr ?vs"
    unfolding VerifyMultisig_Inr using G assms(4,5,6) V
    by (intro exI [of _ "map (\<lambda>j. hopParams ?h j (hops ! j)) [0..<?n]"] exI [of _ "map (\<lambda>l. (l, G l)) (labels ?n)"] exI [of _ b]) simp
  moreover have "map hv_Label ?vs = labels ?n" "map hv_KeyID ?vs = map (fst \<circ> snd) hops"
      "map hv_PublicKey ?vs = map (drop 32 \<circ> fst \<circ> snd \<circ> snd) hops"
    using V by (auto simp: labels_def intro!: nth_equalityI)
  ultimately show ?thesis by blast
qed

lemma verified_as_fields:
  assumes "verified_as env resolver skew now req body sigMap p v"
  shows "hv_Label v = pa_Label p" "hv_KeyID v = pa_KeyID p" "hv_Created v = pa_Created p" "hv_Expires v = pa_Expires p"
    "hv_SignatureAgent v = DirectoryFromRequest (he_ids env) (header_values (hr_Header req) ''Signature-Agent'')"
  using assms by (cases v, auto simp: verified_as_def)+

lemma prepare_agent:
  "header_values (hr_Header (prepare req body)) ''Signature-Agent'' = header_values (hr_Header (bindSignatureAgent req)) ''Signature-Agent''"
  by (simp add: prepare_def setContentDigest_def bindSignatureAgent_def bindAuthorization_def values_setHeader header_get_values)

lemma relayed_chain:
  assumes "httpsign_laws env"
    and "header_values (hr_Header req) ''Signature-Input'' = []" "header_values (hr_Header req) ''Signature'' = []"
    and "SignRequestRAMP env t req body k priv e = Inr req1" "appendAll env body relays req1 = Inr req2"
    and "hr_Body req = Some body" "\<not> hr_BodyFails req" "int (length relays) < max_int64"
    and "vo_MaxSignatures (buildVerifyOptions opts) \<le> 0 \<or> int (length relays) < vo_MaxSignatures (buildVerifyOptions opts)"
    and "\<And>j. j \<le> length relays \<Longrightarrow> hop_accepted resolver
      (DirectoryFromRequest (he_ids env) (header_values (hr_Header (bindSignatureAgent req)) ''Signature-Agent''))
      (vo_MaxFutureSkew (buildVerifyOptions opts)) (clk j) (((t, k, priv, e) # relays) ! j)"
  shows "\<exists>vs. VerifyMultisigRequest env resolver opts clk req2 = Inr vs \<and>
    map hv_Label vs = labels (length relays + 1) \<and> map hv_KeyID vs = k # map (fst \<circ> snd) relays \<and>
    map hv_PublicKey vs = drop 32 priv # map (drop 32 \<circ> fst \<circ> snd \<circ> snd) relays"
proof -
  let ?hops = "(t, k, priv, e) # relays"
  obtain ms gs inp val where r1: "chained env body [(t, k, priv, e)] req1 ms gs" "req1 = resigned (prepare req body) inp val"
    using first_chained [OF assms(1-4)] by blast
  have "int (length ([(t, k, priv, e)] @ relays)) \<le> max_int64" using assms(8) by simp
  from appendAll_chained [OF assms(1) r1(1) this assms(5)]
  obtain ms' gs' where r2: "chained env body ?hops req2 ms' gs'" "hr_Body req2 = hr_Body req1" "hr_BodyFails req2 = hr_BodyFails req1"
      "\<forall>n. ToLower n \<noteq> ''signature'' \<longrightarrow> ToLower n \<noteq> ''signature-input'' \<longrightarrow>
         header_values (hr_Header req2) n = header_values (hr_Header req1) n"
    by auto
  have dir: "header_values (hr_Header req2) ''Signature-Agent'' = header_values (hr_Header (bindSignatureAgent req)) ''Signature-Agent''"
    using r2(4) r1(2) by (simp add: values_resigned prepare_agent)
  have body: "readAndRestoreBody req2 = Inr (Some body)"
    using r2(2,3) r1(2) assms(6,7) by (simp add: readAndRestoreBody_def)
  have "\<exists>vs. VerifyMultisigRequest env resolver opts clk req2 = Inr vs \<and> map hv_Label vs = labels (length ?hops) \<and>
    map hv_KeyID vs = map (fst \<circ> snd) ?hops \<and> map hv_PublicKey vs = map (drop 32 \<circ> fst \<circ> snd \<circ> snd) ?hops"
    by (rule chain_verifies [OF assms(1) r2(1) _ body]) (use assms(9,10) dir in \<open>auto simp: bodyBytes_def less_Suc_eq_le\<close>)
  then show ?thesis by simp
qed

lemma verified_as_unique:
  assumes "verified_as env resolver skew now req body sigMap p v" "verified_as env resolver skew' now' req body' sigMap p w"
  shows "v = w"
  using assms by (cases v; cases w) (auto simp: verified_as_def)

text \<open>The clock decides whether a request is accepted, not what is reported of it.\<close>

lemma verified_unique:
  assumes "VerifyMultisigRequest env resolver opts clk req = Inr vs" "VerifyMultisigRequest env resolver opts' clk' req = Inr ws"
  shows "vs = ws"
proof -
  obtain ps sigMap body where v: "parseAllSignatures env (hr_Header req) = Inr (ps, sigMap)" "length vs = length ps"
      "\<forall>j < length ps. verified_as env resolver (vo_MaxFutureSkew (buildVerifyOptions opts)) (clk j) req
         (bodyBytes body) sigMap (ps ! j) (vs ! j)"
    using assms(1) unfolding VerifyMultisig_Inr by blast
  moreover obtain body' where w: "length ws = length ps"
      "\<forall>j < length ps. verified_as env resolver (vo_MaxFutureSkew (buildVerifyOptions opts')) (clk' j) req
         (bodyBytes body') sigMap (ps ! j) (ws ! j)"
    using assms(2) v(1) unfolding VerifyMultisig_Inr by auto
  ultimately show ?thesis by (intro nth_equalityI) (auto intro: verified_as_unique)
qed

section \<open>Replay\<close>

lemma hs_store_eq:
  "hs_replayKey = replayKey" "hs_sweepLocked = sweepLocked" "hs_SeenOrAdd = SeenOrAdd" "hs_Seen = Seen"
  "NewMemoryReplayStore = NewMemoryStore"
proof -
  show k: "hs_replayKey = replayKey" by (simp add: fun_eq_iff hs_replayKey_def replayKey_def)
  show w: "hs_sweepLocked = sweepLocked" by (simp add: fun_eq_iff hs_sweepLocked_def sweepLocked_def)
  show "hs_SeenOrAdd = SeenOrAdd"
    by (auto simp: fun_eq_iff hs_SeenOrAdd_def SeenOrAdd_def k w Let_def split: option.splits)
  show "hs_Seen = Seen" by (simp add: fun_eq_iff hs_Seen_def Seen_def k)
  show "NewMemoryReplayStore = NewMemoryStore" by (simp add: NewMemoryReplayStore_def NewMemoryStore_def)
qed

interpretation hsm: replay_store NewMemoryReplayStore ms_inv
  "\<lambda>t n. hs_Seen t (fst n) (snd n)" "\<lambda>t n. hs_SeenOrAdd t (fst n) (snd n)"
  unfolding hs_store_eq by (rule ms.replay_store_axioms)

text \<open>A sequence of calls the middleware serves, each with its own configuration and clock.\<close>

type_synonym mw_call = "httpsig_env \<times> key_resolver \<times> middlewareConfig \<times> (nat \<Rightarrow> int) \<times> int \<times> HttpRequest"

fun mw_serve :: "'s replayStore \<Rightarrow> mw_call list \<Rightarrow> 's \<Rightarrow> 's" where
  "mw_serve st [] s = s"
| "mw_serve st ((env, resolver, c, clk, t, r) # calls) s =
     mw_serve st calls (snd (verifyMultisig env resolver st c clk t r s))"

text \<open>What the middleware relies on of a store whose calls may fail. A failed call may or may not have
  recorded the nonce.\<close>

locale replay_guard =
  fixes st :: "'s replayStore" and inv :: "'s \<Rightarrow> bool" and seen :: "int \<Rightarrow> string \<times> string \<Rightarrow> 's \<Rightarrow> bool"
  assumes check_answer: "rs_Seen st t k g s = Inr b \<Longrightarrow> b = seen t (k, g) s"
    and add_inv: "inv s \<Longrightarrow> inv (snd (rs_SeenOrAdd st t k g ttl s))"
    and add_records: "inv s \<Longrightarrow> rs_SeenOrAdd st t k g ttl s = (Inr False, s') \<Longrightarrow> t \<le> t' \<Longrightarrow> t' < t + ttl \<Longrightarrow>
      seen t' (k, g) s'"
    and add_keeps: "inv s \<Longrightarrow> t \<le> t' \<Longrightarrow> seen t' n s \<Longrightarrow> seen t' n (snd (rs_SeenOrAdd st t k g ttl s))"
begin

lemma commit_keeps: "inv s \<Longrightarrow> t \<le> t' \<Longrightarrow>
    inv (snd (replayCommit st t ttl vs s)) \<and> (seen t' n s \<longrightarrow> seen t' n (snd (replayCommit st t ttl vs s)))"
proof (induction vs arbitrary: s)
  case (Cons v vs)
  obtain r s1 where r: "rs_SeenOrAdd st t (hv_KeyID v) (hv_Signature v) ttl s = (r, s1)" by fastforce
  have "inv s1" "seen t' n s \<longrightarrow> seen t' n s1"
    using add_inv [OF Cons.prems(1), of t "hv_KeyID v" "hv_Signature v" ttl]
      add_keeps [OF Cons.prems, of n "hv_KeyID v" "hv_Signature v" ttl] r by simp_all
  then show ?case using Cons.IH [OF _ Cons.prems(2)] r by (auto split: sum.splits)
qed simp

lemma commit_records:
  assumes "inv s" "replayCommit st t ttl vs s = (None, s')" "v \<in> set vs" "t \<le> t'" "t' < t + ttl"
  shows "seen t' (hv_KeyID v, hv_Signature v) s'"
  using assms(1-3)
proof (induction vs arbitrary: s)
  case (Cons w vs)
  obtain s1 where s1: "rs_SeenOrAdd st t (hv_KeyID w) (hv_Signature w) ttl s = (Inr False, s1)"
      "replayCommit st t ttl vs s1 = (None, s')"
    using Cons.prems(2) by (auto split: prod.splits sum.splits if_splits)
  have inv1: "inv s1" using add_inv [OF Cons.prems(1), of t "hv_KeyID w" "hv_Signature w" ttl] s1(1) by simp
  show ?case
  proof (cases "v \<in> set vs")
    case True
    then show ?thesis using Cons.IH [OF inv1 s1(2)] by blast
  next
    case False
    then have "seen t' (hv_KeyID v, hv_Signature v) s1"
      using add_records [OF Cons.prems(1) s1(1) assms(4,5)] Cons.prems(3) by simp
    then show ?thesis using commit_keeps [OF inv1 assms(4), of ttl vs "(hv_KeyID v, hv_Signature v)"] s1(2) by simp
  qed
qed simp

lemma call_store:
  "snd (verifyMultisig env resolver st c clk t r s) = s \<or>
     (\<exists>vs. snd (verifyMultisig env resolver st c clk t r s) = snd (replayCommit st t (mc_ttl c) vs s))"
proof (cases "VerifyMultisigRequest env resolver [mc_verifyOpts c] clk r")
  case (Inr sigs)
  obtain o1 s1 where "replayCommit st t (mc_ttl c) sigs s = (o1, s1)" by fastforce
  then show ?thesis using Inr
    by (cases "replayCheck st t sigs s"; cases o1) (auto simp: verifyMultisig_def intro!: exI [of _ sigs])
qed (simp add: verifyMultisig_def)

lemma call_keeps:
  assumes "inv s" "t \<le> t'"
  shows "inv (snd (verifyMultisig env resolver st c clk t r s))"
    "seen t' n s \<Longrightarrow> seen t' n (snd (verifyMultisig env resolver st c clk t r s))"
proof -
  from call_store [of env resolver c clk t r s]
  show "inv (snd (verifyMultisig env resolver st c clk t r s))"
    by (elim disjE exE) (simp_all add: assms(1) commit_keeps [OF assms])
  assume n: "seen t' n s"
  from call_store [of env resolver c clk t r s]
  show "seen t' n (snd (verifyMultisig env resolver st c clk t r s))"
    by (elim disjE exE) (simp_all add: n commit_keeps [OF assms])
qed

lemma serve_keeps:
  "inv s \<Longrightarrow> \<forall>(env, resolver, c, clk, t, r) \<in> set calls. t \<le> t' \<Longrightarrow>
     inv (mw_serve st calls s) \<and> (seen t' n s \<longrightarrow> seen t' n (mw_serve st calls s))"
proof (induction calls arbitrary: s)
  case (Cons a calls)
  obtain env resolver c clk t r where a: "a = (env, resolver, c, clk, t, r)" by (cases a)
  then have "t \<le> t'" using Cons.prems(2) by simp
  then have "inv (snd (verifyMultisig env resolver st c clk t r s))"
      "seen t' n s \<longrightarrow> seen t' n (snd (verifyMultisig env resolver st c clk t r s))"
    using call_keeps [OF Cons.prems(1)] by blast+
  then show ?case using Cons.IH Cons.prems(2) a by simp
qed simp

lemma check_refuses:
  assumes "v \<in> set vs" "seen t (hv_KeyID v, hv_Signature v) s"
  shows "\<exists>e. replayCheck st t vs s = Some e"
  using assms
proof (induction vs)
  case (Cons w vs)
  show ?case
  proof (cases "rs_Seen st t (hv_KeyID w) (hv_Signature w) s")
    case (Inr b)
    then show ?thesis using Cons check_answer [OF Inr] by (cases "v = w") auto
  qed simp
qed simp

text \<open>A signature that was let through is refused in every later call within the window, whatever
  calls come in between, and the refused call leaves the store alone.\<close>

lemma no_replay:
  assumes "inv s" "verifyMultisig env resolver st c clk t r s = (Inr sigs, s1)" "v \<in> set sigs"
    "\<forall>(env, resolver, c, clk, u, r) \<in> set calls. u \<le> t'" "t \<le> t'" "t' < t + mc_ttl c"
    "VerifyMultisigRequest env' resolver' [mc_verifyOpts c'] clk' r' = Inr sigs'" "v' \<in> set sigs'"
    "hv_KeyID v' = hv_KeyID v" "hv_Signature v' = hv_Signature v"
  shows "\<exists>e. verifyMultisig env' resolver' st c' clk' t' r' (mw_serve st calls s1) = (Inl e, mw_serve st calls s1)"
proof -
  have s1: "replayCommit st t (mc_ttl c) sigs s = (None, s1)"
    using assms(2) by (auto simp: verifyMultisig_def split: sum.splits option.splits prod.splits)
  have "inv s1" using call_keeps(1) [OF assms(1) order_refl, of env resolver c clk t r] assms(2) by simp
  then have "seen t' (hv_KeyID v, hv_Signature v) (mw_serve st calls s1)"
    using serve_keeps [OF _ assms(4)] commit_records [OF assms(1) s1 assms(3,5,6)] by blast
  then have "seen t' (hv_KeyID v', hv_Signature v') (mw_serve st calls s1)" using assms(9,10) by simp
  then obtain e where "replayCheck st t' sigs' (mw_serve st calls s1) = Some e" using check_refuses [OF assms(8)] by blast
  then show ?thesis using assms(7) by (simp add: verifyMultisig_def)
qed

end

interpretation memg: replay_guard memoryReplay ms_inv "\<lambda>t n. hs_Seen t (fst n) (snd n)"
proof
  fix t k g s b assume "rs_Seen memoryReplay t k g s = Inr b"
  then show "b = hs_Seen t (fst (k, g)) (snd (k, g)) s" by (simp add: memoryReplay_def)
next
  fix s t k g ttl assume "ms_inv s"
  then show "ms_inv (snd (rs_SeenOrAdd memoryReplay t k g ttl s))"
    using hsm.add_inv [of s t "(k, g)" ttl] by (auto simp: memoryReplay_def split: prod.splits)
next
  fix s t k g ttl s' t'
  assume "ms_inv s" "rs_SeenOrAdd memoryReplay t k g ttl s = (Inr False, s')" "t \<le> t'" "t' < t + ttl"
  then show "hs_Seen t' (fst (k, g)) (snd (k, g)) s'"
    using hsm.add_records [of s t "(k, g)" t' ttl] hsm.add_answer [of t "(k, g)" ttl s]
    by (auto simp: memoryReplay_def split: prod.splits)
next
  fix s t t' n k g ttl assume "ms_inv s" "t \<le> t'" "hs_Seen t' (fst n) (snd n) s"
  then show "hs_Seen t' (fst n) (snd n) (snd (rs_SeenOrAdd memoryReplay t k g ttl s))"
    using hsm.add_keeps [of s t t' n "(k, g)" ttl] by (auto simp: memoryReplay_def split: prod.splits)
qed

text \<open>Committing on the in-memory store succeeds exactly when nothing is seen yet and no two signatures
  of the request share a replay key.\<close>

definition nonce_key :: "hsVerifiedRequest \<Rightarrow> string" where
  "nonce_key v = replayKey (hv_KeyID v) (hv_Signature v)"

lemma commit_None:
  assumes "ms_inv s"
  shows "fst (replayCommit memoryReplay t ttl vs s) = None \<longleftrightarrow>
    (\<forall>v \<in> set vs. \<not> Seen t (hv_KeyID v) (hv_Signature v) s) \<and> (ttl \<le> 0 \<or> distinct (map nonce_key vs))"
  using assms
proof (induction vs arbitrary: s)
  case (Cons v vs)
  obtain b s1 where s1: "SeenOrAdd t (hv_KeyID v) (hv_Signature v) ttl s = (b, s1)" by fastforce
  have b: "b = Seen t (hv_KeyID v) (hv_Signature v) s" using SeenOrAdd_answer [of t "hv_KeyID v" "hv_Signature v" ttl s] s1 by simp
  have inv1: "ms_inv s1" using SeenOrAdd_inv [OF Cons.prems, of t "hv_KeyID v" "hv_Signature v" ttl] s1 by simp
  have step: "fst (replayCommit memoryReplay t ttl (v # vs) s) = None \<longleftrightarrow> \<not> b \<and> fst (replayCommit memoryReplay t ttl vs s1) = None"
    using s1 by (simp add: memoryReplay_def hs_store_eq)
  have after: "Seen t (hv_KeyID w) (hv_Signature w) s1 \<longleftrightarrow>
      (if nonce_key w = nonce_key v \<and> \<not> b then 0 < ttl else Seen t (hv_KeyID w) (hv_Signature w) s)" for w
    using Seen_after [OF Cons.prems order_refl, of t "hv_KeyID w" "hv_Signature w" "hv_KeyID v" "hv_Signature v" ttl] s1 b
    by (simp add: nonce_key_def)
  have same: "Seen t (hv_KeyID w) (hv_Signature w) s = b" if "nonce_key w = nonce_key v" for w
    using that b by (simp add: nonce_key_def Seen_def)
  show ?case
  proof (cases b)
    case True
    then show ?thesis using step b by auto
  next
    case False
    have "(\<forall>w \<in> set vs. \<not> Seen t (hv_KeyID w) (hv_Signature w) s1) \<longleftrightarrow>
        (\<forall>w \<in> set vs. \<not> Seen t (hv_KeyID w) (hv_Signature w) s) \<and> (0 < ttl \<longrightarrow> nonce_key v \<notin> nonce_key ` set vs)"
    proof -
      have "\<not> Seen t (hv_KeyID w) (hv_Signature w) s1 \<longleftrightarrow>
          \<not> Seen t (hv_KeyID w) (hv_Signature w) s \<and> (0 < ttl \<longrightarrow> nonce_key v \<noteq> nonce_key w)" for w
        using after [of w] same [of w] False by auto
      then show ?thesis by auto
    qed
    then show ?thesis using step Cons.IH [OF inv1] b False by auto
  qed
qed simp

lemma commit_expires:
  assumes "ms_inv s" "t \<le> t'" "t + ttl \<le> t'" "\<And>k g. \<not> Seen t' k g s"
  shows "\<not> Seen t' k g (snd (replayCommit memoryReplay t ttl vs s))"
  using assms(1,4)
proof (induction vs arbitrary: s)
  case (Cons v vs)
  obtain b s1 where s1: "SeenOrAdd t (hv_KeyID v) (hv_Signature v) ttl s = (b, s1)" by fastforce
  have "ms_inv s1" using SeenOrAdd_inv [OF Cons.prems(1), of t "hv_KeyID v" "hv_Signature v" ttl] s1 by simp
  moreover have "\<not> Seen t' k g s1" for k g
    using Seen_after [OF Cons.prems(1) assms(2), of k g "hv_KeyID v" "hv_Signature v" ttl] s1 Cons.prems(2) assms(3) by simp
  ultimately have "\<not> Seen t' k g (snd (replayCommit memoryReplay t ttl vs s1))" by (rule Cons.IH)
  then show ?case using s1 \<open>\<And>k g. \<not> Seen t' k g s1\<close> by (simp add: memoryReplay_def hs_store_eq)
qed simp

lemma check_memory:
  "replayCheck memoryReplay t vs s = None \<longleftrightarrow> (\<forall>v \<in> set vs. \<not> Seen t (hv_KeyID v) (hv_Signature v) s)"
  by (induction vs) (simp_all add: memoryReplay_def hs_store_eq)

lemma verifyMultisig_memory:
  assumes "VerifyMultisigRequest env resolver [mc_verifyOpts c] clk r = Inr sigs" "ms_inv s"
  shows "fst (verifyMultisig env resolver memoryReplay c clk t r s) = Inr sigs \<longleftrightarrow>
    (\<forall>v \<in> set sigs. \<not> Seen t (hv_KeyID v) (hv_Signature v) s) \<and> (mc_ttl c \<le> 0 \<or> distinct (map nonce_key sigs))"
proof -
  obtain o1 s1 where c: "replayCommit memoryReplay t (mc_ttl c) sigs s = (o1, s1)" by fastforce
  then have "o1 = None \<longleftrightarrow> (\<forall>v \<in> set sigs. \<not> Seen t (hv_KeyID v) (hv_Signature v) s) \<and> (mc_ttl c \<le> 0 \<or> distinct (map nonce_key sigs))"
    using commit_None [OF assms(2), of t "mc_ttl c" sigs] by simp
  then show ?thesis using assms(1) c check_memory [of t sigs s]
    by (cases o1; cases "replayCheck memoryReplay t sigs s") (auto simp: verifyMultisig_def)
qed

lemma memory_forgets:
  assumes "verifyMultisig env resolver memoryReplay c clk t r NewMemoryReplayStore = (Inr sigs, s)" "t \<le> t'" "t + mc_ttl c \<le> t'"
  shows "ms_inv s" "\<not> Seen t' k g s"
proof -
  have s: "s = snd (replayCommit memoryReplay t (mc_ttl c) sigs NewMemoryStore)"
    using assms(1) by (auto simp: verifyMultisig_def hs_store_eq split: sum.splits option.splits prod.splits)
  show "\<not> Seen t' k g s" unfolding s
    by (rule commit_expires [OF NewMemoryStore_inv assms(2,3)]) (simp add: Seen_new)
  show "ms_inv s" using memg.commit_keeps [OF _ order_refl, of NewMemoryStore t "mc_ttl c" sigs] NewMemoryStore_inv unfolding s by simp
qed

section \<open>Redis\<close>

text \<open>What Redis documents: a key set with \<open>NX\<close> and an expiry exists until then, \<open>NX\<close> does not touch an
  existing key, and a key disappears by expiring only.\<close>

locale redis_nx =
  fixes api :: "'r nxapi" and live :: "int \<Rightarrow> 'r \<Rightarrow> string \<Rightarrow> bool"
  assumes exists_live: "nx_Exists api t r k = Some b \<Longrightarrow> b = live t r k"
    and set_fresh: "nx_SetNX api t r k ttl = (r', Some True) \<Longrightarrow> \<not> live t r k"
    and set_lives: "nx_SetNX api t r k ttl = (r', Some True) \<Longrightarrow> t \<le> t' \<Longrightarrow> t' < t + ttl \<Longrightarrow> live t' r' k"
    and set_others: "nx_SetNX api t r k ttl = (r', Some True) \<Longrightarrow> k' \<noteq> k \<Longrightarrow> live t' r k' \<Longrightarrow> live t' r' k'"
    and set_held: "nx_SetNX api t r k ttl = (r', Some False) \<Longrightarrow> live t' r k' \<Longrightarrow> live t' r' k'"
    and set_failed: "nx_SetNX api t r k ttl = (r', None) \<Longrightarrow> live t' r k' \<Longrightarrow> live t' r' k'"
    and live_mono: "t \<le> t' \<Longrightarrow> live t' r k \<Longrightarrow> live t r k"

sublocale redis_nx \<subseteq> guard: replay_guard "redisReplay api given" "\<lambda>_. True"
  "\<lambda>t n r. live t r (redisPrefix given @ hs_replayKey (fst n) (snd n))" for given
proof
  fix t k g s b assume "rs_Seen (redisReplay api given) t k g s = Inr b"
  then show "b = live t s (redisPrefix given @ hs_replayKey (fst (k, g)) (snd (k, g)))"
    using exists_live by (auto simp: redisReplay_def redis_Seen_def split: option.splits)
next
  fix s t k g ttl s' t'
  assume "rs_SeenOrAdd (redisReplay api given) t k g ttl s = (Inr False, s')" "t \<le> t'" "t' < t + ttl"
  then show "live t' s' (redisPrefix given @ hs_replayKey (fst (k, g)) (snd (k, g)))"
    using set_lives by (auto simp: redisReplay_def redis_SeenOrAdd_def split: option.splits prod.splits)
next
  fix s t t' n k g ttl
  let ?k = "redisPrefix given @ hs_replayKey k g" and ?n = "redisPrefix given @ hs_replayKey (fst n) (snd n)"
  assume le: "t \<le> t'" and l: "live t' s ?n"
  obtain r ok where c: "nx_SetNX api t s ?k ttl = (r, ok)" by fastforce
  have "live t' r ?n"
  proof (cases "ok = Some True")
    case True
    then have "?n \<noteq> ?k" using set_fresh c live_mono [OF le l] by metis
    then show ?thesis using set_others c l True by blast
  next
    case False
    then have "ok = None \<or> ok = Some False" by (cases ok) auto
    then show ?thesis using c l set_held set_failed by blast
  qed
  moreover have "snd (rs_SeenOrAdd (redisReplay api given) t k g ttl s) = r"
    using c by (simp add: redisReplay_def redis_SeenOrAdd_def split: option.splits)
  ultimately show "live t' (snd (rs_SeenOrAdd (redisReplay api given) t k g ttl s)) ?n" by simp
qed simp

text \<open>A single node: a map from keys to their expiry.\<close>

definition nodeNX :: "(string \<rightharpoonup> int) nxapi" where
  "nodeNX = \<lparr>nx_SetNX = (\<lambda>t m k ttl. case m k of
       Some ex \<Rightarrow> if t < ex then (m, Some False) else (m(k \<mapsto> t + ttl), Some True)
     | None \<Rightarrow> (m(k \<mapsto> t + ttl), Some True)),
     nx_Exists = (\<lambda>t m k. Some (case m k of None \<Rightarrow> False | Some ex \<Rightarrow> t < ex))\<rparr>"

interpretation nodeNX: redis_nx nodeNX "\<lambda>t m k. case m k of None \<Rightarrow> False | Some ex \<Rightarrow> t < ex"
  by unfold_locales (auto simp: nodeNX_def split: option.splits if_splits)

end
