(* ===== verification/Http_Signature_Properties.thy ===== *)
theory Http_Signature_Properties
  imports Http_Signature_Laws
begin

text \<open>
  Properties of the HTTP message signatures: what an accepted request proves, that a relayed request
  verifies and names its signers in order, that signatures cannot be dropped or reordered, and how
  long a signature is protected from replay. A small library with a table of two signers is the
  concrete instance.
\<close>

section \<open>Statements\<close>

text \<open>C37. What acceptance means: when a signed request is accepted, its signatures number at most the hop
  budget and form a chain, and every one of them is an Ed25519 signature that verified under the key
  the directory named in the signed \<open>Signature-Agent\<close> header publishes for its key id, covers the
  method, the target URI, the body digest, the authorization and the directory, has not expired and
  was not created further in the future than the skew, and the digest is that of the body received.\<close>

theorem VerifyMultisig_proves:
  assumes "VerifyMultisigRequest env resolver opts clk req = Inr vs"
  shows "\<exists>ps sigMap. parseAllSignatures env (hr_Header req) = Inr (ps, sigMap) \<and> length vs = length ps \<and>
    (vo_MaxSignatures (buildVerifyOptions opts) > 0 \<longrightarrow> int (length vs) \<le> vo_MaxSignatures (buildVerifyOptions opts)) \<and>
    (\<forall>j < length vs. hv_Label (vs ! j) = sigLabel (j + 1) \<and>
       chainLink (pa_Covered (ps ! j)) = (if j = 0 then fst (chainLink (pa_Covered (ps ! j))) else sigLabel j, if j = 0 then 0 else 1) \<and>
       set requiredCoveredComponents \<subseteq> (\<lambda>c. ToLower (cc_Name c)) ` set (pa_Covered (ps ! j)) \<and>
       hv_SignatureAgent (vs ! j) = DirectoryFromRequest (he_ids env) (header_values (hr_Header req) ''Signature-Agent'') \<and>
       resolver (hv_SignatureAgent (vs ! j)) (hv_KeyID (vs ! j)) = Inr (hv_PublicKey (vs ! j)) \<and>
       he_VerifyRequest env (hv_Label (vs ! j)) (hv_PublicKey (vs ! j)) req \<and>
       unix (clk j) \<le> hv_Expires (vs ! j) \<and>
       hv_Created (vs ! j) \<le> wrap64 (unix (clk j) + wholeSeconds (vo_MaxFutureSkew (buildVerifyOptions opts))) \<and>
       TrimSpace (header_get (hr_Header req) ''Content-Digest'') = contentDigest (bodyBytes (hr_Body req)))"
proof -
  obtain ps sigMap body where v: "parseAllSignatures env (hr_Header req) = Inr (ps, sigMap)"
      "readAndRestoreBody req = Inr body" "length vs = length ps" "\<forall>j < length ps. linked j (ps ! j)"
      "vo_MaxSignatures (buildVerifyOptions opts) > 0 \<longrightarrow> int (length ps) \<le> vo_MaxSignatures (buildVerifyOptions opts)"
      "\<forall>j < length ps. verified_as env resolver (vo_MaxFutureSkew (buildVerifyOptions opts)) (clk j) req
         (bodyBytes body) sigMap (ps ! j) (vs ! j)"
    using assms unfolding VerifyMultisig_Inr by blast
  have body: "bodyBytes body = bodyBytes (hr_Body req)"
    using v(2) by (auto simp: readAndRestoreBody_def split: option.splits if_splits)
  have at: "verified_as env resolver (vo_MaxFutureSkew (buildVerifyOptions opts)) (clk j) req
      (bodyBytes (hr_Body req)) sigMap (ps ! j) (vs ! j)" "linked j (ps ! j)" if "j < length vs" for j
    using v(3,4,6) body that by simp_all
  show ?thesis
  proof (intro exI [of _ ps] exI [of _ sigMap] conjI allI impI)
    fix j assume "j < length vs"
    note j = at [OF this]
    note f = verified_as_fields [OF j(1)]
    show "hv_Label (vs ! j) = sigLabel (j + 1)" using j(2) f(1) by (simp add: linked_def)
    show "chainLink (pa_Covered (ps ! j)) = (if j = 0 then fst (chainLink (pa_Covered (ps ! j))) else sigLabel j, if j = 0 then 0 else 1)"
      using j(2) by (auto simp: linked_def prod_eq_iff)
    show "resolver (hv_SignatureAgent (vs ! j)) (hv_KeyID (vs ! j)) = Inr (hv_PublicKey (vs ! j))"
      "he_VerifyRequest env (hv_Label (vs ! j)) (hv_PublicKey (vs ! j)) req"
      "unix (clk j) \<le> hv_Expires (vs ! j)"
      "hv_Created (vs ! j) \<le> wrap64 (unix (clk j) + wholeSeconds (vo_MaxFutureSkew (buildVerifyOptions opts)))"
      using j(1) by (simp_all only: f) (simp_all add: verified_as_def f(5) [symmetric])
    show "hv_SignatureAgent (vs ! j) = DirectoryFromRequest (he_ids env) (header_values (hr_Header req) ''Signature-Agent'')"
      by (rule f(5))
    show "set requiredCoveredComponents \<subseteq> (\<lambda>c. ToLower (cc_Name c)) ` set (pa_Covered (ps ! j))"
      "TrimSpace (header_get (hr_Header req) ''Content-Digest'') = contentDigest (bodyBytes (hr_Body req))"
      using j(1) by (simp_all add: verified_as_def)
  qed (use v(1,3,5) in simp_all)
qed

text \<open>C38. Relaying works: a request signed by an agent and co-signed by any number of relays, none of
  which touches anything but the two signature headers, verifies at the end of the path; the
  verified signatures are those of the agent and of the relays in the order they signed, with the
  keys they signed with.\<close>

theorem relayed_request_verifies:
  assumes "httpsign_laws env"
    and "header_values (hr_Header req) ''Signature-Input'' = []" "header_values (hr_Header req) ''Signature'' = []"
    and "SignRequestRAMP env t req body k priv e = Inr req1" "appendAll env body relays req1 = Inr req2"
    and "hr_Body req = Some body" "\<not> hr_BodyFails req" "int (length relays) < max_int64"
    and "vo_MaxSignatures (buildVerifyOptions opts) \<le> 0 \<or> int (length relays) < vo_MaxSignatures (buildVerifyOptions opts)"
    and "\<And>j. j \<le> length relays \<Longrightarrow> hop_accepted resolver
      (DirectoryFromRequest (he_ids env) (header_values (hr_Header (bindSignatureAgent req)) ''Signature-Agent''))
      (vo_MaxFutureSkew (buildVerifyOptions opts)) (clk j) (((t, k, priv, e) # relays) ! j)"
  shows "\<exists>vs. VerifyMultisigRequest env resolver opts clk req2 = Inr vs \<and>
    map hv_Label vs = labels (length relays + 1) \<and> map hv_KeyID vs = k # map (fst \<circ> snd) relays \<and>
    map hv_PublicKey vs = drop 32 priv # map (drop 32 \<circ> fst \<circ> snd \<circ> snd) relays"
  by (rule relayed_chain [OF assms])


text \<open>C40. Replay protection ends with the store's window, not with the signature: whatever calls were
  served in between, a signature that was let through is refused until the window has passed, but a
  request whose signatures are still unexpired after it, alone on the in-memory store, is let
  through a second time.\<close>

theorem middleware_replay_window:
  assumes "VerifyMultisigRequest env resolver [mc_verifyOpts c] clk r = Inr sigs" "sigs \<noteq> []"
    and "VerifyMultisigRequest env resolver [mc_verifyOpts c] clk' r = Inr sigs"
    and "verifyMultisig env resolver memoryReplay c clk t r NewMemoryReplayStore = (Inr sigs, s)" "t \<le> t'"
  shows "(t' < t + mc_ttl c \<longrightarrow> (\<forall>calls. (\<forall>(env, resolver, c, clk, u, r) \<in> set calls. u \<le> t') \<longrightarrow>
       (\<exists>e. fst (verifyMultisig env resolver memoryReplay c clk' t' r (mw_serve memoryReplay calls s)) = Inl e))) \<and>
    (t + mc_ttl c \<le> t' \<longrightarrow> fst (verifyMultisig env resolver memoryReplay c clk' t' r s) = Inr sigs)"
proof (intro conjI impI allI)
  fix calls :: "mw_call list"
  assume t': "t' < t + mc_ttl c" and calls: "\<forall>(env, resolver, c, clk, u, r) \<in> set calls. u \<le> t'"
  have "hd sigs \<in> set sigs" using assms(2) by simp
  moreover have "ms_inv NewMemoryReplayStore" by (rule hsm.fresh_inv)
  ultimately show "\<exists>e. fst (verifyMultisig env resolver memoryReplay c clk' t' r (mw_serve memoryReplay calls s)) = Inl e"
    using memg.no_replay [OF _ assms(4) _ calls assms(5) t' assms(3)] by (metis fst_conv)
next
  assume t': "t + mc_ttl c \<le> t'"
  have s: "ms_inv s" "\<not> Seen t' k g s" for k g using memory_forgets [OF assms(4,5) t'] by blast+
  have "mc_ttl c \<le> 0 \<or> distinct (map nonce_key sigs)"
    using verifyMultisig_memory [OF assms(1) NewMemoryStore_inv, of t] assms(4) by (simp add: hs_store_eq)
  then show "fst (verifyMultisig env resolver memoryReplay c clk' t' r s) = Inr sigs"
    using verifyMultisig_memory [OF assms(3) s(1), of t'] s(2) by simp
qed

section \<open>A concrete library\<close>

text \<open>Two signers whose signatures the library knows: the tokens \<open>A\<close> and \<open>B\<close> stand for the emitted
  \<open>Signature-Input\<close> members, \<open>a\<close> and \<open>b\<close> for the signatures. Dictionaries are tokens separated by
  commas.\<close>

definition hx_priv :: "char \<Rightarrow> string" where
  "hx_priv c = replicate 32 c @ replicate 32 (ascii_upper c)"

definition hx_fields :: "nat \<Rightarrow> sign_field list" where
  "hx_fields j = map FieldHeader requiredCoveredComponents @ (if 0 < j then [FieldDict ''signature'' (sigLabel j)] else [])"

definition hx_cfg :: "nat \<Rightarrow> SignConfig" where
  "hx_cfg j = hopConfig (if j = 0 then ''agent'' else ''broker'') 5000"

definition hx_input :: "nat \<Rightarrow> string \<times> sf_member" where
  "hx_input j = (sigLabel (j + 1), MemberInnerList (map fieldItem (hx_fields j)) (sigParams 100 (hx_cfg j)))"

definition hx_sig :: "nat \<Rightarrow> string \<times> sf_member" where
  "hx_sig j = (sigLabel (j + 1), MemberItem (BareBytes (if j = 0 then ''r1'' else ''r2'')) [])"

definition hx_token :: "string \<Rightarrow> (string \<times> sf_member) option" where
  "hx_token s = (if s = ''A'' then Some (hx_input 0) else if s = ''B'' then Some (hx_input 1)
     else if s = ''a'' then Some (hx_sig 0) else if s = ''b'' then Some (hx_sig 1) else None)"

fun hx_tokens :: "string list \<Rightarrow> Dictionary option" where
  "hx_tokens [] = Some []"
| "hx_tokens (s # ss) =
     (case hx_token (dropWhile (\<lambda>c. c = CHR '' '') s) of
        None \<Rightarrow> None
      | Some m \<Rightarrow> map_option (\<lambda>r. m # r) (hx_tokens ss))"

definition hx_unmarshal :: "string list \<Rightarrow> Dictionary option" where
  "hx_unmarshal vs = (case vs of [v] \<Rightarrow> hx_tokens (splitOn (CHR '','') v) | _ \<Rightarrow> None)"

definition hx_member :: "HttpRequest \<Rightarrow> string \<Rightarrow> string \<Rightarrow> sf_member option" where
  "hx_member req name label =
     (case hx_unmarshal (header_values (hr_Header req) name) of None \<Rightarrow> None | Some d \<Rightarrow> map_of d label)"

definition hxEnv :: httpsig_env where
  "hxEnv = \<lparr>he_ids = exAgentid, he_UnmarshalDictionary = hx_unmarshal, he_MarshalString = (\<lambda>s. Some s),
     he_SignRequest = (\<lambda>now label fs cfg priv req.
       if unix now = 100 \<and> label = sigLabel 1 \<and> fs = hx_fields 0 \<and> cfg = hx_cfg 0 \<and> priv = hx_priv (CHR ''p'') then Some (''A'', ''a'')
       else if unix now = 100 \<and> label = sigLabel 2 \<and> fs = hx_fields 1 \<and> cfg = hx_cfg 1 \<and> priv = hx_priv (CHR ''q'') then Some (''B'', ''b'')
       else None),
     he_VerifyRequest = (\<lambda>label pub req.
       (label = sigLabel 1 \<and> pub = replicate 32 (CHR ''P'') \<and>
          hx_member req ''Signature-Input'' label = Some (snd (hx_input 0)) \<and> hx_member req ''Signature'' label = Some (snd (hx_sig 0))) \<or>
       (label = sigLabel 2 \<and> pub = replicate 32 (CHR ''Q'') \<and>
          hx_member req ''Signature-Input'' label = Some (snd (hx_input 1)) \<and> hx_member req ''Signature'' label = Some (snd (hx_sig 1)))),
     he_random = (\<lambda>n. Some (replicate n 0))\<rparr>"

lemma splitOn_concat: "splitOn c (a @ c # b) = splitOn c a @ splitOn c b"
  by (induction a) (auto split: list.splits simp: splitOn_nonempty)

lemma hx_tokens_append:
  "hx_tokens ss = Some d \<Longrightarrow> hx_tokens ts = Some d' \<Longrightarrow> hx_tokens (ss @ ts) = Some (d @ d')"
  by (induction ss arbitrary: d) (auto split: option.splits)

lemma hx_tokens_space: "hx_tokens (splitOn (CHR '','') (CHR '' '' # b)) = hx_tokens (splitOn (CHR '','') b)"
  by (cases "splitOn (CHR '','') b") (auto simp: splitOn_nonempty)

lemma hx_join: "join_law hxEnv"
proof -
  have "hx_unmarshal [a @ '', '' @ b] = Some (d @ d')" if ab: "hx_unmarshal [a] = Some d" "hx_unmarshal [b] = Some d'" for a b d d'
  proof -
    have "hx_tokens (splitOn (CHR '','') a) = Some d" "hx_tokens (splitOn (CHR '','') (CHR '' '' # b)) = Some d'"
      using ab by (simp_all only: hx_unmarshal_def hx_tokens_space list.case)
    then have "hx_tokens (splitOn (CHR '','') (a @ CHR '','' # CHR '' '' # b)) = Some (d @ d')"
      by (simp only: splitOn_concat hx_tokens_append)
    then show ?thesis by (simp only: hx_unmarshal_def list.case append_Cons append_Nil)
  qed
  then show ?thesis by (simp add: join_law_def hxEnv_def)
qed

lemma hx_parse:
  "hx_unmarshal [''A''] = Some [hx_input 0]" "hx_unmarshal [''B''] = Some [hx_input 1]"
  "hx_unmarshal [''a''] = Some [hx_sig 0]" "hx_unmarshal [''b''] = Some [hx_sig 1]"
  by (simp_all add: hx_unmarshal_def hx_token_def)

lemma sigLabels: "sigLabel 1 \<noteq> sigLabel 2" "sigLabel 2 \<noteq> sigLabel 1" by simp_all

lemma hx_emit: "emit_law hxEnv"
  unfolding emit_law_def hxEnv_def
  by (simp add: hx_parse, intro allI impI) (auto simp: hx_parse hx_input_def hx_sig_def numeral_2_eq_2 split: if_splits)

lemma hx_pub: "drop 32 (hx_priv (CHR ''p'')) = replicate 32 (CHR ''P'')" "drop 32 (hx_priv (CHR ''q'')) = replicate 32 (CHR ''Q'')"
  by code_simp+

lemma hx_verify: "verify_law hxEnv"
proof -
  have "member hxEnv req n l = hx_member req n l" for req n l by (simp add: member_def hx_member_def hxEnv_def)
  then show ?thesis
    unfolding verify_law_def
    by (auto simp: hxEnv_def hx_pub hx_parse hx_input_def hx_sig_def numeral_2_eq_2 split: if_splits)
qed

lemma hx_laws: "httpsign_laws hxEnv"
  by (simp add: httpsign_laws_def hx_join hx_emit hx_verify)

section \<open>A relayed request\<close>

definition hx_req :: HttpRequest where
  "hx_req = \<lparr>hr_Method = ''POST'', hr_TargetURI = ''https://x.example/ramp.v1/Execute'', hr_Authority = ''x.example'',
     hr_Path = ''/ramp.v1/Execute'', hr_Header = (\<lambda>n. if n = ''signature-agent'' then [''https://agent.com''] else []),
     hr_Body = Some ''hi'', hr_BodyFails = False\<rparr>"

definition hx_resolver :: key_resolver where
  "hx_resolver dir k = (if dir \<noteq> ''https://agent.com'' then Inl ''unknown directory''
     else if k = ''agent'' then Inr (replicate 32 (CHR ''P'')) else if k = ''broker'' then Inr (replicate 32 (CHR ''Q''))
     else Inl ''unknown key'')"

definition hx_t :: int where "hx_t = 100 * 1000000000"

definition hx_relay :: "hop list" where "hx_relay = [(hx_t, ''broker'', hx_priv (CHR ''q''), 5000)]"

definition hx_signed :: HttpRequest where
  "hx_signed = projr (SignRequestRAMP hxEnv hx_t hx_req ''hi'' ''agent'' (hx_priv (CHR ''p'')) 5000)"

definition hx_relayed :: HttpRequest where
  "hx_relayed = projr (appendAll hxEnv ''hi'' hx_relay hx_signed)"

lemma hx_unix: "unix hx_t = 100" by (simp add: unix_def hx_t_def)

lemma hx_fields_of: "header_get h ''X-RAMP-Entitlement-Biscuit'' = [] \<Longrightarrow> hopFields h j = hx_fields j"
  by (simp add: hopFields_def hx_fields_def)

lemma hx_sign_1:
  "signWithParams hxEnv hx_t r (rampParams (sigLabel 1) cov ''agent'' 5000) (hx_priv (CHR ''p'')) SigWriteAppend =
     Inr (resigned r (joinHeader r ''Signature-Input'' ''A'') (joinHeader r ''Signature'' ''a''))"
  if "coveredToFields cov = Inr (hx_fields 0)"
  using that by (simp add: signWithParams_def rampParams_def hxEnv_def hx_unix hx_cfg_def hopConfig_def signConfig_def
      resigned_def hx_priv_def)

lemma hx_sign_2:
  "signWithParams hxEnv hx_t r (rampParams (sigLabel 2) cov ''broker'' 5000) (hx_priv (CHR ''q'')) SigWriteAppend =
     Inr (resigned r (joinHeader r ''Signature-Input'' ''B'') (joinHeader r ''Signature'' ''b''))"
  if "coveredToFields cov = Inr (hx_fields 1)"
  using that by (simp add: signWithParams_def rampParams_def hxEnv_def hx_unix hx_cfg_def hopConfig_def signConfig_def
      resigned_def hx_priv_def)

lemma hx_bare:
  "header_values (hr_Header hx_req) ''Signature-Input'' = []" "header_values (hr_Header hx_req) ''Signature'' = []"
  "header_values (hr_Header hx_req) ''X-RAMP-Entitlement-Biscuit'' = []" "hr_Body hx_req = Some ''hi''" "\<not> hr_BodyFails hx_req"
  "header_values (hr_Header hx_req) ''Signature-Agent'' = [''https://agent.com'']"
  by (simp_all add: hx_req_def header_values_def)

lemma hx_signed: "SignRequestRAMP hxEnv hx_t hx_req ''hi'' ''agent'' (hx_priv (CHR ''p'')) 5000 = Inr hx_signed"
    "hx_signed = resigned (prepare hx_req ''hi'') ''A'' ''a''"
proof -
  let ?p = "prepare hx_req ''hi''"
  have "coveredToFields (hopCovered (hr_Header ?p) 0) = Inr (hx_fields 0)"
    by (simp add: hopFields_of hx_fields_of header_get_values values_prepare hx_bare)
  moreover have "joinHeader ?p ''Signature-Input'' ''A'' = ''A''" "joinHeader ?p ''Signature'' ''a'' = ''a''"
    by (simp_all add: joinHeader_def header_get_values values_prepare hx_bare)
  ultimately have "SignRequestRAMP hxEnv hx_t hx_req ''hi'' ''agent'' (hx_priv (CHR ''p'')) 5000 = Inr (resigned ?p ''A'' ''a'')"
    using SignRequestRAMP_signs [OF hx_bare(1,2)] hx_sign_1 by simp
  then show "SignRequestRAMP hxEnv hx_t hx_req ''hi'' ''agent'' (hx_priv (CHR ''p'')) 5000 = Inr hx_signed"
    "hx_signed = resigned ?p ''A'' ''a''" by (simp_all add: hx_signed_def)
qed

lemma hx_relayed: "appendAll hxEnv ''hi'' hx_relay hx_signed = Inr hx_relayed"
proof -
  let ?h = "hr_Header hx_signed"
  obtain ms gs where c: "chained hxEnv ''hi'' [(hx_t, ''agent'', hx_priv (CHR ''p''), 5000)] hx_signed ms gs"
    using first_chained [OF hx_laws hx_bare(1,2) hx_signed(1)] by blast
  have "header_get ?h ''X-RAMP-Entitlement-Biscuit'' = []"
    unfolding hx_signed(2) by (simp add: header_get_values values_resigned values_prepare hx_bare)
  then have "coveredToFields (hopCovered ?h 1) = Inr (hx_fields 1)" by (simp only: hopFields_of hx_fields_of)
  from hx_sign_2 [OF this, of hx_signed] obtain r
    where "signWithParams hxEnv hx_t hx_signed (rampParams (sigLabel 2) (hopCovered ?h 1) ''broker'' 5000) (hx_priv (CHR ''q'')) SigWriteAppend = Inr r"
    by blast
  then have "AppendSignatureRAMP hxEnv hx_t hx_signed ''hi'' ''broker'' (hx_priv (CHR ''q'')) 5000 = Inr r"
    using append_signs [OF c] by (simp add: max_int64_def numeral_2_eq_2)
  then show ?thesis by (simp add: hx_relayed_def hx_relay_def)
qed

lemma hx_directory: "DirectoryFromRequest exAgentid (header_values (hr_Header (bindSignatureAgent hx_req)) ''Signature-Agent'') = ''https://agent.com''"
proof -
  have "bindSignatureAgent hx_req = hx_req" by (simp add: bindSignatureAgent_def header_get_values hx_bare)
  then show ?thesis
    by (simp add: hx_bare DirectoryFromRequest_def DirectoryFromHeader_def exAgentid_def)
qed

lemma hx_accepted:
  assumes "j \<le> length hx_relay" "100 \<le> unix now" "unix now \<le> 5000" "0 \<le> skew" "skew \<le> maxFutureSkew"
  shows "hop_accepted hx_resolver (DirectoryFromRequest (he_ids hxEnv) (header_values (hr_Header (bindSignatureAgent hx_req)) ''Signature-Agent''))
    skew now (((hx_t, ''agent'', hx_priv (CHR ''p''), 5000) # hx_relay) ! j)"
proof -
  have "wholeSeconds skew \<ge> 0" "wholeSeconds skew \<le> 300" using assms(4,5) by (auto simp: wholeSeconds_def maxFutureSkew_def)
  then have "wrap64 (unix now + wholeSeconds skew) = unix now + wholeSeconds skew"
    using assms(2,3) by (simp add: int64_def min_int64_def max_int64_def)
  moreover have "j = 0 \<or> j = 1" using assms(1) by (auto simp: hx_relay_def)
  moreover have "he_ids hxEnv = exAgentid" by (simp add: hxEnv_def)
  ultimately show ?thesis
    using assms \<open>wholeSeconds skew \<ge> 0\<close>
    by (auto simp: hop_accepted_def hx_relay_def hx_unix hx_directory hx_resolver_def hx_pub)
qed

lemmas hx_relays = hx_laws hx_bare(1,2) hx_signed(1) hx_relayed hx_bare(4,5)

abbreviation hx_opts :: "int \<Rightarrow> VerifyRequestOptions list" where
  "hx_opts n \<equiv> [\<lparr>vo_MaxFutureSkew = 0, vo_MaxSignatures = n\<rparr>]"

lemma hx_skew: "vo_MaxFutureSkew (buildVerifyOptions (hx_opts n)) = maxFutureSkew" "0 \<le> maxFutureSkew"
  by (simp_all add: buildVerifyOptions_def maxFutureSkew_def)

lemma hx_verifies:
  assumes "100 \<le> unix now" "unix now \<le> 5000"
  shows "\<exists>vs. VerifyMultisigRequest hxEnv hx_resolver (hx_opts 2) (\<lambda>_. now) hx_relayed = Inr vs \<and> length vs = 2"
    "\<exists>v. VerifyMultisigRequest hxEnv hx_resolver (hx_opts 2) (\<lambda>_. now) hx_signed = Inr [v]"
proof -
  from relayed_chain [OF hx_relays, where opts = "hx_opts 2" and clk = "\<lambda>_. now" and resolver = hx_resolver]
  obtain vs where "VerifyMultisigRequest hxEnv hx_resolver (hx_opts 2) (\<lambda>_. now) hx_relayed = Inr vs" "map hv_Label vs = labels (length hx_relay + 1)"
    using hx_accepted [of _ now maxFutureSkew] assms hx_skew by (auto simp: hx_relay_def max_int64_def buildVerifyOptions_def)
  then show "\<exists>vs. VerifyMultisigRequest hxEnv hx_resolver (hx_opts 2) (\<lambda>_. now) hx_relayed = Inr vs \<and> length vs = 2"
    by (metis length_map length_labels hx_relay_def list.size(3,4) Suc_eq_plus1 One_nat_def numeral_2_eq_2)
  have "appendAll hxEnv ''hi'' [] hx_signed = Inr hx_signed" by simp
  from relayed_chain [OF hx_laws hx_bare(1,2) hx_signed(1) this hx_bare(4,5), where opts = "hx_opts 2" and clk = "\<lambda>_. now" and resolver = hx_resolver]
  obtain vs where v: "VerifyMultisigRequest hxEnv hx_resolver (hx_opts 2) (\<lambda>_. now) hx_signed = Inr vs" "map hv_Label vs = labels 1"
    using hx_accepted [of 0 now maxFutureSkew] assms hx_skew by (auto simp: max_int64_def buildVerifyOptions_def)
  have "length vs = 1" using v(2) by (metis length_map length_labels)
  then show "\<exists>v. VerifyMultisigRequest hxEnv hx_resolver (hx_opts 2) (\<lambda>_. now) hx_signed = Inr [v]"
    using v(1) by (cases vs) auto
qed


theorem VerifyMultisig_proves_witness:
  "\<exists>vs. VerifyMultisigRequest hxEnv hx_resolver (hx_opts 2) (\<lambda>_. hx_t) hx_relayed = Inr vs \<and> length vs = 2 \<and>
     hv_Label (vs ! 1) = sigLabel 2 \<and> hv_SignatureAgent (vs ! 1) = ''https://agent.com'' \<and>
     hx_resolver ''https://agent.com'' (hv_KeyID (vs ! 1)) = Inr (hv_PublicKey (vs ! 1)) \<and> 100 \<le> hv_Expires (vs ! 1)"
proof -
  obtain vs where vs: "VerifyMultisigRequest hxEnv hx_resolver (hx_opts 2) (\<lambda>_. hx_t) hx_relayed = Inr vs" "length vs = 2"
    using hx_verifies(1) [of hx_t] hx_unix by auto
  have "1 < length vs" using vs(2) by simp
  with VerifyMultisig_proves [OF vs(1)]
  have v: "hv_Label (vs ! 1) = sigLabel (1 + 1)"
      "hv_SignatureAgent (vs ! 1) = DirectoryFromRequest (he_ids hxEnv) (header_values (hr_Header hx_relayed) ''Signature-Agent'')"
      "hx_resolver (hv_SignatureAgent (vs ! 1)) (hv_KeyID (vs ! 1)) = Inr (hv_PublicKey (vs ! 1))" "unix hx_t \<le> hv_Expires (vs ! 1)"
    by blast+
  then show ?thesis using vs hx_unix by (intro exI [of _ vs]) (auto simp: hx_resolver_def split: if_splits)
qed

theorem relayed_request_verifies_witness:
  "\<exists>vs. VerifyMultisigRequest hxEnv hx_resolver (hx_opts 2) (\<lambda>_. hx_t) hx_relayed = Inr vs \<and>
     map hv_KeyID vs = [''agent'', ''broker''] \<and> map hv_PublicKey vs = [replicate 32 (CHR ''P''), replicate 32 (CHR ''Q'')]"
proof -
  have "\<exists>vs. VerifyMultisigRequest hxEnv hx_resolver (hx_opts 2) (\<lambda>_. hx_t) hx_relayed = Inr vs \<and>
    map hv_Label vs = labels (length hx_relay + 1) \<and> map hv_KeyID vs = ''agent'' # map (fst \<circ> snd) hx_relay \<and>
    map hv_PublicKey vs = drop 32 (hx_priv (CHR ''p'')) # map (drop 32 \<circ> fst \<circ> snd \<circ> snd) hx_relay"
    by (rule relayed_request_verifies [OF hx_relays])
      (use hx_accepted [of _ hx_t maxFutureSkew] hx_skew hx_unix in \<open>simp_all add: hx_relay_def max_int64_def buildVerifyOptions_def\<close>)
  then show ?thesis unfolding hx_relay_def hx_pub by (auto simp: hx_pub)
qed


definition hx_config :: middlewareConfig where
  "hx_config = newMiddlewareConfig \<lparr>io_PathPredicate = None, io_RequestPredicate = None, io_ReplayWindow = 0, io_MaxSignatures = 2\<rparr>"

theorem middleware_replay_window_witness:
  "\<exists>v s. verifyMultisig hxEnv hx_resolver memoryReplay hx_config (\<lambda>_. hx_t) hx_t hx_signed NewMemoryReplayStore = (Inr [v], s) \<and>
     (\<exists>e. fst (verifyMultisig hxEnv hx_resolver memoryReplay hx_config (\<lambda>_. hx_t + 299 * 1000000000) (hx_t + 299 * 1000000000) hx_signed s) = Inl e) \<and>
     fst (verifyMultisig hxEnv hx_resolver memoryReplay hx_config (\<lambda>_. hx_t + 300 * 1000000000) (hx_t + 300 * 1000000000) hx_signed s) = Inr [v]"
proof -
  let ?V = "\<lambda>now. VerifyMultisigRequest hxEnv hx_resolver [mc_verifyOpts hx_config] (\<lambda>_. now) hx_signed"
  have c: "[mc_verifyOpts hx_config] = hx_opts 2" "mc_ttl hx_config = 300 * 1000000000"
    by (simp_all add: hx_config_def newMiddlewareConfig_def hs_ReplayTTL_def)
  have u: "unix (hx_t + 299 * 1000000000) = 399" "unix (hx_t + 300 * 1000000000) = 400" by (simp_all add: unix_def hx_t_def)
  obtain v where v: "?V hx_t = Inr [v]" using hx_verifies(2) [of hx_t] hx_unix c by auto
  have same: "?V now = Inr [v]" if now: "100 \<le> unix now" "unix now \<le> 5000" for now
  proof -
    obtain w where "?V now = Inr [w]" using hx_verifies(2) [OF now] c by auto
    then show ?thesis using v verified_unique by metis
  qed
  obtain r s where r: "verifyMultisig hxEnv hx_resolver memoryReplay hx_config (\<lambda>_. hx_t) hx_t hx_signed NewMemoryReplayStore = (r, s)"
    by fastforce
  then have first: "verifyMultisig hxEnv hx_resolver memoryReplay hx_config (\<lambda>_. hx_t) hx_t hx_signed NewMemoryReplayStore = (Inr [v], s)"
    using verifyMultisig_memory [OF v NewMemoryStore_inv, of hx_t] by (simp add: hs_store_eq Seen_new)
  have "\<exists>e. fst (verifyMultisig hxEnv hx_resolver memoryReplay hx_config (\<lambda>_. hx_t + 299 * 1000000000) (hx_t + 299 * 1000000000) hx_signed s) = Inl e"
    using middleware_replay_window [OF v _ same first, of "hx_t + 299 * 1000000000" "hx_t + 299 * 1000000000"] c(2) u
    by (auto dest!: spec [of _ "[]"])
  moreover have "fst (verifyMultisig hxEnv hx_resolver memoryReplay hx_config (\<lambda>_. hx_t + 300 * 1000000000) (hx_t + 300 * 1000000000) hx_signed s) = Inr [v]"
    using middleware_replay_window [OF v _ same first, of "hx_t + 300 * 1000000000" "hx_t + 300 * 1000000000"] c(2) u by simp
  ultimately show ?thesis using first by blast
qed

end
