(* ===== verification/Spec2Isabelle.thy ===== *)
theory Spec2Isabelle
  imports InMemory_Properties TigerBeetle_Properties Money Reporting_Properties Batch_Properties Resolve_Properties
    Http_Signature_Properties
begin

text \<open>
  A verification library for the RAMP reference implementation, a set of Go services under \<open>src/\<close>
  that let software agents license content: an Exchange that prices, sells and settles, a Broker
  that discovers offers and relays signed requests, an identity service that holds agent keys, and
  the packages they share.

  \<^bold>\<open>The parts and how they interact.\<close> An agent asks the Broker for offers, the Broker relays the
  signed request to the Exchanges its registry admits, and the Exchange executes the transaction:
  it claims the request key, authorizes each item against a billing adapter, signs a delivery URL,
  writes the transaction log and an obligation to report usage, and finalizes one response per
  request key. Later the agent files usage reports against its obligations; an agent with overdue
  obligations is refused new transactions.

  \<^bold>\<open>Theories.\<close> The prefix \<open>exchange/\<close> stands for \<open>src/src/exchange/internal/\<close> and \<open>broker/\<close> for
  \<open>src/src/broker/internal/\<close>.

  \<^item> \<open>Ramp_Prelude\<close>: result types, 64-bit wrap-around, decimal text, association lists and the
    lemma collections every component shares.
  \<^item> \<open>Sha256\<close>, \<open>Float64\<close>: the standard-library digest, hex codec and \<open>float64\<close> rounding the sources
    rely on.
  \<^item> \<open>Billing_Adapter\<close>: the billing interface, its arguments and errors
    (\<open>exchange/billing/adapter.go\<close>, \<open>idempotency.go\<close>).
  \<^item> \<open>InMemory_Adapter\<close>, \<open>InMemory_Laws\<close>, \<open>InMemory_Properties\<close>: the prepaid ledger
    (\<open>exchange/billing/inmemory_adapter.go\<close>). The struct is the record \<open>ledger\<close>, every method one
    definition \<open>im_*\<close> from state to state and result. The laws are an elimination rule per method,
    the ledger invariant with its preservation, and a reachability predicate over all six methods.
  \<^item> \<open>Money\<close>: minor-unit conversion, batch totals, derived item keys and the free-tier adapter.
  \<^item> \<open>TigerBeetle_Client\<close>, \<open>TigerBeetle_Adapter\<close>, \<open>TigerBeetle_Laws\<close>, \<open>TigerBeetle_Properties\<close>: the
    persisted ledger (\<open>exchange/billing/tigerbeetle*\<close>). The client library and its server are the
    record of functions \<open>tbapi\<close>; what the adapter submits to it is modelled in full.
  \<^item> \<open>Exchange_Error\<close>, \<open>Exchange_Store\<close>: the error vocabulary with its denial and status tables, and
    the database tables as lists of rows with one definition per statement.
  \<^item> \<open>Pricing\<close>: price normalisation and term selection (\<open>exchange/service/catalog_pricing.go\<close>,
    \<open>termselect.go\<close>).
  \<^item> \<open>Reporting\<close>, \<open>Reporting_Laws\<close>, \<open>Reporting_Properties\<close>: usage reports and the compliance gate
    (\<open>exchange/service/report_usage.go\<close>, \<open>report_validator.go\<close>, \<open>reporting_obligation.go\<close>).
  \<^item> \<open>Exchange_Authz\<close>: who the verified caller is (\<open>exchange/service/authz.go\<close>).
  \<^item> \<open>Batch_Execute\<close>, \<open>Batch_Admission\<close>, \<open>Batch_Laws\<close>, \<open>Batch_Properties\<close>: ExecuteTransaction
    (\<open>exchange/service/exchange_batch*.go\<close>, \<open>exchange_helpers.go\<close>, \<open>persist_intent.go\<close>). The locale
    \<open>billing_pipeline\<close> states what the pipeline needs of a billing adapter and is interpreted on the
    in-memory ledger.
  \<^item> \<open>Replay_Store\<close>: the signature replay store (\<open>src/internal/replay/store.go\<close>). The locale
    \<open>replay_store\<close> is interpreted on the store and on its caller-agnostic adapter.
  \<^item> \<open>Broker_Registry\<close>: exchange rows, bootstrap and health sweep (\<open>broker/repo/exchange.go\<close>,
    \<open>broker/registry/\<close>).
  \<^item> \<open>Broker_Relay\<close>: the two relay routes (\<open>broker/relay/\<close>, \<open>broker/transport/exchange_relay_batch.go\<close>,
    \<open>discover_relay.go\<close>).
  \<^item> \<open>Agent_Id\<close>: canonical hosts and the agent identity derived from a directory reference
    (\<open>src/internal/agentid\<close>, with the well-known URLs of \<open>src/internal/rampwellknown\<close>).
  \<^item> \<open>Broker_Selection\<close>: deduplication, ranking and per-URL offer groups (\<open>broker/selection\<close>).
  \<^item> \<open>Broker_Budget\<close>: the period budget (\<open>broker/budget\<close>). The locale \<open>budget_cap\<close> is interpreted on
    the in-memory service; \<open>redis_counter\<close> states what Redis documents, gives the same contract for
    the Redis service and is interpreted on a single node.
  \<^item> \<open>Broker_Resolve\<close>, \<open>Resolve_Laws\<close>, \<open>Resolve_Properties\<close>: the discovery call, from the wire request
    to the wire response (\<open>broker/resolve\<close>, \<open>broker/probe\<close>, \<open>broker/transport/canonical.go\<close>,
    \<open>resolve_input.go\<close>, \<open>broker_connect_handler.go\<close>).
  \<^item> \<open>Go_Strings\<close>, \<open>Http_Signature\<close>, \<open>Http_Signature_Laws\<close>, \<open>Http_Signature_Properties\<close>: HTTP message
    signatures (\<open>src/internal/httpsig\<close>): parsing, verification, the forwarding chain, the signers, the
    replay stores and the middleware. The locale \<open>replay_guard\<close> is what the middleware relies on, with
    the in-memory store as interpretation and \<open>redis_nx\<close>, interpreted on a single node, for Redis.

  \<^bold>\<open>How Go is read.\<close> A struct is a record and a tagged value a datatype. A method is a function that
  takes and returns the state; a Go error is the \<open>Inl\<close> side of a result or a \<open>Some\<close> in an error
  position. \<open>int64\<close> arithmetic is integer arithmetic under \<open>wrap64\<close>, \<open>big.Rat\<close> and decimal values are
  rationals, strings are byte lists. Locks make each method atomic, so concurrent callers are
  sequences of calls; where a call is several atomic steps (the request claim, the finalized
  response) the theorems quantify over the state in between.

  \<^bold>\<open>What is a parameter.\<close> The protocol SDK (signature and acceptance verification, money parsing,
  message encoding), the ledger client library, URL signers, databases' failures, clocks, random ids
  and remote services are arguments of the definitions. A law assumed of one is a hypothesis of the
  theorem that uses it and is shown satisfiable by that theorem's witness.

  \<^bold>\<open>What the theorems show.\<close>
  \<^item> Billing: accounts are never overdrawn, money is conserved, Authorize, Record and Credit act once
    per key, Release undoes Authorize, refunds are bounded, no operation panics; the persisted
    adapter submits exactly the settlement and refund legs, probes hold generations in order and
    its refund paging terminates. Theorems on concrete instances pin down places where the code
    falls short of its comments.
  \<^item> Reporting: a settled obligation is final, accepted reports keep their answer, the gate can
    always be satisfied, and the validator's accepted set is given exactly.
  \<^item> Transactions: no hold outlives a request that did not deliver, the results returned are the rows
    written, a retry reads the same response back, and one response is final per request key.
  \<^item> Broker: the registry keeps its column constraints, a sweep is a pointwise update, payments reach
    only approved live exchanges, a signature is admitted once per window, results are merged in
    request order. Discovery queries go where the publisher's manifest says, every requested URL gets
    one group of verified offers, a group keeps one cheapest offer per identity, and recorded spend
    stays within the budget; two theorems show an overflow of the budget check and a merge of offers
    from an exchange that was not asked.
  \<^item> Identity and signatures: the derived identity is a fixed point and merges exactly the aliases of a
    host. An accepted signed request binds method, target, body and directory under a published key,
    a relayed request verifies with its signers in order, no signature of a chain can be dropped or
    moved, and replay protection lasts exactly as long as the store's window.

  \<^bold>\<open>Bounds and fuel.\<close> The only loop without a structural bound is the refund paging loop, a
  \<open>partial_function (option)\<close> whose termination is a theorem. The generation probe and the bounded
  wait recurse over the constants of the source (256 generations, 60 polls).

  \<^bold>\<open>Not modelled.\<close> Process wiring, HTTP servers, logging, metrics and configuration loading decide
  nothing a theorem could state. Generated database code and protobuf code is represented by the
  rows and records the callers use. The identity service (OAuth, session, MCP and key-custody
  surfaces), the ledger command-line tool, the system-of-record client and the TypeScript edge worker
  are separate programs whose logic is calls into external systems. Catalog push, ingestion, agent
  registration, the Exchange's own discovery answer, document fetching and caching, key-set policy and
  the outbound signing transport are outside the present extent of the library: where a modelled
  component calls one of them, the call is a parameter.
\<close>

end
